(* ===== verification/Doki_Prelude.thy ===== *)
theory Doki_Prelude
  imports Complex_Main
begin

text \<open>
  Shared vocabulary of the doki model (src/packages/doki-Mowstyl/.../src/doki).
  \<^item> \<open>platform\<close>: the two chunk capacities of platform.h, \<open>NATURAL_ARRAY_SIZE\<close>
    (chunks of indices, used by \<open>alist_init\<close>) and \<open>COMPLEX_ARRAY_SIZE\<close> (chunks of
    amplitudes, used by \<open>alist_get\<close>/\<open>alist_set\<close> and by the state vector);
  \<^item> \<open>doki_error\<close>: the numeric exit codes of the C functions as a datatype, with
    \<open>error_code\<close> giving the number the C code returns, and \<open>Err_undefined\<close> for a
    path on which the C code has undefined behaviour;
  \<^item> \<open>mem\<close>: the C allocator: \<open>malloc\<close> hands out fresh block numbers or fails as an
    oracle \<open>mem_ok\<close> decides, \<open>free\<close> releases a block; \<open>mem_live\<close> is the set of
    blocks allocated and not yet freed, so a leak or a double free is visible;
  \<^item> lemmas on bit tests (\<open>i & (1 << q)\<close>), on the allocator and on sums that the
    component theories share.
\<close>

unbundle bit_operations_syntax

named_theorems mem_simps "equations of the allocator model"
named_theorems index_simps "bit and index arithmetic on qubit positions"

record platform =
  natural_array_size :: nat
  complex_array_size :: nat

datatype doki_error =
    Err_alloc_vector
  | Err_alloc_chunk
  | Err_set_values
  | Err_alloc_state
  | Err_calculate
  | Err_copy_index
  | Err_null_dest
  | Err_alloc_list
  | Err_undefined

fun error_code :: "doki_error \<Rightarrow> nat option" where
  "error_code Err_alloc_vector = Some 1"
| "error_code Err_alloc_chunk = Some 2"
| "error_code Err_set_values = Some 3"
| "error_code Err_alloc_state = Some 4"
| "error_code Err_calculate = Some 5"
| "error_code Err_copy_index = Some 6"
| "error_code Err_null_dest = Some 10"
| "error_code Err_alloc_list = Some 11"
| "error_code Err_undefined = None"

subsection \<open>The allocator\<close>

record mem =
  mem_calls :: nat
  mem_live :: "nat set"
  mem_ok :: "nat \<Rightarrow> bool"

definition malloc :: "mem \<Rightarrow> nat option \<times> mem" where
  "malloc m =
     (let p = mem_calls m; m' = m\<lparr>mem_calls := Suc p\<rparr>
      in if mem_ok m p then (Some p, m'\<lparr>mem_live := insert p (mem_live m)\<rparr>) else (None, m'))"

definition free :: "nat \<Rightarrow> mem \<Rightarrow> mem" where
  "free p m = m\<lparr>mem_live := mem_live m - {p}\<rparr>"

fun free_all :: "nat list \<Rightarrow> mem \<Rightarrow> mem" where
  "free_all [] m = m"
| "free_all (p # ps) m = free_all ps (free p m)"

definition mem_fresh :: "mem \<Rightarrow> bool" where
  "mem_fresh m \<longleftrightarrow> (\<forall>p \<in> mem_live m. p < mem_calls m)"

text \<open>An allocator before the first call, with a schedule of which calls fail.\<close>

definition mem_init :: "(nat \<Rightarrow> bool) \<Rightarrow> mem" where
  "mem_init ok = \<lparr>mem_calls = 0, mem_live = {}, mem_ok = ok\<rparr>"

text \<open>An index selected by control qubits \<open>C\<close> (bit set) and anticontrol qubits
  \<open>A\<close> (bit clear): the indices a controlled gate acts on.\<close>

definition ctrl_selected :: "nat set \<Rightarrow> nat set \<Rightarrow> nat \<Rightarrow> bool" where
  "ctrl_selected C A i \<longleftrightarrow> (\<forall>c \<in> C. bit i c) \<and> (\<forall>a \<in> A. \<not> bit i a)"

lemma mem_fresh_init [mem_simps]: "mem_fresh (mem_init ok)"
  by (simp add: mem_fresh_def mem_init_def)

lemma malloc_Some [mem_simps]:
  "malloc m = (Some p, m') \<longleftrightarrow>
     mem_ok m (mem_calls m) \<and> p = mem_calls m \<and>
     m' = m\<lparr>mem_calls := Suc (mem_calls m), mem_live := insert (mem_calls m) (mem_live m)\<rparr>"
  by (auto simp: malloc_def Let_def)

lemma malloc_None [mem_simps]:
  "malloc m = (None, m') \<longleftrightarrow> \<not> mem_ok m (mem_calls m) \<and> m' = m\<lparr>mem_calls := Suc (mem_calls m)\<rparr>"
  by (auto simp: malloc_def Let_def)

lemma malloc_cases:
  obtains (ok) "mem_ok m (mem_calls m)"
    "malloc m = (Some (mem_calls m), m\<lparr>mem_calls := Suc (mem_calls m), mem_live := insert (mem_calls m) (mem_live m)\<rparr>)"
  | (fail) "\<not> mem_ok m (mem_calls m)" "malloc m = (None, m\<lparr>mem_calls := Suc (mem_calls m)\<rparr>)"
  by (cases "mem_ok m (mem_calls m)") (auto simp: malloc_def Let_def)

lemma free_live [mem_simps]: "mem_live (free p m) = mem_live m - {p}"
  by (simp add: free_def)

lemma free_calls [mem_simps]: "mem_calls (free p m) = mem_calls m"
  by (simp add: free_def)

lemma free_ok [mem_simps]: "mem_ok (free p m) = mem_ok m"
  by (simp add: free_def)

lemma free_all_live [mem_simps]: "mem_live (free_all ps m) = mem_live m - set ps"
  by (induction ps arbitrary: m) (auto simp: free_def)

lemma free_all_calls [mem_simps]: "mem_calls (free_all ps m) = mem_calls m"
  by (induction ps arbitrary: m) (auto simp: free_def)

lemma free_all_ok [mem_simps]: "mem_ok (free_all ps m) = mem_ok m"
  by (induction ps arbitrary: m) (auto simp: free_def)

lemma mem_fresh_free [mem_simps]: "mem_fresh m \<Longrightarrow> mem_fresh (free p m)"
  by (auto simp: mem_fresh_def free_def)

lemma mem_fresh_free_all [mem_simps]: "mem_fresh m \<Longrightarrow> mem_fresh (free_all ps m)"
  by (auto simp: mem_fresh_def mem_simps)

lemma mem_fresh_malloc:
  assumes "mem_fresh m" and "malloc m = (r, m')"
  shows "mem_fresh m'" and "mem_calls m' = Suc (mem_calls m)" and "mem_ok m' = mem_ok m"
    and "r = Some p \<Longrightarrow> p \<notin> mem_live m \<and> mem_live m' = insert p (mem_live m) \<and> p = mem_calls m"
    and "r = None \<Longrightarrow> mem_live m' = mem_live m"
  using assms by (auto simp: malloc_def mem_fresh_def Let_def less_SucI split: if_splits)

lemma prod_eq_fst: "fst p = a \<Longrightarrow> p = (a, snd p)"
  by (cases p) simp

text \<open>The C expression \<open>RE(v) * RE(v) + IM(v) * IM(v)\<close> is \<open>|v|^2\<close>.\<close>

lemma re_im_square: "Re v * Re v + Im v * Im v = (cmod v)\<^sup>2"
  unfolding cmod_power2 by (simp add: power2_eq_square)

subsection \<open>Bit tests on indices\<close>

text \<open>The C test \<open>(i & (NATURAL_ONE << q)) != 0\<close> is the bit \<open>q\<close> of \<open>i\<close>.\<close>

lemma and_mask_ne_0 [index_simps]: "((i::nat) AND push_bit q 1 \<noteq> 0) = bit i q"
  by (simp add: bit_iff_and_push_bit_not_eq_0)

lemma and_mask_eq_0 [index_simps]: "((i::nat) AND push_bit q 1 = 0) = (\<not> bit i q)"
  by (simp add: bit_iff_and_push_bit_not_eq_0)

lemma and_exp_pos [index_simps]: "(0 < (i::nat) AND 2 ^ q) = bit i q"
  using and_mask_ne_0 [of i q] by (simp add: push_bit_of_1)

lemma and_exp_eq_0 [index_simps]: "((i::nat) AND 2 ^ q = 0) = (\<not> bit i q)"
  using and_mask_eq_0 [of i q] by (simp add: push_bit_of_1)

lemma bit_low_range [index_simps]: "(i::nat) < 2 ^ q \<Longrightarrow> \<not> bit i q"
  by (simp add: bit_iff_odd)

lemma bit_add_high:
  "(i::nat) < 2 ^ n \<Longrightarrow> bit (2 ^ n + i) k = (k = n \<or> bit i k)"
proof -
  assume "i < 2 ^ n"
  then have "\<not> bit ((2::nat) ^ n) j \<or> \<not> bit i j" for j
    by (auto simp: bit_exp_iff bit_low_range)
  then show ?thesis
    by (simp add: bit_disjunctive_add_iff bit_exp_iff)
qed

subsection \<open>Counting indices\<close>

lemma length_filter_upt_double:
  "length (filter P [0..<2 ^ Suc n]) =
     length (filter P [0..<2 ^ n]) + length (filter (\<lambda>i. P (2 ^ n + i)) [0..<(2::nat) ^ n])"
proof -
  have "[0..<2 ^ Suc n] = [0..<2 ^ n] @ map (\<lambda>i. i + 2 ^ n) [0..<(2::nat) ^ n]"
    by (simp add: map_add_upt upt_add_eq_append [of 0 "2 ^ n" "2 ^ n", simplified] mult_2)
  then show ?thesis by (simp add: filter_map o_def add.commute)
qed

lemma count_selected:
  assumes "C \<subseteq> {..<n}" and "A \<subseteq> {..<n}" and "C \<inter> A = {}"
  shows "length (filter (ctrl_selected C A) [0..<2 ^ n]) = 2 ^ (n - card C - card A)"
  using assms
proof (induction n arbitrary: C A)
  case 0
  then show ?case by (simp add: ctrl_selected_def)
next
  case (Suc n)
  have fin: "finite C" "finite A" using Suc.prems(1,2) finite_subset by blast+
  have low: "ctrl_selected C A i = (n \<notin> C \<and> ctrl_selected C (A - {n}) i)" if "i < 2 ^ n" for i
    using that bit_low_range [OF that] by (auto simp: ctrl_selected_def)
  have high: "ctrl_selected C A (2 ^ n + i) = (n \<notin> A \<and> ctrl_selected (C - {n}) A i)" if "i < 2 ^ n" for i
    using bit_add_high [OF that] by (auto simp: ctrl_selected_def)
  have cnt: "length (filter (ctrl_selected C A) [0..<2 ^ Suc n]) =
             length (filter (\<lambda>i. n \<notin> C \<and> ctrl_selected C (A - {n}) i) [0..<2 ^ n]) +
             length (filter (\<lambda>i. n \<notin> A \<and> ctrl_selected (C - {n}) A i) [0..<2 ^ n])"
  proof -
    have "filter (ctrl_selected C A) [0..<2 ^ n] = filter (\<lambda>i. n \<notin> C \<and> ctrl_selected C (A - {n}) i) [0..<2 ^ n]"
      by (rule filter_cong) (simp_all add: low)
    moreover have "filter (\<lambda>i. ctrl_selected C A (2 ^ n + i)) [0..<2 ^ n] =
                   filter (\<lambda>i. n \<notin> A \<and> ctrl_selected (C - {n}) A i) [0..<2 ^ n]"
      by (rule filter_cong) (simp_all add: high)
    ultimately show ?thesis unfolding length_filter_upt_double by simp
  qed
  have cardle: "card C + card A \<le> Suc n"
  proof -
    have "card (C \<union> A) \<le> card {..<Suc n}" using Suc.prems by (intro card_mono) auto
    then show ?thesis using fin Suc.prems(3) by (simp add: card_Un_disjoint)
  qed
  consider (c) "n \<in> C" | (a) "n \<in> A" | (none) "n \<notin> C" "n \<notin> A" by blast
  then show ?case
  proof cases
    case c
    then have "n \<notin> A" using Suc.prems(3) by blast
    have ih: "length (filter (ctrl_selected (C - {n}) A) [0..<2 ^ n]) = 2 ^ (n - card (C - {n}) - card A)"
      using Suc.prems c \<open>n \<notin> A\<close> by (intro Suc.IH) (auto simp: less_Suc_eq)
    have "card (C - {n}) = card C - 1" and "1 \<le> card C"
      using c fin by (auto simp: card_gt_0_iff Suc_le_eq)
    with ih cnt c \<open>n \<notin> A\<close> cardle show ?thesis by (simp add: Suc_diff_le)
  next
    case a
    then have "n \<notin> C" using Suc.prems(3) by blast
    have ih: "length (filter (ctrl_selected C (A - {n})) [0..<2 ^ n]) = 2 ^ (n - card C - card (A - {n}))"
      using Suc.prems a \<open>n \<notin> C\<close> by (intro Suc.IH) (auto simp: less_Suc_eq)
    have "card (A - {n}) = card A - 1" and "1 \<le> card A"
      using a fin by (auto simp: card_gt_0_iff Suc_le_eq)
    with ih cnt a \<open>n \<notin> C\<close> cardle show ?thesis by (simp add: Suc_diff_le)
  next
    case none
    have ih: "length (filter (ctrl_selected C A) [0..<2 ^ n]) = 2 ^ (n - card C - card A)"
      using Suc.prems none by (intro Suc.IH) (auto simp: less_Suc_eq)
    have "card C + card A \<le> n"
    proof -
      have "card (C \<union> A) \<le> card {..<n}" using Suc.prems none by (intro card_mono) (auto simp: less_Suc_eq)
      then show ?thesis using fin Suc.prems(3) by (simp add: card_Un_disjoint)
    qed
    with ih cnt none show ?thesis by (simp add: Suc_diff_le)
  qed
qed

lemma bit_Suc_toggle:
  "0 < (step::nat) \<Longrightarrow> step = 2 ^ t \<Longrightarrow>
   bit (Suc e) t = (if Suc (e mod step) = step then \<not> bit e t else bit e t)"
  by (simp add: bit_iff_odd div_Suc mod_Suc)

subsection \<open>Nested loops and index arithmetic\<close>

lemma foldl_nested_product:
  "foldl (\<lambda>r i. foldl (\<lambda>r j. F r i j) r ys) r xs = foldl (\<lambda>r (i, j). F r i j) r (List.product xs ys)"
proof (induction xs arbitrary: r)
  case Nil then show ?case by simp
next
  case (Cons x xs)
  have "foldl (\<lambda>r j. F r x j) r ys = foldl (\<lambda>r (i, j). F r i j) r (map (Pair x) ys)" for r
    by (induction ys arbitrary: r) simp_all
  with Cons show ?case by simp
qed

lemma sum_div_mod:
  "(\<Sum>k < a * b. f (k div b) (k mod b)) = (\<Sum>i < a. \<Sum>j < (b::nat). (f i j :: 'a::comm_monoid_add))"
proof (induction a)
  case 0 then show ?case by simp
next
  case (Suc a)
  have "(\<Sum>k < Suc a * b. f (k div b) (k mod b)) =
      (\<Sum>k < a * b. f (k div b) (k mod b)) + (\<Sum>k \<in> {a * b..<a * b + b}. f (k div b) (k mod b))"
    using sum.atLeastLessThan_concat [of 0 "a * b" "a * b + b" "\<lambda>k. f (k div b) (k mod b)"]
    by (simp add: atLeast0LessThan add.commute)
  also have "(\<Sum>k \<in> {a * b..<a * b + b}. f (k div b) (k mod b)) = (\<Sum>j < b. f a j)"
  proof -
    have "(\<Sum>k \<in> {a * b..<a * b + b}. f (k div b) (k mod b)) = (\<Sum>j \<in> {0..<b}. f ((j + a * b) div b) ((j + a * b) mod b))"
      using sum.shift_bounds_nat_ivl [of "\<lambda>k. f (k div b) (k mod b)" 0 "a * b" b] by (simp add: add.commute)
    also have "\<dots> = (\<Sum>j < b. f a j)"
      by (rule sum.cong) auto
    finally show ?thesis .
  qed
  finally show ?case using Suc by simp
qed

lemma bit_mult_add:
  assumes "(j::nat) < 2 ^ n"
  shows "bit (i * 2 ^ n + j) q = (if q < n then bit j q else bit i (q - n))"
proof (cases "q < n")
  case True
  have "take_bit n (i * 2 ^ n + j) = j"
    using assms by (simp add: take_bit_eq_mod)
  then have "bit (take_bit n (i * 2 ^ n + j)) q = bit j q" by simp
  with True show ?thesis by (simp add: bit_take_bit_iff)
next
  case False
  have "drop_bit n (i * 2 ^ n + j) = i"
    using assms by (simp add: drop_bit_eq_div)
  then have "bit (drop_bit n (i * 2 ^ n + j)) (q - n) = bit i (q - n)" by simp
  with False show ?thesis by (simp add: bit_drop_bit_eq)
qed

lemma product_append_left:
  "List.product (xs @ ys) zs = List.product xs zs @ List.product ys zs"
  by (induction xs) simp_all

lemma map_product_upt:
  "map (\<lambda>(i, j). i * b + j) (List.product [0..<a] [0..<b]) = [0..<a * (b::nat)]"
proof (induction a)
  case 0 then show ?case by simp
next
  case (Suc a)
  have "map (\<lambda>j. a * b + j) [0..<b] = [a * b..<a * b + b]" by (simp add: map_add_upt add.commute)
  then show ?case using Suc upt_add_eq_append [of 0 "a * b" b]
    by (simp add: o_def add.commute product_append_left)
qed

lemma sum_list_filter_partition:
  "(\<Sum>x \<leftarrow> filter P xs. f x) + (\<Sum>x \<leftarrow> filter (\<lambda>x. \<not> P x) xs. f x) = (\<Sum>x \<leftarrow> xs. (f x :: 'a::comm_monoid_add))"
  by (induction xs) (simp_all add: ac_simps)

end
