(* ===== verification/ArrayList.thy ===== *)
theory ArrayList
  imports Doki_Prelude
begin

text \<open>
  The chunked store of arraylist.h/arraylist.c: \<open>struct array_list_e\<close> as the record
  \<open>array_list\<close> (\<open>size\<close>, \<open>num_chunks\<close>, the chunk contents \<open>vector\<close>, and the
  heap blocks it owns: the pointer array first, then one block per chunk; an empty
  block list is the NULL \<open>vector\<close>), and its four operations \<open>alist_init\<close>,
  \<open>alist_clear\<close>, \<open>alist_set\<close>, \<open>alist_get\<close>. Freshly allocated chunks hold
  \<open>undefined\<close>: malloc does not initialise memory.
  The store is proved to implement a flat list (\<open>alist_list\<close>, the concatenation of
  the chunks) under the invariant \<open>alist_wf\<close>, for a capacity shared by init and
  access; the C code uses two different capacity macros for the two.
\<close>

record 'a array_list =
  al_size :: nat
  num_chunks :: nat
  vector :: "'a list list"
  al_blocks :: "nat list"

text \<open>The loop of \<open>alist_init\<close> that mallocs the chunks \<open>0 .. num_chunks - 2\<close> and
  stops at the first failure (\<open>errored\<close>).\<close>

fun alloc_chunks :: "nat \<Rightarrow> mem \<Rightarrow> nat list \<times> bool \<times> mem" where
  "alloc_chunks 0 m = ([], False, m)"
| "alloc_chunks (Suc k) m =
     (case malloc m of
        (None, m') \<Rightarrow> ([], True, m')
      | (Some c, m') \<Rightarrow> (case alloc_chunks k m' of (cs, e, m'') \<Rightarrow> (c # cs, e, m'')))"

text \<open>The chunk count and the size of the last chunk, as computed at the top of
  \<open>alist_init\<close> (\<open>num_chunks\<close> and \<open>offset\<close>).\<close>

definition alist_num_chunks :: "nat \<Rightarrow> nat \<Rightarrow> nat" where
  "alist_num_chunks cap sz = sz div cap + (if 0 < sz mod cap then 1 else 0)"

definition alist_offset :: "nat \<Rightarrow> nat \<Rightarrow> nat" where
  "alist_offset cap sz = (if 0 < sz mod cap then sz mod cap else cap)"

definition alist_init :: "nat \<Rightarrow> nat \<Rightarrow> mem \<Rightarrow> (doki_error + 'a array_list) \<times> mem" where
  "alist_init cap sz m =
     (case malloc m of
        (None, m1) \<Rightarrow> (Inl Err_alloc_vector, m1)
      | (Some vp, m1) \<Rightarrow>
          if alist_num_chunks cap sz = 0 then (Inl Err_undefined, m1)
          else (case alloc_chunks (alist_num_chunks cap sz - 1) m1 of
                  (cs, True, m2) \<Rightarrow> (Inl Err_alloc_chunk, free vp (free_all cs m2))
                | (cs, False, m2) \<Rightarrow>
                    (case malloc m2 of
                       (None, m3) \<Rightarrow> (Inl Err_alloc_chunk, free vp (free_all cs m3))
                     | (Some lc, m3) \<Rightarrow>
                         (Inr \<lparr>al_size = sz, num_chunks = alist_num_chunks cap sz,
                               vector = replicate (alist_num_chunks cap sz - 1) (replicate cap undefined)
                                        @ [replicate (alist_offset cap sz) undefined],
                               al_blocks = vp # cs @ [lc]\<rparr>, m3))))"

definition alist_clear :: "'a array_list \<Rightarrow> mem \<Rightarrow> 'a array_list \<times> mem" where
  "alist_clear s m =
     (let m' = (case al_blocks s of
                  [] \<Rightarrow> m
                | vp # cs \<Rightarrow> free vp (free_all (take (num_chunks s) cs) m))
      in (s\<lparr>al_size := 0, num_chunks := 0, vector := [], al_blocks := []\<rparr>, m'))"

definition alist_set :: "nat \<Rightarrow> 'a array_list \<Rightarrow> nat \<Rightarrow> 'a \<Rightarrow> 'a array_list" where
  "alist_set cap s i v =
     s\<lparr>vector := (vector s)[i div cap := (vector s ! (i div cap))[i mod cap := v]]\<rparr>"

definition alist_get :: "nat \<Rightarrow> 'a array_list \<Rightarrow> nat \<Rightarrow> 'a" where
  "alist_get cap s i = vector s ! (i div cap) ! (i mod cap)"

definition alist_wf :: "nat \<Rightarrow> 'a array_list \<Rightarrow> bool" where
  "alist_wf cap s \<longleftrightarrow> 0 < cap \<and> num_chunks s = length (vector s) \<and>
     al_size s \<le> cap * num_chunks s \<and>
     (\<forall>j < num_chunks s. length (vector s ! j) = min cap (al_size s - cap * j))"

definition alist_list :: "'a array_list \<Rightarrow> 'a list" where
  "alist_list s = concat (vector s)"

text \<open>The C access \<open>vector[i / CAP][i % CAP]\<close> stays inside the allocated chunks.\<close>

definition alist_in_bounds :: "nat \<Rightarrow> 'a array_list \<Rightarrow> nat \<Rightarrow> bool" where
  "alist_in_bounds cap s i \<longleftrightarrow>
     i div cap < length (vector s) \<and> i mod cap < length (vector s ! (i div cap))"

subsection \<open>Addressing\<close>

lemma alist_index_range:
  assumes "alist_wf cap s" and "i < al_size s"
  shows "i div cap < length (vector s)" and "i mod cap < length (vector s ! (i div cap))"
proof -
  from assms have cap: "0 < cap" and nc: "num_chunks s = length (vector s)"
    and sz: "al_size s \<le> cap * num_chunks s"
    and len: "\<forall>j < num_chunks s. length (vector s ! j) = min cap (al_size s - cap * j)"
    by (auto simp: alist_wf_def)
  from assms(2) sz have "i < cap * num_chunks s" by simp
  then have d: "i div cap < num_chunks s"
    by (simp add: less_mult_imp_div_less mult.commute)
  with nc show "i div cap < length (vector s)" by simp
  have "cap * (i div cap) + i mod cap = i" by simp
  with assms(2) have "i mod cap < al_size s - cap * (i div cap)" by linarith
  with cap d len show "i mod cap < length (vector s ! (i div cap))"
    by simp
qed

lemma div_mod_eq_iff:
  "0 < (cap::nat) \<Longrightarrow> (i div cap = j div cap \<and> i mod cap = j mod cap) = (i = j)"
  by (metis div_mult_mod_eq)

lemma length_nth_update_chunk:
  "length ((xs[k := (xs ! k)[i := v]]) ! j) = length (xs ! j)"
  by (cases "j = k"; cases "k < length xs") (simp_all add: nth_list_update list_update_beyond)

lemma alist_wf_set [simp]: "alist_wf cap (alist_set cap s i v) = alist_wf cap s"
  by (simp add: alist_wf_def alist_set_def length_nth_update_chunk)

lemma alist_size_set [simp]: "al_size (alist_set cap s i v) = al_size s"
  by (simp add: alist_set_def)

lemma alist_blocks_set [simp]:
  "al_blocks (alist_set cap s i v) = al_blocks s" "num_chunks (alist_set cap s i v) = num_chunks s"
  by (simp_all add: alist_set_def)

lemma alist_get_set:
  assumes "alist_wf cap s" and "i < al_size s"
  shows "alist_get cap (alist_set cap s i v) j = (if i = j then v else alist_get cap s j)"
proof -
  from assms have cap: "0 < cap" by (simp add: alist_wf_def)
  note r = alist_index_range [OF assms]
  show ?thesis
    using r div_mod_eq_iff [OF cap, of i j]
    by (auto simp: alist_get_def alist_set_def nth_list_update)
qed

subsection \<open>The store as a flat list\<close>

lemma concat_nth_chunks:
  assumes "\<forall>j < length xss. length (xss ! j) = min c (n - c * j)"
    and "n \<le> c * length xss" and "0 < c" and "i < n"
  shows "concat xss ! i = xss ! (i div c) ! (i mod c)"
  using assms
proof (induction xss arbitrary: n i)
  case Nil
  then show ?case by simp
next
  case (Cons x xss)
  from Cons.prems(1) have lx: "length x = min c n" by (auto dest: spec [of _ 0])
  show ?case
  proof (cases "i < c")
    case True
    with lx Cons.prems(4) show ?thesis by (simp add: nth_append)
  next
    case False
    with Cons.prems(4) lx have lxc: "length x = c" and "c < n" by auto
    have len': "\<forall>j < length xss. length (xss ! j) = min c ((n - c) - c * j)"
    proof (intro allI impI)
      fix j assume "j < length xss"
      with Cons.prems(1) have "length ((x # xss) ! Suc j) = min c (n - c * Suc j)" by auto
      then show "length (xss ! j) = min c ((n - c) - c * j)" by (simp add: diff_diff_add)
    qed
    have "n - c \<le> c * length xss" using Cons.prems(2) by simp
    moreover have "i - c < n - c" using False Cons.prems(4) by simp
    ultimately have ih: "concat xss ! (i - c) = xss ! ((i - c) div c) ! ((i - c) mod c)"
      using Cons.IH [OF len'] Cons.prems(3) by blast
    have "(i - c) div c = i div c - 1" and "(i - c) mod c = i mod c"
      using False Cons.prems(3) by (simp_all add: le_div_geq le_mod_geq)
    moreover have "0 < i div c" using False Cons.prems(3) by (simp add: div_greater_zero_iff)
    ultimately show ?thesis
      using ih False lxc by (simp add: nth_append nth_Cons')
  qed
qed

lemma sum_min_chunks:
  "(\<Sum>j<k. min c (n - c * j)) = min n (c * (k::nat))"
proof (induction k)
  case 0
  then show ?case by simp
next
  case (Suc k)
  have "min n (c * k) + min c (n - c * k) = min n (c * k + c)"
    by (simp add: min_def, arith)
  with Suc show ?case by simp
qed

lemma alist_get_list:
  assumes "alist_wf cap s" and "i < al_size s"
  shows "alist_get cap s i = alist_list s ! i"
proof -
  from assms(1) have "\<forall>j < length (vector s). length (vector s ! j) = min cap (al_size s - cap * j)"
    and "al_size s \<le> cap * length (vector s)" and "0 < cap"
    by (auto simp: alist_wf_def)
  from concat_nth_chunks [OF this assms(2)] show ?thesis
    by (simp add: alist_get_def alist_list_def)
qed

lemma alist_length_list:
  assumes "alist_wf cap s"
  shows "length (alist_list s) = al_size s"
proof -
  from assms have "length (alist_list s) = (\<Sum>j<num_chunks s. min cap (al_size s - cap * j))"
    by (simp add: alist_wf_def alist_list_def length_concat sum_list_sum_nth atLeast0LessThan)
  also have "\<dots> = min (al_size s) (cap * num_chunks s)"
    by (rule sum_min_chunks)
  also have "\<dots> = al_size s"
    using assms by (auto simp: alist_wf_def min_def)
  finally show ?thesis .
qed

lemma alist_list_set:
  assumes "alist_wf cap s" and "i < al_size s"
  shows "alist_list (alist_set cap s i v) = (alist_list s)[i := v]"
proof (rule nth_equalityI)
  have wf': "alist_wf cap (alist_set cap s i v)" using assms(1) by simp
  show "length (alist_list (alist_set cap s i v)) = length ((alist_list s)[i := v])"
    using alist_length_list [OF wf'] alist_length_list [OF assms(1)] by simp
  fix j assume "j < length (alist_list (alist_set cap s i v))"
  then have j: "j < al_size s" using alist_length_list [OF wf'] by simp
  have "alist_list (alist_set cap s i v) ! j = alist_get cap (alist_set cap s i v) j"
    using alist_get_list [OF wf'] j by simp
  also have "\<dots> = (alist_list s)[i := v] ! j"
    using alist_get_set [OF assms] alist_get_list [OF assms(1) j] alist_length_list [OF assms(1)] j
    by (simp add: nth_list_update)
  finally show "alist_list (alist_set cap s i v) ! j = (alist_list s)[i := v] ! j" .
qed

subsection \<open>Allocation and release\<close>

lemma alloc_chunks_mem:
  assumes "alloc_chunks k m = (cs, e, m')" and "mem_fresh m"
  shows "mem_fresh m' \<and> mem_live m' = mem_live m \<union> set cs \<and> set cs \<inter> mem_live m = {} \<and>
         distinct cs \<and> mem_ok m' = mem_ok m \<and> mem_calls m \<le> mem_calls m' \<and>
         (\<forall>c \<in> set cs. mem_calls m \<le> c \<and> c < mem_calls m') \<and> (\<not> e \<longrightarrow> length cs = k)"
  using assms
proof (induction k arbitrary: m cs e m')
  case 0
  then show ?case by simp
next
  case (Suc k)
  show ?case
  proof (cases "malloc m" rule: prod.exhaust)
    case (Pair r m1)
    note mm = mem_fresh_malloc [OF Suc.prems(2) Pair]
    show ?thesis
    proof (cases r)
      case None
      with Suc.prems(1) Pair mm show ?thesis by auto
    next
      case (Some c)
      obtain cs1 e1 m2 where rec: "alloc_chunks k m1 = (cs1, e1, m2)" by (cases "alloc_chunks k m1") auto
      with Suc.prems(1) Pair Some have cs: "cs = c # cs1" "e = e1" "m' = m2" by auto
      from Suc.IH [OF rec mm(1)] mm(2,3) mm(4) [OF Some] Some show ?thesis
        unfolding cs by (fastforce simp: mem_fresh_def)
    qed
  qed
qed

lemma init_chunk_length:
  assumes cap: "0 < cap" and j: "j < alist_num_chunks cap sz"
  shows "(if j < alist_num_chunks cap sz - 1 then cap else alist_offset cap sz) = min cap (sz - cap * j)"
proof -
  define q where "q = sz div cap"
  define r where "r = sz mod cap"
  have sz: "sz = cap * q + r" unfolding q_def r_def by (metis mult_div_mod_eq)
  have r: "r < cap" using cap by (simp add: r_def)
  have off: "alist_offset cap sz = (if 0 < r then r else cap)" by (simp add: alist_offset_def r_def)
  show ?thesis
  proof (cases "j < alist_num_chunks cap sz - 1")
    case True
    then have "Suc j \<le> q" by (auto simp: q_def alist_num_chunks_def split: if_splits)
    then have "cap * Suc j \<le> cap * q" by (rule mult_le_mono2)
    then have "cap \<le> sz - cap * j" using sz by simp
    with True show ?thesis by simp
  next
    case False
    show ?thesis
    proof (cases "0 < r")
      case True
      with False j have "j = q" by (simp add: q_def r_def alist_num_chunks_def)
      with True sz r off \<open>\<not> j < alist_num_chunks cap sz - 1\<close> show ?thesis by simp
    next
      case False
      with \<open>\<not> j < alist_num_chunks cap sz - 1\<close> j have jq: "Suc j = q"
        by (simp add: q_def r_def alist_num_chunks_def)
      with sz False have "sz = cap * Suc j" by simp
      then have "sz - cap * j = cap" by simp
      with False off show ?thesis by simp
    qed
  qed
qed

lemma alist_init_chunks_bound:
  assumes "0 < cap" shows "sz \<le> cap * alist_num_chunks cap sz"
proof -
  define q where "q = sz div cap"
  define r where "r = sz mod cap"
  have sz: "sz = cap * q + r" unfolding q_def r_def by (metis mult_div_mod_eq)
  have r: "r < cap" using assms by (simp add: r_def)
  have "alist_num_chunks cap sz = q + (if 0 < r then 1 else 0)"
    by (simp add: alist_num_chunks_def q_def r_def)
  then show ?thesis using sz r by (cases "0 < r") (simp_all add: distrib_left)
qed

lemma alist_init_Inr:
  assumes run: "alist_init cap sz m = (Inr s, m')" and cap: "0 < cap" and fresh: "mem_fresh m"
  shows "alist_wf cap s" and "al_size s = sz" and "num_chunks s = alist_num_chunks cap sz"
    and "mem_live m' = mem_live m \<union> set (al_blocks s)" and "set (al_blocks s) \<inter> mem_live m = {}"
    and "distinct (al_blocks s)" and "length (al_blocks s) = Suc (num_chunks s)" and "mem_fresh m'"
proof -
  let ?nc = "alist_num_chunks cap sz"
  obtain vp m1 where m1: "malloc m = (Some vp, m1)"
    using run by (cases "malloc m" rule: prod.exhaust) (auto simp: alist_init_def split: option.splits)
  have nc0: "?nc \<noteq> 0" using run m1 by (auto simp: alist_init_def split: if_splits)
  obtain cs m2 where m2: "alloc_chunks (?nc - 1) m1 = (cs, False, m2)"
    using run m1 nc0 by (auto simp: alist_init_def split: prod.splits bool.splits)
  obtain lc m3 where m3: "malloc m2 = (Some lc, m3)"
    using run m1 nc0 m2 by (auto simp: alist_init_def split: prod.splits option.splits)
  have s: "s = \<lparr>al_size = sz, num_chunks = ?nc,
                vector = replicate (?nc - 1) (replicate cap undefined) @ [replicate (alist_offset cap sz) undefined],
                al_blocks = vp # cs @ [lc]\<rparr>" and m': "m' = m3"
    using run m1 nc0 m2 m3 by (simp_all add: alist_init_def)
  note a1 = mem_fresh_malloc [OF fresh m1]
  note a2 = alloc_chunks_mem [OF m2 a1(1)]
  note a3 = mem_fresh_malloc [OF a2 [THEN conjunct1] m3]
  show "al_size s = sz" and "num_chunks s = ?nc" by (simp_all add: s)
  have len: "length (vector s ! j) = min cap (sz - cap * j)" if "j < ?nc" for j
  proof -
    have "length (vector s ! j) = (if j < ?nc - 1 then cap else alist_offset cap sz)"
      using that by (auto simp: s nth_append)
    also have "\<dots> = min cap (sz - cap * j)"
      by (rule init_chunk_length [OF cap that])
    finally show ?thesis .
  qed
  show "alist_wf cap s"
    using cap nc0 len alist_init_chunks_bound [OF cap, of sz] by (simp add: alist_wf_def s)
  show "mem_live m' = mem_live m \<union> set (al_blocks s)"
    using a1(4) a2 a3(4) by (auto simp: s m')
  show "set (al_blocks s) \<inter> mem_live m = {}" and "distinct (al_blocks s)"
    using a1 a2 a3 by (auto simp: s)
  show "length (al_blocks s) = Suc (num_chunks s)"
    using a2 nc0 by (simp add: s)
  show "mem_fresh m'" using a3(1) m' by simp
qed

lemma alist_init_Inl:
  assumes run: "alist_init cap sz m = (Inl e, m')" and fresh: "mem_fresh m"
  shows "e \<in> {Err_alloc_vector, Err_alloc_chunk, Err_undefined}"
    and "e \<noteq> Err_undefined \<Longrightarrow> mem_live m' = mem_live m"
    and "mem_fresh m'"
proof -
  let ?nc = "alist_num_chunks cap sz"
  have "e \<in> {Err_alloc_vector, Err_alloc_chunk, Err_undefined} \<and>
        (e \<noteq> Err_undefined \<longrightarrow> mem_live m' = mem_live m) \<and> mem_fresh m'"
  proof (cases "malloc m" rule: prod.exhaust)
    case (Pair r m1)
    note a1 = mem_fresh_malloc [OF fresh Pair]
    show ?thesis
    proof (cases r)
      case None
      with run Pair a1 show ?thesis by (simp add: alist_init_def)
    next
      case (Some vp)
      show ?thesis
      proof (cases "?nc = 0")
        case True
        with run Pair Some a1 show ?thesis by (auto simp: alist_init_def)
      next
        case False
        obtain cs b m2 where m2: "alloc_chunks (?nc - 1) m1 = (cs, b, m2)"
          by (cases "alloc_chunks (?nc - 1) m1") auto
        note a2 = alloc_chunks_mem [OF m2 a1(1)]
        show ?thesis
        proof (cases b)
          case True
          with run Pair Some False m2 have "e = Err_alloc_chunk" and m': "m' = free vp (free_all cs m2)"
            by (simp_all add: alist_init_def)
          with a1(4) [OF Some] a2 show ?thesis
            by (auto simp: free_live free_all_live mem_fresh_free mem_fresh_free_all)
        next
          case b: False
          obtain r3 m3 where m3: "malloc m2 = (r3, m3)" by (cases "malloc m2") auto
          note a3 = mem_fresh_malloc [OF a2 [THEN conjunct1] m3]
          from run Pair Some False m2 b m3 have "r3 = None"
            by (cases r3) (auto simp: alist_init_def)
          with run Pair Some False m2 b m3 have "e = Err_alloc_chunk" and m': "m' = free vp (free_all cs m3)"
            by (simp_all add: alist_init_def)
          with a1(4) [OF Some] a2 a3(1,5) \<open>r3 = None\<close> show ?thesis
            by (auto simp: free_live free_all_live mem_fresh_free mem_fresh_free_all)
        qed
      qed
    qed
  qed
  then show "e \<in> {Err_alloc_vector, Err_alloc_chunk, Err_undefined}"
    and "e \<noteq> Err_undefined \<Longrightarrow> mem_live m' = mem_live m" and "mem_fresh m'"
    by auto
qed

lemma foldl_alist_set_wf [simp]:
  "alist_wf cap (foldl (\<lambda>r x. alist_set cap r (fst x) (snd x)) nc xs) = alist_wf cap nc"
  "al_size (foldl (\<lambda>r x. alist_set cap r (fst x) (snd x)) nc xs) = al_size nc"
  "al_blocks (foldl (\<lambda>r x. alist_set cap r (fst x) (snd x)) nc xs) = al_blocks nc"
  "num_chunks (foldl (\<lambda>r x. alist_set cap r (fst x) (snd x)) nc xs) = num_chunks nc"
  by (induction xs arbitrary: nc) simp_all

lemma alist_list_zip_writes:
  assumes "alist_wf cap nc" and "c0 + length F \<le> al_size nc"
  shows "alist_list (foldl (\<lambda>r x. alist_set cap r (fst x) (snd x)) nc (zip [c0..<c0 + length F] F)) =
           take c0 (alist_list nc) @ F @ drop (c0 + length F) (alist_list nc)"
  using assms
proof (induction F arbitrary: nc c0)
  case Nil
  then show ?case by simp
next
  case (Cons x F)
  have lt: "c0 < al_size nc" using Cons.prems(2) by simp
  have wf': "alist_wf cap (alist_set cap nc c0 x)" using Cons.prems(1) by simp
  have len: "length (alist_list nc) = al_size nc" by (rule alist_length_list [OF Cons.prems(1)])
  have "alist_list (foldl (\<lambda>r x. alist_set cap r (fst x) (snd x)) (alist_set cap nc c0 x)
          (zip [Suc c0..<Suc c0 + length F] F)) =
        take (Suc c0) (alist_list (alist_set cap nc c0 x)) @ F @
          drop (Suc c0 + length F) (alist_list (alist_set cap nc c0 x))"
    using Cons.IH [OF wf', of "Suc c0"] Cons.prems(2) by (simp del: upt_Suc)
  also have "\<dots> = take c0 (alist_list nc) @ (x # F) @ drop (c0 + length (x # F)) (alist_list nc)"
    using lt len by (simp add: alist_list_set [OF Cons.prems(1) lt] take_Suc_conv_app_nth upd_conv_take_nth_drop add.commute)
  moreover have "zip [c0..<c0 + length (x # F)] (x # F) = (c0, x) # zip [Suc c0..<Suc c0 + length F] F"
    by (simp add: upt_conv_Cons del: upt_Suc)
  ultimately show ?case by (simp del: upt_Suc)
qed

text \<open>A write at or past the size leaves the elements unchanged: in C it lands outside
  the chunk (or the pointer array).\<close>

lemma alist_set_beyond:
  assumes "alist_wf cap s" and "al_size s \<le> i"
  shows "alist_set cap s i v = s"
proof (cases "i div cap < length (vector s)")
  case True
  have "cap * (i div cap) \<le> i" by (rule times_div_less_eq_dividend)
  then have "length (vector s ! (i div cap)) \<le> i mod cap"
    using assms True by (auto simp: alist_wf_def minus_mult_div_eq_mod [symmetric])
  then show ?thesis by (simp add: alist_set_def list_update_beyond)
qed (simp add: alist_set_def list_update_beyond)

lemma foldl_alist_set_beyond:
  assumes "alist_wf cap nc" and "\<forall>x \<in> set xs. al_size nc \<le> fst x"
  shows "foldl (\<lambda>r x. alist_set cap r (fst x) (snd x)) nc xs = nc"
  using assms by (induction xs) (simp_all add: alist_set_beyond)

text \<open>Writing the list \<open>F\<close> at positions \<open>0, 1, ...\<close> stores the first \<open>al_size\<close> of
  its elements; the rest fall past the end.\<close>

lemma alist_zip_writes_take:
  assumes wf: "alist_wf cap nc"
  shows "alist_list (foldl (\<lambda>r x. alist_set cap r (fst x) (snd x)) nc (zip [0..<length F] F)) =
           take (al_size nc) F @ drop (length F) (alist_list nc)"
proof (cases "length F \<le> al_size nc")
  case True
  then show ?thesis using alist_list_zip_writes [OF wf, of 0 F] by simp
next
  case False
  let ?k = "al_size nc" and ?w = "\<lambda>nc xs. foldl (\<lambda>r x. alist_set cap r (fst x) (snd x)) nc xs"
  have z: "zip [0..<length F] F = zip [0..<?k] (take ?k F) @ zip [?k..<length F] (drop ?k F)"
    using False upt_add_eq_append [of 0 ?k "length F - ?k"]
    by (simp add: zip_append [symmetric])
  have len: "length (alist_list nc) = ?k" by (rule alist_length_list [OF wf])
  have 1: "alist_list (?w nc (zip [0..<?k] (take ?k F))) = take ?k F"
    using alist_list_zip_writes [OF wf, of 0 "take ?k F"] False len by simp
  have "?w (?w nc (zip [0..<?k] (take ?k F))) (zip [?k..<length F] (drop ?k F)) =
        ?w nc (zip [0..<?k] (take ?k F))"
    using wf by (intro foldl_alist_set_beyond) (auto dest: set_zip_leftD)
  then show ?thesis using 1 False len by (simp add: z)
qed

lemma alist_init_errors:
  "alist_init cap sz m = (Inl e, m') \<Longrightarrow> e \<in> {Err_alloc_vector, Err_alloc_chunk, Err_undefined}"
  by (auto simp: alist_init_def split: prod.splits option.splits bool.splits if_splits)

lemma alloc_chunks_ok:
  "\<forall>k. mem_ok m k \<Longrightarrow> \<exists>cs m'. alloc_chunks n m = (cs, False, m') \<and> (\<forall>k. mem_ok m' k)"
proof (induction n arbitrary: m)
  case 0
  then show ?case by simp
next
  case (Suc n)
  let ?m1 = "m\<lparr>mem_calls := Suc (mem_calls m), mem_live := insert (mem_calls m) (mem_live m)\<rparr>"
  have "malloc m = (Some (mem_calls m), ?m1)" using Suc.prems by (simp add: malloc_Some)
  moreover obtain cs m' where "alloc_chunks n ?m1 = (cs, False, m') \<and> (\<forall>k. mem_ok m' k)"
    using Suc.IH [of ?m1] Suc.prems by auto
  ultimately show ?case by auto
qed

text \<open>With an allocator that never fails, \<open>alist_init\<close> of a positive size succeeds.\<close>

lemma alist_init_ok:
  assumes "\<forall>k. mem_ok m k" and "0 < cap" and "0 < sz"
  shows "\<exists>s m'. alist_init cap sz m = (Inr s, m') \<and> (\<forall>k. mem_ok m' k)"
proof -
  let ?m1 = "m\<lparr>mem_calls := Suc (mem_calls m), mem_live := insert (mem_calls m) (mem_live m)\<rparr>"
  have 1: "malloc m = (Some (mem_calls m), ?m1)" using assms(1) by (simp add: malloc_Some)
  have nc: "alist_num_chunks cap sz \<noteq> 0"
    using assms(2,3) by (auto simp: alist_num_chunks_def div_eq_0_iff)
  obtain cs m2 where 2: "alloc_chunks (alist_num_chunks cap sz - 1) ?m1 = (cs, False, m2)" and ok2: "\<forall>k. mem_ok m2 k"
    using alloc_chunks_ok [of ?m1 "alist_num_chunks cap sz - 1"] assms(1) by auto
  let ?m3 = "m2\<lparr>mem_calls := Suc (mem_calls m2), mem_live := insert (mem_calls m2) (mem_live m2)\<rparr>"
  have 3: "malloc m2 = (Some (mem_calls m2), ?m3)" using ok2 by (simp add: malloc_Some)
  show ?thesis using 1 2 3 nc ok2 by (auto simp: alist_init_def)
qed

lemma alist_clear_live:
  assumes "length (al_blocks s) = Suc (num_chunks s)"
  shows "mem_live (snd (alist_clear s m)) = mem_live m - set (al_blocks s)"
proof -
  obtain vp cs where b: "al_blocks s = vp # cs" and lc: "length cs = num_chunks s"
    using assms by (cases "al_blocks s") auto
  show ?thesis by (auto simp: alist_clear_def b lc mem_simps)
qed

lemma alist_clear_fresh: "mem_fresh m \<Longrightarrow> mem_fresh (snd (alist_clear s m))"
  by (simp add: alist_clear_def mem_simps split: list.splits)

lemma alist_init_clear_live:
  assumes "alist_init cap sz m = (Inr s, m')" and "0 < cap" and "mem_fresh m"
  shows "mem_live (snd (alist_clear s m')) = mem_live m"
  using alist_clear_live [OF alist_init_Inr(7) [OF assms]] alist_init_Inr(4,5) [OF assms] by auto

lemma alist_clear_idem:
  "alist_clear (fst (alist_clear s m)) (snd (alist_clear s m)) = alist_clear s m"
  by (simp add: alist_clear_def Let_def)

subsection \<open>Properties of the store\<close>

text \<open>C4 (roundtrip). After a successful \<open>alist_init\<close> of any size, \<open>alist_set\<close> at an index
  below the size followed by \<open>alist_get\<close> at that index returns the value written, and every
  other index keeps its value.\<close>

theorem alist_init_set_get:
  assumes "alist_init cap sz m = (Inr s, m')" and "0 < cap" and "mem_fresh m" and "i < sz"
  shows "alist_get cap (alist_set cap s i v) i = v \<and>
         (\<forall>j < sz. j \<noteq> i \<longrightarrow> alist_get cap (alist_set cap s i v) j = alist_get cap s j)"
  using alist_get_set [OF alist_init_Inr(1) [OF assms(1-3)]] alist_init_Inr(2) [OF assms(1-3)] assms(4)
  by simp

theorem alist_init_set_get_witness:
  "alist_get 3 (alist_set 3 (\<lparr>al_size = 7, num_chunks = 3,
      vector = [replicate 3 undefined, replicate 3 undefined, [undefined]], al_blocks = [0, 1, 2, 3]\<rparr>) 5 (42::nat)) 5 = 42"
proof -
  have run: "fst (alist_init 3 7 (mem_init (\<lambda>_. True))) = (Inr \<lparr>al_size = 7, num_chunks = 3,
      vector = [replicate 3 undefined, replicate 3 undefined, [undefined]], al_blocks = [0, 1, 2, 3]\<rparr> :: doki_error + nat array_list)"
    by code_simp
  from alist_init_set_get [OF prod_eq_fst [OF run] _ mem_fresh_init] show ?thesis
    by (simp add: mem_simps)
qed

text \<open>C3 (refinement). Under the invariant \<open>alist_wf\<close>, the chunked store implements a
  flat list: \<open>alist_get\<close> is \<open>nth\<close> of the concatenated chunks, \<open>alist_set\<close> is list
  update, the list has \<open>size\<close> elements, and every access below \<open>size\<close> stays inside
  the allocated chunks.\<close>

theorem alist_refines_list:
  assumes "alist_wf cap s" and "i < al_size s"
  shows "alist_get cap s i = alist_list s ! i \<and>
         alist_list (alist_set cap s i v) = (alist_list s)[i := v] \<and>
         length (alist_list s) = al_size s \<and> alist_in_bounds cap s i"
  using alist_get_list [OF assms] alist_list_set [OF assms] alist_length_list [OF assms(1)]
    alist_index_range [OF assms]
  by (simp add: alist_in_bounds_def)

theorem alist_refines_list_witness:
  "alist_get 2 \<lparr>al_size = 3, num_chunks = 2, vector = [[10, 20], [30 :: nat]], al_blocks = [0, 1, 2::nat]\<rparr> 2 = 30 \<and>
   alist_list (alist_set 2 \<lparr>al_size = 3, num_chunks = 2, vector = [[10, 20], [30 :: nat]], al_blocks = [0, 1, 2::nat]\<rparr> 2 7) = [10, 20, 7]"
proof -
  have wf: "alist_wf 2 \<lparr>al_size = 3, num_chunks = 2, vector = [[10, 20], [30 :: nat]], al_blocks = [0, 1, 2::nat]\<rparr>"
    by (simp add: alist_wf_def numeral_2_eq_2 less_Suc_eq)
  from alist_refines_list [OF wf, of 2 7] show ?thesis by (simp add: alist_list_def)
qed

text \<open>C15 (error). A failed \<open>alist_init\<close> reports code 1 (the pointer array) or 2 (a
  chunk), and releases everything it allocated before failing: the live blocks are those
  before the call. The one exception is a zero size, where the chunk loop runs to
  \<open>num_chunks - 1\<close>, which wraps around in \<open>size_t\<close>.\<close>

theorem alist_init_all_or_nothing:
  assumes "alist_init cap sz m = (Inl e, m')" and "mem_fresh m" and "e \<noteq> Err_undefined"
  shows "e \<in> {Err_alloc_vector, Err_alloc_chunk} \<and> mem_live m' = mem_live m"
  using alist_init_Inl [OF assms(1,2)] assms(3) by auto

theorem alist_init_all_or_nothing_witness:
  "Err_alloc_chunk \<in> {Err_alloc_vector, Err_alloc_chunk} \<and>
   mem_live (snd (alist_init 3 7 (mem_init (\<lambda>k. k \<noteq> 1)) :: (doki_error + nat array_list) \<times> mem)) = {}"
proof -
  have run: "fst (alist_init 3 7 (mem_init (\<lambda>k. k \<noteq> 1)) :: (doki_error + nat array_list) \<times> mem)
             = Inl Err_alloc_chunk"
    by code_simp
  from alist_init_all_or_nothing [OF prod_eq_fst [OF run] mem_fresh_init] show ?thesis
    by (simp add: mem_init_def)
qed

text \<open>A successful \<open>alist_init\<close> yields a well-formed store of
  the requested size, and \<open>alist_clear\<close> on it frees exactly the blocks the
  construction allocated: the live blocks are again those before \<open>alist_init\<close>.\<close>

theorem alist_init_clear_no_leak:
  assumes "alist_init cap sz m = (Inr s, m')" and "0 < cap" and "mem_fresh m"
  shows "alist_wf cap s \<and> al_size s = sz \<and> mem_live (snd (alist_clear s m')) = mem_live m"
  using alist_init_Inr(1,2) [OF assms] alist_init_clear_live [OF assms] by simp

theorem alist_init_clear_no_leak_witness:
  "alist_wf 3 (\<lparr>al_size = 7, num_chunks = 3,
      vector = [replicate 3 undefined, replicate 3 undefined, [undefined]], al_blocks = [0, 1, 2, 3]\<rparr>
      :: nat array_list) \<and>
   mem_live (snd (alist_clear (\<lparr>al_size = 7, num_chunks = 3,
      vector = [replicate 3 undefined, replicate 3 undefined, [undefined]], al_blocks = [0, 1, 2, 3]\<rparr>
      :: nat array_list) (snd (alist_init 3 7 (mem_init (\<lambda>_. True)) :: (doki_error + nat array_list) \<times> mem)))) = {}"
proof -
  have run: "fst (alist_init 3 7 (mem_init (\<lambda>_. True))) = (Inr \<lparr>al_size = 7, num_chunks = 3,
      vector = [replicate 3 undefined, replicate 3 undefined, [undefined]], al_blocks = [0, 1, 2, 3]\<rparr>
      :: doki_error + nat array_list)"
    by code_simp
  from alist_init_clear_no_leak [OF prod_eq_fst [OF run] _ mem_fresh_init] show ?thesis
    by (simp add: mem_simps mem_init_def)
qed



end
