(* ===== verification/StateVector.thy ===== *)
theory StateVector
  imports ArrayList
begin

text \<open>
  The state vector of qstate.h/qstate.c. Those files are not under src/, so this theory
  models them from the spec (section 3, StateVector) and from how qops.c uses them:
  \<^item> \<open>state_vector\<close>: the amplitude store (a chunked store of \<open>complex\<close> addressed
    with \<open>COMPLEX_ARRAY_SIZE\<close>), \<open>num_qubits\<close>, \<open>size = 2 ^ num_qubits\<close>, the
    deferred normalisation \<open>norm_const\<close> and the memoised global phase
    (\<open>fcarg\<close>, \<open>fcarg_init\<close>);
  \<^item> \<open>state_init\<close> allocates the store (all or nothing), sets \<open>norm_const = 1\<close> and, with
    \<open>init\<close>, the basis state \<open>|0...0>\<close>;
  \<^item> \<open>state_get\<close> reads a stored amplitude divided by \<open>norm_const\<close> (the deferred
    normalisation is applied on read), \<open>state_set\<close> stores a value as given;
  \<^item> \<open>state_clear\<close> releases the store.
  Amplitudes are exact complex numbers: floating-point rounding is not modelled.
  The lemmas give the read-after-write laws the operations of qops.c rely on, and the
  effect of a loop of writes at distinct indices.
\<close>

record state_vector =
  sv_vector :: "complex array_list"
  num_qubits :: nat
  sv_size :: nat
  norm_const :: real
  fcarg :: real
  fcarg_init :: bool

definition state_get :: "platform \<Rightarrow> state_vector \<Rightarrow> nat \<Rightarrow> complex" where
  "state_get p s i = alist_get (complex_array_size p) (sv_vector s) i / complex_of_real (norm_const s)"

definition state_set :: "platform \<Rightarrow> state_vector \<Rightarrow> nat \<Rightarrow> complex \<Rightarrow> state_vector" where
  "state_set p s i v = s\<lparr>sv_vector := alist_set (complex_array_size p) (sv_vector s) i v\<rparr>"

definition state_init :: "platform \<Rightarrow> nat \<Rightarrow> bool \<Rightarrow> mem \<Rightarrow> (doki_error + state_vector) \<times> mem" where
  "state_init p n init m =
     (case alist_init (complex_array_size p) (2 ^ n) m of
        (Inl e, m') \<Rightarrow> (Inl e, m')
      | (Inr v, m') \<Rightarrow>
          (let s = \<lparr>sv_vector = v, num_qubits = n, sv_size = 2 ^ n, norm_const = 1,
                    fcarg = 0, fcarg_init = False\<rparr>
           in (Inr (if init then foldl (\<lambda>s i. state_set p s i (if i = 0 then 1 else 0)) s [0..<2 ^ n]
                    else s), m')))"

definition state_clear :: "state_vector \<Rightarrow> mem \<Rightarrow> state_vector \<times> mem" where
  "state_clear s m =
     (case alist_clear (sv_vector s) m of (v, m') \<Rightarrow> (s\<lparr>sv_vector := v, num_qubits := 0, sv_size := 0\<rparr>, m'))"

text \<open>The stored (not yet normalised) amplitude, and the invariant of a state vector.\<close>

definition sv_raw :: "platform \<Rightarrow> state_vector \<Rightarrow> nat \<Rightarrow> complex" where
  "sv_raw p s i = alist_get (complex_array_size p) (sv_vector s) i"

definition sv_wf :: "platform \<Rightarrow> state_vector \<Rightarrow> bool" where
  "sv_wf p s \<longleftrightarrow> alist_wf (complex_array_size p) (sv_vector s) \<and>
     al_size (sv_vector s) = sv_size s \<and> sv_size s = 2 ^ num_qubits s"

text \<open>The squared norm of the state as read through \<open>state_get\<close>.\<close>

definition sv_norm2 :: "platform \<Rightarrow> state_vector \<Rightarrow> real" where
  "sv_norm2 p s = (\<Sum>i < sv_size s. (cmod (state_get p s i))\<^sup>2)"

text \<open>A platform with both chunk capacities equal to 4, for the worked examples.\<close>

definition ex_platform :: platform where
  "ex_platform = \<lparr>natural_array_size = 4, complex_array_size = 4\<rparr>"

lemma state_get_raw: "state_get p s i = sv_raw p s i / complex_of_real (norm_const s)"
  by (simp add: state_get_def sv_raw_def)

lemma sv_raw_fields [simp]:
  "sv_raw p (s\<lparr>norm_const := c\<rparr>) = sv_raw p s" "sv_raw p (s\<lparr>fcarg := f, fcarg_init := b\<rparr>) = sv_raw p s"
  "sv_wf p (s\<lparr>norm_const := c\<rparr>) = sv_wf p s" "sv_wf p (s\<lparr>fcarg := f, fcarg_init := b\<rparr>) = sv_wf p s"
  by (simp_all add: sv_raw_def fun_eq_iff sv_wf_def)

lemma state_set_fields [simp]:
  "num_qubits (state_set p s i v) = num_qubits s" "sv_size (state_set p s i v) = sv_size s"
  "norm_const (state_set p s i v) = norm_const s" "fcarg (state_set p s i v) = fcarg s"
  "fcarg_init (state_set p s i v) = fcarg_init s"
  "al_blocks (sv_vector (state_set p s i v)) = al_blocks (sv_vector s)"
  by (simp_all add: state_set_def alist_set_def)

lemma sv_wf_set [simp]: "sv_wf p (state_set p s i v) = sv_wf p s"
  by (simp add: sv_wf_def state_set_def)

lemma sv_raw_set:
  assumes "sv_wf p s" and "i < sv_size s"
  shows "sv_raw p (state_set p s i v) j = (if i = j then v else sv_raw p s j)"
  using assms alist_get_set [of "complex_array_size p" "sv_vector s" i v j]
  by (simp add: sv_wf_def sv_raw_def state_set_def)

lemma state_get_set:
  assumes "sv_wf p s" and "i < sv_size s"
  shows "state_get p (state_set p s i v) j =
           (if i = j then v / complex_of_real (norm_const s) else state_get p s j)"
  using sv_raw_set [OF assms] by (simp add: state_get_raw)

subsection \<open>Loops of writes\<close>

lemma foldl_set_fields [simp]:
  "num_qubits (foldl (\<lambda>r x. state_set p r (f x) (g x)) s xs) = num_qubits s"
  "sv_size (foldl (\<lambda>r x. state_set p r (f x) (g x)) s xs) = sv_size s"
  "norm_const (foldl (\<lambda>r x. state_set p r (f x) (g x)) s xs) = norm_const s"
  "sv_wf p (foldl (\<lambda>r x. state_set p r (f x) (g x)) s xs) = sv_wf p s"
  "al_blocks (sv_vector (foldl (\<lambda>r x. state_set p r (f x) (g x)) s xs)) = al_blocks (sv_vector s)"
  by (induction xs arbitrary: s) simp_all

lemma sv_raw_foldl_set:
  assumes "sv_wf p s" and "\<forall>x \<in> set xs. f x < sv_size s" and "k < sv_size s"
  shows "sv_raw p (foldl (\<lambda>r x. state_set p r (f x) (g x)) s xs) k =
           (case find (\<lambda>x. f x = k) (rev xs) of Some x \<Rightarrow> g x | None \<Rightarrow> sv_raw p s k)"
  using assms(2)
proof (induction xs rule: rev_induct)
  case Nil
  then show ?case by simp
next
  case (snoc x xs)
  let ?r = "foldl (\<lambda>r x. state_set p r (f x) (g x)) s xs"
  have wf: "sv_wf p ?r" and sz: "sv_size ?r = sv_size s" using assms(1) by simp_all
  from snoc.prems have fx: "f x < sv_size ?r" by (simp add: sz)
  show ?case
    using sv_raw_set [OF wf fx, of "g x" k] snoc.IH snoc.prems by auto
qed

lemma sv_raw_foldl_set_distinct:
  assumes "sv_wf p s" and "\<forall>x \<in> set xs. f x < sv_size s" and "distinct (map f xs)"
  shows "x \<in> set xs \<Longrightarrow> sv_raw p (foldl (\<lambda>r x. state_set p r (f x) (g x)) s xs) (f x) = g x"
    and "k < sv_size s \<Longrightarrow> k \<notin> f ` set xs \<Longrightarrow>
           sv_raw p (foldl (\<lambda>r x. state_set p r (f x) (g x)) s xs) k = sv_raw p s k"
proof -
  assume x: "x \<in> set xs"
  have "find (\<lambda>y. f y = f x) (rev xs) = Some x"
    using x assms(3)
  proof (induction xs rule: rev_induct)
    case Nil then show ?case by simp
  next
    case (snoc y ys)
    then show ?case by (auto simp: image_iff)
  qed
  with sv_raw_foldl_set [OF assms(1,2)] x assms(2)
  show "sv_raw p (foldl (\<lambda>r x. state_set p r (f x) (g x)) s xs) (f x) = g x" by simp
next
  assume "k < sv_size s" and "k \<notin> f ` set xs"
  then have "find (\<lambda>x. f x = k) (rev xs) = None" by (auto simp: find_None_iff)
  with sv_raw_foldl_set [OF assms(1,2) \<open>k < sv_size s\<close>]
  show "sv_raw p (foldl (\<lambda>r x. state_set p r (f x) (g x)) s xs) k = sv_raw p s k" by simp
qed

subsection \<open>Allocation\<close>

lemma state_init_Inr:
  assumes "state_init p n init m = (Inr s, m')" and "0 < complex_array_size p" and "mem_fresh m"
  shows "sv_wf p s" and "num_qubits s = n" and "sv_size s = 2 ^ n" and "norm_const s = 1"
    and "\<not> fcarg_init s" and "mem_fresh m'"
    and "mem_live m' = mem_live m \<union> set (al_blocks (sv_vector s))"
    and "set (al_blocks (sv_vector s)) \<inter> mem_live m = {}"
proof -
  obtain v where a: "alist_init (complex_array_size p) (2 ^ n) m = (Inr v, m')"
    and s: "s = (if init then foldl (\<lambda>s i. state_set p s i (if i = 0 then 1 else 0))
                   \<lparr>sv_vector = v, num_qubits = n, sv_size = 2 ^ n, norm_const = 1,
                    fcarg = 0, fcarg_init = False\<rparr> [0..<2 ^ n]
                 else \<lparr>sv_vector = v, num_qubits = n, sv_size = 2 ^ n, norm_const = 1,
                    fcarg = 0, fcarg_init = False\<rparr>)"
    using assms(1) by (auto simp: state_init_def Let_def split: prod.splits sum.splits)
  note i = alist_init_Inr [OF a assms(2,3)]
  have wf0: "sv_wf p \<lparr>sv_vector = v, num_qubits = n, sv_size = 2 ^ n, norm_const = 1,
                    fcarg = 0, fcarg_init = False\<rparr>"
    using i by (simp add: sv_wf_def)
  show "sv_wf p s" "num_qubits s = n" "sv_size s = 2 ^ n" "norm_const s = 1"
    using wf0 by (simp_all add: s)
  show "\<not> fcarg_init s"
  proof -
    have "fcarg_init (foldl (\<lambda>s i. state_set p s i (if i = 0 then 1 else 0)) s0 xs) = fcarg_init s0"
      for s0 xs by (induction xs arbitrary: s0) simp_all
    then show ?thesis by (simp add: s)
  qed
  show "mem_fresh m'" using i by simp
  have "al_blocks (sv_vector (foldl (\<lambda>s i. state_set p s i (if i = 0 then 1 else 0)) s0 xs)) =
        al_blocks (sv_vector s0)" for s0 xs
    by (induction xs arbitrary: s0) (simp_all add: state_set_def alist_set_def)
  then show "mem_live m' = mem_live m \<union> set (al_blocks (sv_vector s))"
    and "set (al_blocks (sv_vector s)) \<inter> mem_live m = {}"
    using i by (simp_all add: s)
qed

lemma state_init_Inl:
  assumes "state_init p n init m = (Inl e, m')" and "mem_fresh m"
  shows "e \<in> {Err_alloc_vector, Err_alloc_chunk, Err_undefined}"
    and "e \<noteq> Err_undefined \<Longrightarrow> mem_live m' = mem_live m" and "mem_fresh m'"
proof -
  have a: "(alist_init (complex_array_size p) (2 ^ n) m :: (doki_error + complex array_list) \<times> mem)
           = (Inl e, m')"
    using assms(1) by (auto simp: state_init_def Let_def split: prod.splits sum.splits)
  show "e \<in> {Err_alloc_vector, Err_alloc_chunk, Err_undefined}"
    and "e \<noteq> Err_undefined \<Longrightarrow> mem_live m' = mem_live m" and "mem_fresh m'"
    using alist_init_Inl [OF a assms(2)] by auto
qed

lemma state_init_errors:
  "state_init p n init m = (Inl e, m') \<Longrightarrow> e \<in> {Err_alloc_vector, Err_alloc_chunk, Err_undefined}"
  by (auto simp: state_init_def Let_def dest: alist_init_errors split: prod.splits sum.splits)

lemma state_init_ok:
  assumes "\<forall>k. mem_ok m k" and "0 < complex_array_size p"
  shows "\<exists>s m'. state_init p n init m = (Inr s, m') \<and> (\<forall>k. mem_ok m' k)"
proof -
  obtain v m' where "alist_init (complex_array_size p) (2 ^ n) m = (Inr (v :: complex array_list), m')"
    "\<forall>k. mem_ok m' k"
    using alist_init_ok [OF assms, of "2 ^ n"] by auto
  then show ?thesis by (auto simp: state_init_def Let_def)
qed

end
