(* ===== verification/Measure.thy ===== *)
theory Measure
  imports StateVector
begin

text \<open>
  The read-only queries and the measurement of qops.c:
  \<^item> \<open>get_global_phase\<close> (qops.c lines 47-76): the scan for the first non-zero amplitude
    (\<open>phase_scan\<close>) and the memoisation in \<open>fcarg\<close>/\<open>fcarg_init\<close>;
  \<^item> \<open>probability\<close> (lines 78-101): the loop from \<open>mask = 1 << target\<close> to \<open>size\<close>
    summing \<open>|a|^2\<close> over the indices with the target bit set;
  \<^item> \<open>collapse\<close> (lines 146-199) with its loop body \<open>collapse_step\<close> (the
    \<open>toggle\<close>/\<open>count\<close> walk over the index blocks of length \<open>step = 1 << target\<close>);
  \<^item> \<open>measure\<close> (lines 132-144): the outcome \<open>probability > roll\<close> and the collapse.
  The OpenMP reduction of \<open>probability\<close> is a sum of exact reals, so its order does not
  matter here. \<open>dst\<close> is the heap block of the caller's \<open>new_state\<close> structure, which
  \<open>collapse\<close> frees when \<open>state_init\<close> fails.
\<close>

fun phase_scan :: "platform \<Rightarrow> state_vector \<Rightarrow> nat list \<Rightarrow> real" where
  "phase_scan p s [] = 0"
| "phase_scan p s (i # is) =
     (let v = state_get p s i
      in if Re v \<noteq> 0 \<or> Im v \<noteq> 0 then (if Im v \<noteq> 0 then Arg v else 0)
         else phase_scan p s is)"

definition get_global_phase :: "platform \<Rightarrow> state_vector \<Rightarrow> real \<times> state_vector" where
  "get_global_phase p s =
     (if fcarg_init s then (fcarg s, s)
      else (let phase = phase_scan p s [0..<sv_size s]
            in (phase, s\<lparr>fcarg := phase, fcarg_init := True\<rparr>)))"

definition probability :: "platform \<Rightarrow> state_vector \<Rightarrow> nat \<Rightarrow> real" where
  "probability p s target_id =
     (let mask = push_bit target_id 1
      in foldl (\<lambda>value i. if i AND mask \<noteq> 0
                          then (let val = state_get p s i in value + (Re val * Re val + Im val * Im val))
                          else value)
           0 [mask..<sv_size s])"

definition collapse_step ::
  "platform \<Rightarrow> state_vector \<Rightarrow> bool \<Rightarrow> nat \<Rightarrow> state_vector \<times> nat \<times> nat \<times> bool \<Rightarrow> nat
   \<Rightarrow> state_vector \<times> nat \<times> nat \<times> bool" where
  "collapse_step p s value step = (\<lambda>(ns, j, count, toggle) i.
     let (ns', j') = (if toggle = value then (state_set p ns j (state_get p s i), Suc j) else (ns, j));
         count' = Suc count
     in if count' = step then (ns', j', 0, \<not> toggle) else (ns', j', count', toggle))"

definition collapse ::
  "platform \<Rightarrow> state_vector \<Rightarrow> nat \<Rightarrow> bool \<Rightarrow> real \<Rightarrow> state_vector \<Rightarrow> nat \<Rightarrow> mem
   \<Rightarrow> (doki_error + state_vector) \<times> mem" where
  "collapse p s target_id value prob_one new_state dst m =
     (if num_qubits s = 1
      then (Inr (new_state\<lparr>sv_vector := (sv_vector new_state)\<lparr>vector := [], al_blocks := []\<rparr>,
                           num_qubits := 0\<rparr>), m)
      else (case state_init p (num_qubits s - 1) False m of
              (Inl e, m') \<Rightarrow> (Inl e, free dst m')
            | (Inr ns, m') \<Rightarrow>
                (let norm_const = (if value then prob_one else 1 - prob_one);
                     step = push_bit target_id 1;
                     (ns', _, _, _) = foldl (collapse_step p s value step) (ns, 0, 0, value)
                                        [(if value then step else 0)..<sv_size s]
                 in (Inr (ns'\<lparr>norm_const := sqrt norm_const\<rparr>), m'))))"

definition measure ::
  "platform \<Rightarrow> state_vector \<Rightarrow> nat \<Rightarrow> state_vector \<Rightarrow> nat \<Rightarrow> real \<Rightarrow> mem
   \<Rightarrow> (bool \<times> (doki_error + state_vector)) \<times> mem" where
  "measure p s target new_state dst roll m =
     (let sum = probability p s target; result = roll < sum
      in case collapse p s target result sum new_state dst m of (r, m') \<Rightarrow> ((result, r), m'))"

text \<open>A two-qubit example state, \<open>|01>\<close> (amplitude 1 at index 1), stored in one chunk.\<close>

definition ex_s01 :: state_vector where
  "ex_s01 = \<lparr>sv_vector = \<lparr>al_size = 4, num_chunks = 1, vector = [[0, 1, 0, 0]], al_blocks = [0, 1]\<rparr>,
             num_qubits = 2, sv_size = 4, norm_const = 1, fcarg = 0, fcarg_init = False\<rparr>"

text \<open>A one-qubit state \<open>-|0> + i|1>\<close>, and the two-qubit state \<open>i|01>\<close>.\<close>

definition ex_s1 :: state_vector where
  "ex_s1 = \<lparr>sv_vector = \<lparr>al_size = 2, num_chunks = 1, vector = [[-1, \<i>]], al_blocks = [0, 1]\<rparr>,
            num_qubits = 1, sv_size = 2, norm_const = 1, fcarg = 0, fcarg_init = False\<rparr>"

definition ex_si :: state_vector where
  "ex_si = \<lparr>sv_vector = \<lparr>al_size = 4, num_chunks = 1, vector = [[0, \<i>, 0, 0]], al_blocks = [0, 1]\<rparr>,
            num_qubits = 2, sv_size = 4, norm_const = 1, fcarg = 0, fcarg_init = False\<rparr>"


subsection \<open>Probability and collapse\<close>

lemma foldl_cond_add:
  "foldl (\<lambda>v i. if P i then v + h i else v) (a::real) xs = a + (\<Sum>i \<leftarrow> xs. if P i then h i else 0)"
  by (induction xs arbitrary: a) simp_all


lemma probability_sum:
  "probability p s t = (\<Sum>i < sv_size s. if bit i t then (cmod (state_get p s i))\<^sup>2 else 0)"
proof -
  let ?f = "\<lambda>i. if bit i t then (cmod (state_get p s i))\<^sup>2 else 0"
  have "probability p s t = (\<Sum>i \<leftarrow> [2 ^ t..<sv_size s]. ?f i)"
    unfolding probability_def Let_def re_im_square
    by (simp add: index_simps foldl_cond_add)
  also have "\<dots> = (\<Sum>i = 2 ^ t..<sv_size s. ?f i)"
    by (simp only: sum_set_upt_conv_sum_list_nat [symmetric] set_upt)
  also have "\<dots> = (\<Sum>i < sv_size s. ?f i)"
  proof (cases "2 ^ t \<le> sv_size s")
    case True
    have "(\<Sum>i = 0..<2 ^ t. ?f i) + (\<Sum>i = 2 ^ t..<sv_size s. ?f i) = (\<Sum>i = 0..<sv_size s. ?f i)"
      using True by (intro sum.atLeastLessThan_concat) simp_all
    moreover have "(\<Sum>i = 0..<2 ^ t. ?f i) = 0"
      by (intro sum.neutral) (simp add: bit_low_range)
    ultimately show ?thesis by (simp add: atLeast0LessThan)
  next
    case False
    have "(\<Sum>i < sv_size s. ?f i) = 0"
      using False by (intro sum.neutral) (simp add: bit_low_range)
    with False show ?thesis by simp
  qed
  finally show ?thesis .
qed

lemma collapse_step_bit:
  assumes "step = 2 ^ t"
  shows "collapse_step p s value step (r, j, e mod step, bit e t) e =
    (let (r', j') = (if bit e t = value then (state_set p r j (state_get p s e), Suc j) else (r, j))
     in (r', j', Suc e mod step, bit (Suc e) t))"
  using bit_Suc_toggle [of step t e] assms by (simp add: collapse_step_def Let_def mod_Suc split: prod.splits)

lemma collapse_loop_bit:
  assumes step: "step = 2 ^ t" and le: "i0 \<le> e"
  shows "foldl (collapse_step p s value step) (ns, j, i0 mod step, bit i0 t) [i0..<e] =
    (let (r, j') = foldl (\<lambda>(r, j) i. if bit i t = value then (state_set p r j (state_get p s i), Suc j) else (r, j))
                     (ns, j) [i0..<e]
     in (r, j', e mod step, bit e t))"
  using le
proof (induction e rule: dec_induct)
  case base
  then show ?case by simp
next
  case (step e)
  then show ?case
    by (simp add: collapse_step_bit [OF \<open>step = 2 ^ t\<close>] Let_def split: prod.splits)
qed

lemma write_filter_fold:
  "foldl (\<lambda>(r, j) i. if P i then (state_set p r j (g i), Suc j) else (r, j)) (r0, j0) xs =
   (foldl (\<lambda>r x. state_set p r (fst x) (g (snd x))) r0 (zip [j0..<j0 + length (filter P xs)] (filter P xs)),
    j0 + length (filter P xs))"
proof (induction xs arbitrary: r0 j0)
  case Nil
  then show ?case by simp
next
  case (Cons x xs)
  then show ?case by (simp add: upt_conv_Cons del: upt_Suc)
qed

lemma sv_raw_zip_writes:
  assumes "sv_wf p s" and "length ys \<le> sv_size s"
  shows "map (sv_raw p (foldl (\<lambda>r x. state_set p r (fst x) (g (snd x))) s (zip [0..<length ys] ys)))
             [0..<length ys] = map g ys"
proof (rule nth_equalityI)
  fix k assume "k < length (map (sv_raw p (foldl (\<lambda>r x. state_set p r (fst x) (g (snd x))) s
                   (zip [0..<length ys] ys))) [0..<length ys])"
  then have k: "k < length ys" by simp
  have mem: "(k, ys ! k) \<in> set (zip [0..<length ys] ys)"
    using k by (auto simp: in_set_zip intro!: exI [of _ k])
  have rng: "\<forall>x \<in> set (zip [0..<length ys] ys). fst x < sv_size s"
    using assms(2) by (auto simp: in_set_zip)
  have dist: "distinct (map fst (zip [0..<length ys] ys))" by simp
  from sv_raw_foldl_set_distinct(1) [OF assms(1) rng dist mem, of "\<lambda>x. g (snd x)"] k
  show "map (sv_raw p (foldl (\<lambda>r x. state_set p r (fst x) (g (snd x))) s (zip [0..<length ys] ys)))
          [0..<length ys] ! k = map g ys ! k"
    by simp
qed simp

lemma filter_bit_from_start:
  "filter (\<lambda>i. bit i t = v) [(if v then 2 ^ t else 0)..<N] = filter (\<lambda>i. bit i t = v) [0..<N]"
proof (cases "v \<and> 2 ^ t \<le> N")
  case True
  have "[0..<N] = [0..<2 ^ t] @ [2 ^ t..<N]"
    using True upt_add_eq_append [of 0 "2 ^ t" "N - 2 ^ t"] by simp
  moreover have "filter (\<lambda>i. bit i t = v) [0..<2 ^ t] = []"
    using True by (auto simp: filter_empty_conv bit_low_range)
  ultimately show ?thesis using True by simp
next
  case False
  then show ?thesis
    by (cases v) (auto simp: filter_empty_conv bit_low_range)
qed

lemma length_filter_bit:
  assumes "t < n"
  shows "length (filter (\<lambda>i. bit i t = v) [0..<2 ^ n]) = 2 ^ (n - 1)"
proof (cases v)
  case True
  have "(\<lambda>i. bit i t = v) = ctrl_selected {t} {}"
    using True by (simp add: fun_eq_iff ctrl_selected_def)
  with count_selected [of "{t}" n "{}"] assms show ?thesis by simp
next
  case False
  have "(\<lambda>i. bit i t = v) = ctrl_selected {} {t}"
    using False by (simp add: fun_eq_iff ctrl_selected_def)
  with count_selected [of "{}" n "{t}"] assms show ?thesis by simp
qed

lemma collapse_Inr:
  assumes wf: "sv_wf p s" and n: "1 < num_qubits s" and t: "t < num_qubits s"
    and cap: "0 < complex_array_size p" and fresh: "mem_fresh m"
    and run: "collapse p s t v prob_one new_state dst m = (Inr ns', m')"
  shows "sv_wf p ns'" and "num_qubits ns' = num_qubits s - 1"
    and "norm_const ns' = sqrt (if v then prob_one else 1 - prob_one)"
    and "map (sv_raw p ns') [0..<sv_size ns'] =
           map (state_get p s) (filter (\<lambda>i. bit i t = v) [0..<sv_size s])"
    and "mem_live m' \<supseteq> mem_live m"
proof -
  let ?N = "sv_size s" and ?n = "num_qubits s"
  let ?start = "if v then 2 ^ t else 0 :: nat"
  let ?P = "\<lambda>i. bit i t = v"
  let ?F = "filter ?P [0..<?N]"
  obtain ns0 m0 where i: "state_init p (?n - 1) False m = (Inr ns0, m0)"
    using run n by (cases "state_init p (?n - 1) False m" rule: prod.exhaust)
      (auto simp: collapse_def split: sum.splits)
  note ns0 = state_init_Inr [OF i cap fresh]
  have N: "?N = 2 ^ ?n" using wf by (simp add: sv_wf_def)
  have start: "?start mod 2 ^ t = 0" "bit ?start t = v" by (auto simp: bit_exp_iff)
  have le: "?start \<le> ?N" using t N by (auto intro: power_increasing_iff [THEN iffD2])
  have loop: "foldl (collapse_step p s v (2 ^ t)) (ns0, 0, 0, v) [?start..<?N] =
     (foldl (\<lambda>r x. state_set p r (fst x) (state_get p s (snd x))) ns0
        (zip [0..<length (filter ?P [?start..<?N])] (filter ?P [?start..<?N])),
      length (filter ?P [?start..<?N]), ?N mod 2 ^ t, bit ?N t)"
    using collapse_loop_bit [of "2 ^ t" t ?start ?N p s v ns0 0] start le
      write_filter_fold [of ?P p "state_get p s" ns0 0 "[?start..<?N]"]
    by (simp add: Let_def)
  have F: "filter ?P [?start..<?N] = ?F" by (rule filter_bit_from_start)
  have L: "length ?F = sv_size ns0"
    using length_filter_bit [OF t, of v] ns0(3) N by simp
  define r where "r = foldl (\<lambda>r x. state_set p r (fst x) (state_get p s (snd x))) ns0 (zip [0..<length ?F] ?F)"
  have ns': "ns' = r\<lparr>norm_const := sqrt (if v then prob_one else 1 - prob_one)\<rparr>" and m': "m' = m0"
    using run n i loop F by (simp_all add: collapse_def r_def push_bit_of_1 Let_def)
  have rwf: "sv_wf p r" and rsz: "sv_size r = sv_size ns0" and rq: "num_qubits r = num_qubits ns0"
    using ns0(1) by (simp_all add: r_def)
  show "sv_wf p ns'" using rwf by (simp add: ns' sv_wf_def)
  show "num_qubits ns' = ?n - 1" using rq ns0(2) by (simp add: ns')
  show "norm_const ns' = sqrt (if v then prob_one else 1 - prob_one)" by (simp add: ns')
  have "map (sv_raw p r) [0..<length ?F] = map (state_get p s) ?F"
    unfolding r_def by (rule sv_raw_zip_writes [OF ns0(1)]) (simp add: L)
  then show "map (sv_raw p ns') [0..<sv_size ns'] = map (state_get p s) ?F"
    using L rsz by (simp add: ns' sv_raw_def)
  show "mem_live m' \<supseteq> mem_live m" using ns0(7) m' by simp
qed

lemma sv_norm2_raw:
  "sv_norm2 p s = (\<Sum>i < sv_size s. (cmod (sv_raw p s i))\<^sup>2) / (norm_const s)\<^sup>2"
  by (simp add: sv_norm2_def state_get_raw norm_divide power_divide sum_divide_distrib)

lemma sum_map_filter_upt:
  "(\<Sum>x \<leftarrow> filter P [0..<N]. f x) = (\<Sum>i < N. if P i then f i else (0::real))"
  by (simp add: sum_list_map_filter' sum_set_upt_conv_sum_list_nat [symmetric] atLeast0LessThan)

lemma sum_upt_map_eq:
  assumes "map f [0..<L] = map g ys" 
  shows "(\<Sum>k < L. h (f k)) = (\<Sum>y \<leftarrow> ys. (h (g y))::real)"
proof -
  have "(\<Sum>k < L. h (f k)) = (\<Sum>k \<leftarrow> [0..<L]. h (f k))"
    by (simp add: sum_set_upt_conv_sum_list_nat [symmetric] atLeast0LessThan)
  also have "\<dots> = sum_list (map h (map f [0..<L]))" by (simp add: o_def)
  also have "\<dots> = sum_list (map h (map g ys))" by (simp add: assms)
  finally show ?thesis by (simp add: o_def)
qed

lemma collapse_norm2:
  assumes wf: "sv_wf p s" and n: "1 < num_qubits s" and t: "t < num_qubits s"
    and cap: "0 < complex_array_size p" and fresh: "mem_fresh m"
    and norm: "sv_norm2 p s = 1"
    and pos: "0 < (if v then probability p s t else 1 - probability p s t)"
    and run: "collapse p s t v (probability p s t) new_state dst m = (Inr ns', m')"
  shows "sv_norm2 p ns' = 1"
proof -
  note c = collapse_Inr [OF wf n t cap fresh run]
  let ?P = "\<lambda>i. bit i t = v"
  let ?q = "if v then probability p s t else 1 - probability p s t"
  let ?g = "\<lambda>i. (cmod (state_get p s i))\<^sup>2"
  have L: "length (filter ?P [0..<sv_size s]) = sv_size ns'"
    using c(4) by (metis length_map length_upt minus_nat.diff_0)
  have "(\<Sum>k < sv_size ns'. (cmod (sv_raw p ns' k))\<^sup>2) = (\<Sum>i \<leftarrow> filter ?P [0..<sv_size s]. ?g i)"
    by (rule sum_upt_map_eq [OF c(4)])
  also have "\<dots> = (\<Sum>i < sv_size s. if ?P i then ?g i else 0)"
    by (rule sum_map_filter_upt)
  also have "\<dots> = ?q"
  proof (cases v)
    case True
    then show ?thesis by (simp add: probability_sum)
  next
    case False
    have "(\<Sum>i < sv_size s. if \<not> bit i t then ?g i else 0) + probability p s t = sv_norm2 p s"
      by (simp add: probability_sum sv_norm2_def sum.distrib [symmetric] if_distrib cong: if_cong)
    with False norm show ?thesis by simp
  qed
  finally show ?thesis
    using pos by (simp add: sv_norm2_raw c(3))
qed

lemma Arg_pos_real: "Im z = 0 \<Longrightarrow> 0 < Re z \<Longrightarrow> Arg z = 0"
proof (rule cis_Arg_unique)
  assume "Im z = 0" and "0 < Re z"
  then have "z = complex_of_real (Re z)" by (simp add: complex_eq_iff)
  then show "sgn z = cis 0" using \<open>0 < Re z\<close> by (metis cis_zero sgn_of_real sgn_pos of_real_1)
qed simp_all

lemma Arg_neg_real: "Im z = 0 \<Longrightarrow> Re z < 0 \<Longrightarrow> Arg z = pi"
proof (rule cis_Arg_unique)
  assume "Im z = 0" and "Re z < 0"
  then have "z = complex_of_real (Re z)" by (simp add: complex_eq_iff)
  then show "sgn z = cis pi" using \<open>Re z < 0\<close> by (metis cis_pi sgn_of_real sgn_neg of_real_1 of_real_minus)
qed simp_all

lemma phase_scan_first:
  assumes "\<forall>j \<in> set xs. state_get p s j = 0" and "state_get p s i \<noteq> 0"
  shows "phase_scan p s (xs @ i # ys) =
           (if Im (state_get p s i) \<noteq> 0 then Arg (state_get p s i) else 0)"
  using assms by (induction xs) (auto simp: Let_def complex_eq_iff)

lemma phase_scan_first_upt:
  assumes "i < N" and "\<forall>j < i. state_get p s j = 0" and "state_get p s i \<noteq> 0"
  shows "phase_scan p s [0..<N] = (if Im (state_get p s i) \<noteq> 0 then Arg (state_get p s i) else 0)"
proof -
  have "[0..<N] = [0..<i] @ i # [Suc i..<N]"
    using assms(1) upt_add_eq_append [of 0 i "N - i"] by (simp add: upt_conv_Cons)
  then show ?thesis using phase_scan_first [of "[0..<i]" p s i] assms(2,3) by simp
qed

subsection \<open>Examples and properties\<close>

lemma ex_s01_init:
  "fst (state_init ex_platform (Suc 0) False (mem_init (\<lambda>_. True))) =
   Inr \<lparr>sv_vector = \<lparr>al_size = 2, num_chunks = 1, vector = [[undefined, undefined]], al_blocks = [0, 1]\<rparr>,
        num_qubits = 1, sv_size = 2, norm_const = 1, fcarg = 0, fcarg_init = False\<rparr>"
  by code_simp

lemma ex_s01_collapse:
  "collapse ex_platform ex_s01 0 True 1 ex_s01 7 (mem_init (\<lambda>_. True)) =
   (Inr \<lparr>sv_vector = \<lparr>al_size = 2, num_chunks = 1, vector = [[1, 0]], al_blocks = [0, 1]\<rparr>,
         num_qubits = 1, sv_size = 2, norm_const = 1, fcarg = 0, fcarg_init = False\<rparr>,
    snd (state_init ex_platform (Suc 0) False (mem_init (\<lambda>_. True))))"
proof -
  obtain m1 where si: "state_init ex_platform (Suc 0) False (mem_init (\<lambda>_. True)) =
    (Inr \<lparr>sv_vector = \<lparr>al_size = 2, num_chunks = 1, vector = [[undefined, undefined]], al_blocks = [0, 1]\<rparr>,
          num_qubits = 1, sv_size = 2, norm_const = 1, fcarg = 0, fcarg_init = False\<rparr>, m1)"
    using prod_eq_fst [OF ex_s01_init] by blast
  show ?thesis
    by (simp add: si [unfolded ex_platform_def] collapse_def ex_s01_def ex_platform_def collapse_step_def
        state_set_def state_get_def alist_set_def alist_get_def upt_rec Let_def)
qed

lemma ex_s01_wf: "sv_wf ex_platform ex_s01"
  by (simp add: sv_wf_def alist_wf_def ex_s01_def ex_platform_def)

lemma ex_s01_norm2: "sv_norm2 ex_platform ex_s01 = 1"
  by (simp add: sv_norm2_def state_get_def alist_get_def ex_s01_def ex_platform_def lessThan_nat_numeral)

lemma ex_s01_probability: "probability ex_platform ex_s01 0 = 1"
  by (simp add: probability_sum state_get_def alist_get_def ex_s01_def ex_platform_def lessThan_nat_numeral bit_iff_odd)

text \<open>C5 (functional). \<open>collapse\<close> of a state of \<open>n > 1\<close> qubits on target \<open>t\<close> with
  outcome \<open>v\<close> yields \<open>n - 1\<close> qubits whose stored amplitudes are exactly the amplitudes
  of the source whose bit \<open>t\<close> equals \<open>v\<close>, in ascending index order, and whose
  \<open>norm_const\<close> is \<open>sqrt prob_one\<close> or \<open>sqrt (1 - prob_one)\<close>.\<close>

theorem collapse_retains:
  assumes "sv_wf p s" and "1 < num_qubits s" and "t < num_qubits s"
    and "0 < complex_array_size p" and "mem_fresh m"
    and "collapse p s t v prob_one new_state dst m = (Inr ns', m')"
  shows "num_qubits ns' = num_qubits s - 1 \<and>
         norm_const ns' = sqrt (if v then prob_one else 1 - prob_one) \<and>
         map (sv_raw p ns') [0..<sv_size ns'] =
           map (state_get p s) (filter (\<lambda>i. bit i t = v) [0..<sv_size s])"
  using collapse_Inr [OF assms] by simp

theorem collapse_retains_witness:
  "map (sv_raw ex_platform \<lparr>sv_vector = \<lparr>al_size = 2, num_chunks = 1, vector = [[1, 0]], al_blocks = [0, 1]\<rparr>,
         num_qubits = 1, sv_size = 2, norm_const = 1, fcarg = 0, fcarg_init = False\<rparr>) [0..<2] =
   map (state_get ex_platform ex_s01) (filter (\<lambda>i. bit i 0) [0..<4])"
  using collapse_retains [OF ex_s01_wf _ _ _ mem_fresh_init ex_s01_collapse]
  by (simp add: ex_s01_def ex_platform_def)

text \<open>C6 (invariant). Collapsing a normalised state on an outcome of positive probability,
  with the probability computed by \<open>probability\<close>, yields a normalised state (as read
  through \<open>state_get\<close>, which applies the deferred \<open>norm_const\<close>).\<close>

theorem collapse_normalised:
  assumes "sv_wf p s" and "1 < num_qubits s" and "t < num_qubits s"
    and "0 < complex_array_size p" and "mem_fresh m" and "sv_norm2 p s = 1"
    and "0 < (if v then probability p s t else 1 - probability p s t)"
    and "collapse p s t v (probability p s t) new_state dst m = (Inr ns', m')"
  shows "sv_norm2 p ns' = 1"
  by (rule collapse_norm2 [OF assms])

theorem collapse_normalised_witness:
  "sv_norm2 ex_platform \<lparr>sv_vector = \<lparr>al_size = 2, num_chunks = 1, vector = [[1, 0]], al_blocks = [0, 1]\<rparr>,
         num_qubits = 1, sv_size = 2, norm_const = 1, fcarg = 0, fcarg_init = False\<rparr> = 1"
proof -
  have run: "collapse ex_platform ex_s01 0 True (probability ex_platform ex_s01 0) ex_s01 7 (mem_init (\<lambda>_. True)) =
   (Inr \<lparr>sv_vector = \<lparr>al_size = 2, num_chunks = 1, vector = [[1, 0]], al_blocks = [0, 1]\<rparr>,
         num_qubits = 1, sv_size = 2, norm_const = 1, fcarg = 0, fcarg_init = False\<rparr>,
    snd (state_init ex_platform (Suc 0) False (mem_init (\<lambda>_. True))))"
    using ex_s01_collapse by (simp only: ex_s01_probability)
  have h: "1 < num_qubits ex_s01" "0 < num_qubits ex_s01" "0 < complex_array_size ex_platform"
    by (simp_all add: ex_s01_def ex_platform_def)
  from collapse_normalised [OF ex_s01_wf h mem_fresh_init ex_s01_norm2 _ run] show ?thesis
    by (simp add: ex_s01_probability)
qed

text \<open>C7 (functional). For a normalised state and a roll in \<open>[0, 1)\<close>, \<open>measure\<close>
  reports the outcome \<open>roll < probability\<close> and, when it succeeds, returns the collapse on
  that outcome: one qubit fewer, the amplitudes with the measured bit equal to the
  outcome, normalised. The result depends only on the state, the target and the roll.\<close>

theorem measure_outcome:
  assumes "sv_wf p s" and "1 < num_qubits s" and "t < num_qubits s"
    and "0 < complex_array_size p" and "mem_fresh m" and "sv_norm2 p s = 1"
    and "0 \<le> roll" and "roll < 1"
    and "measure p s t new_state dst roll m = ((b, Inr ns'), m')"
  shows "b = (roll < probability p s t) \<and> num_qubits ns' = num_qubits s - 1 \<and>
         map (sv_raw p ns') [0..<sv_size ns'] =
           map (state_get p s) (filter (\<lambda>i. bit i t = b) [0..<sv_size s]) \<and>
         sv_norm2 p ns' = 1"
proof -
  have b: "b = (roll < probability p s t)"
    and run: "collapse p s t b (probability p s t) new_state dst m = (Inr ns', m')"
    using assms(9) by (auto simp: measure_def Let_def split: prod.splits)
  have pos: "0 < (if b then probability p s t else 1 - probability p s t)"
    using b assms(7,8) by auto
  show ?thesis
    using b collapse_Inr [OF assms(1-5) run] collapse_norm2 [OF assms(1-6) pos run] by simp
qed

theorem measure_outcome_witness:
  "map (sv_raw ex_platform \<lparr>sv_vector = \<lparr>al_size = 2, num_chunks = 1, vector = [[1, 0]], al_blocks = [0, 1]\<rparr>,
         num_qubits = 1, sv_size = 2, norm_const = 1, fcarg = 0, fcarg_init = False\<rparr>) [0..<2] =
   map (state_get ex_platform ex_s01) (filter (\<lambda>i. bit i 0) [0..<4])"
proof -
  have h: "1 < num_qubits ex_s01" "0 < num_qubits ex_s01" "0 < complex_array_size ex_platform"
    by (simp_all add: ex_s01_def ex_platform_def)
  have meas: "measure ex_platform ex_s01 0 ex_s01 7 (1 / 2) (mem_init (\<lambda>_. True)) =
        ((True, Inr \<lparr>sv_vector = \<lparr>al_size = 2, num_chunks = 1, vector = [[1, 0]], al_blocks = [0, 1]\<rparr>,
         num_qubits = 1, sv_size = 2, norm_const = 1, fcarg = 0, fcarg_init = False\<rparr>),
         snd (state_init ex_platform (Suc 0) False (mem_init (\<lambda>_. True))))"
    using ex_s01_collapse by (simp add: measure_def ex_s01_probability)
  have sz: "sv_size ex_s01 = 4" by (simp add: ex_s01_def)
  have "(0::real) \<le> 1 / 2" "(1::real) / 2 < 1" by simp_all
  from measure_outcome [OF ex_s01_wf h mem_fresh_init ex_s01_norm2 this meas] sz show ?thesis
    by simp
qed

text \<open>Collapsing a one-qubit state, whatever the outcome, returns
  without allocating a terminal state: zero qubits and a NULL store.\<close>

theorem collapse_single_qubit:
  assumes "num_qubits s = 1"
  shows "\<exists>ns'. collapse p s t v prob_one new_state dst m = (Inr ns', m) \<and>
           num_qubits ns' = 0 \<and> vector (sv_vector ns') = [] \<and> al_blocks (sv_vector ns') = []"
  using assms by (simp add: collapse_def)

theorem collapse_single_qubit_witness:
  "\<exists>ns'. collapse ex_platform ex_s1 0 False 0 ex_s1 7 (mem_init (\<lambda>_. True)) = (Inr ns', mem_init (\<lambda>_. True)) \<and>
     num_qubits ns' = 0 \<and> vector (sv_vector ns') = [] \<and> al_blocks (sv_vector ns') = []"
  by (rule collapse_single_qubit) (simp add: ex_s1_def)

text \<open>C20 (error). When \<open>state_init\<close> fails inside \<open>collapse\<close>, the function frees the
  caller's \<open>new_state\<close> structure before returning the error: the block \<open>dst\<close> is no
  longer live, although the caller allocated it and still holds the pointer.\<close>

theorem collapse_frees_destination:
  assumes "num_qubits s \<noteq> 1" and "collapse p s t v prob_one new_state dst m = (Inl e, m')"
  shows "dst \<notin> mem_live m'"
  using assms by (auto simp: collapse_def free_live Let_def split: prod.splits sum.splits)

theorem collapse_frees_destination_witness:
  "0 \<in> mem_live \<lparr>mem_calls = 1, mem_live = {0}, mem_ok = (\<lambda>_. False)\<rparr> \<and>
   0 \<notin> mem_live (snd (collapse ex_platform ex_s01 0 True 1 ex_s01 0
                      \<lparr>mem_calls = 1, mem_live = {0}, mem_ok = (\<lambda>_. False)\<rparr>))"
proof -
  have run: "collapse ex_platform ex_s01 0 True 1 ex_s01 0 \<lparr>mem_calls = 1, mem_live = {0}, mem_ok = (\<lambda>_. False)\<rparr> =
     (Inl Err_alloc_vector, snd (collapse ex_platform ex_s01 0 True 1 ex_s01 0
                      \<lparr>mem_calls = 1, mem_live = {0}, mem_ok = (\<lambda>_. False)\<rparr>))"
    by (simp add: collapse_def state_init_def alist_init_def malloc_def ex_s01_def)
  have "num_qubits ex_s01 \<noteq> 1" by (simp add: ex_s01_def)
  from collapse_frees_destination [OF this run] show ?thesis by simp
qed

text \<open>C10 (equivalence, bounds). The loop of \<open>probability\<close>, which starts at
  \<open>1 << target\<close>, computes the sum of \<open>|a_i|^2\<close> over all indices \<open>i\<close> with the
  target bit set; the result lies between 0 and the squared norm of the state.\<close>

theorem probability_spec:
  "probability p s t = (\<Sum>i < sv_size s. if bit i t then (cmod (state_get p s i))\<^sup>2 else 0) \<and>
   0 \<le> probability p s t \<and> probability p s t \<le> sv_norm2 p s"
proof -
  have "(\<Sum>i < sv_size s. if bit i t then (cmod (state_get p s i))\<^sup>2 else 0) \<le> sv_norm2 p s"
    unfolding sv_norm2_def by (rule sum_mono) simp
  moreover have "0 \<le> (\<Sum>i < sv_size s. if bit i t then (cmod (state_get p s i))\<^sup>2 else 0)"
    by (rule sum_nonneg) simp
  ultimately show ?thesis by (simp add: probability_sum)
qed

text \<open>\<open>get_global_phase\<close> memoises: after the first call the flag is
  set, a second call returns the same phase and state, and the amplitudes are untouched.\<close>

theorem global_phase_memoised:
  "get_global_phase p (snd (get_global_phase p s)) = get_global_phase p s \<and>
   fcarg_init (snd (get_global_phase p s)) \<and> sv_raw p (snd (get_global_phase p s)) = sv_raw p s"
  by (simp add: get_global_phase_def Let_def)

text \<open>C24 (functional). When the phase is not yet cached, \<open>get_global_phase\<close> returns
  the argument of the first non-zero amplitude, provided that amplitude is not a negative
  real number.\<close>

theorem global_phase_first_nonzero:
  assumes "\<not> fcarg_init s" and "i < sv_size s" and "state_get p s i \<noteq> 0"
    and "\<forall>j < i. state_get p s j = 0"
    and "\<not> (Im (state_get p s i) = 0 \<and> Re (state_get p s i) < 0)"
  shows "fst (get_global_phase p s) = Arg (state_get p s i)"
proof -
  have "fst (get_global_phase p s) =
          (if Im (state_get p s i) \<noteq> 0 then Arg (state_get p s i) else 0)"
    using assms(1) phase_scan_first_upt [OF assms(2,4,3)] by (simp add: get_global_phase_def Let_def)
  moreover have "Im (state_get p s i) = 0 \<Longrightarrow> Arg (state_get p s i) = 0"
    using assms(3,5) by (intro Arg_pos_real) (auto simp: complex_eq_iff)
  ultimately show ?thesis by auto
qed

theorem global_phase_first_nonzero_witness:
  "fst (get_global_phase ex_platform ex_si) = pi / 2"
proof -
  have v: "state_get ex_platform ex_si 1 = \<i>" "state_get ex_platform ex_si 0 = 0"
    by (simp_all add: state_get_def alist_get_def ex_si_def ex_platform_def)
  have h: "\<not> fcarg_init ex_si" "1 < sv_size ex_si" by (simp_all add: ex_si_def)
  have "state_get ex_platform ex_si 1 \<noteq> 0" "\<forall>j < 1. state_get ex_platform ex_si j = 0"
    "\<not> (Im (state_get ex_platform ex_si 1) = 0 \<and> Re (state_get ex_platform ex_si 1) < 0)"
    using v by simp_all
  from global_phase_first_nonzero [OF h this] v show ?thesis by simp
qed

text \<open>C23 (functional). The scan of \<open>get_global_phase\<close> stops at the first non-zero
  amplitude even when it is real. When that amplitude is a negative real, the phase it
  returns (and caches in \<open>fcarg\<close>) is 0, not the amplitude's argument \<open>pi\<close>, whatever
  the later amplitudes are. The spec says the scan continues past a real amplitude.\<close>

theorem global_phase_negative_real:
  assumes "\<not> fcarg_init s" and "i < sv_size s" and "\<forall>j < i. state_get p s j = 0"
    and "Im (state_get p s i) = 0" and "Re (state_get p s i) < 0"
  shows "fst (get_global_phase p s) = 0 \<and> fcarg (snd (get_global_phase p s)) = 0 \<and>
         Arg (state_get p s i) = pi"
proof -
  have "state_get p s i \<noteq> 0" using assms(5) by auto
  then have "phase_scan p s [0..<sv_size s] = 0"
    using phase_scan_first_upt [OF assms(2,3)] assms(4) by simp
  then show ?thesis using assms(1,4,5) by (simp add: get_global_phase_def Arg_neg_real)
qed

theorem global_phase_negative_real_witness:
  "fst (get_global_phase ex_platform ex_s1) = 0 \<and> Arg (state_get ex_platform ex_s1 0) = pi \<and>
   Arg (state_get ex_platform ex_s1 1) = pi / 2"
proof -
  have v: "state_get ex_platform ex_s1 0 = -1" "state_get ex_platform ex_s1 1 = \<i>"
    by (simp_all add: state_get_def alist_get_def ex_s1_def ex_platform_def)
  have h: "\<not> fcarg_init ex_s1" "0 < sv_size ex_s1" by (simp_all add: ex_s1_def)
  have "\<forall>j < 0. state_get ex_platform ex_s1 j = 0" "Im (state_get ex_platform ex_s1 0) = 0"
    "Re (state_get ex_platform ex_s1 0) < 0"
    using v by simp_all
  from global_phase_negative_real [OF h this] v show ?thesis by simp
qed

end
