(* ===== verification/Join.thy ===== *)
theory Join
  imports Measure
begin

text \<open>
  The composition of two states, \<open>join\<close> (qops.c lines 103-130): a state of
  \<open>num_qubits s1 + num_qubits s2\<close> qubits is allocated with \<open>state_init\<close> and the
  amplitude \<open>s1[i] * s2[j]\<close> is written at index \<open>i * s2.size + j\<close> for every pair, in
  the order of the two nested loops (the OpenMP loop is sequential here; the writes are at
  distinct indices). The lemmas show that the result is the tensor product: its amplitudes,
  its squared norm, and the marginal probability of each qubit.
\<close>
definition join :: "platform \<Rightarrow> state_vector \<Rightarrow> state_vector \<Rightarrow> mem \<Rightarrow> (doki_error + state_vector) \<times> mem" where
  "join p s1 s2 m =
     (case state_init p (num_qubits s1 + num_qubits s2) False m of
        (Inl e, m') \<Rightarrow> (Inl e, m')
      | (Inr r, m') \<Rightarrow>
          (Inr (foldl (\<lambda>r i. let o1 = state_get p s1 i
                              in foldl (\<lambda>r j. state_set p r (i * sv_size s2 + j) (o1 * state_get p s2 j))
                                   r [0..<sv_size s2])
                 r [0..<sv_size s1]), m'))"

text \<open>The tensor product of \<open>ex_s1\<close> with itself, as \<open>join\<close> computes it.\<close>

definition ex_s1s1 :: state_vector where
  "ex_s1s1 = \<lparr>sv_vector = \<lparr>al_size = 4, num_chunks = 1, vector = [[1, -\<i>, -\<i>, -1]], al_blocks = [0, 1]\<rparr>,
            num_qubits = 2, sv_size = 4, norm_const = 1, fcarg = 0, fcarg_init = False\<rparr>"

lemma join_Inr:
  assumes wf1: "sv_wf p s1" and wf2: "sv_wf p s2" and cap: "0 < complex_array_size p"
    and fresh: "mem_fresh m" and run: "join p s1 s2 m = (Inr r, m')"
  shows "sv_wf p r" and "num_qubits r = num_qubits s1 + num_qubits s2"
    and "sv_size r = sv_size s1 * sv_size s2" and "norm_const r = 1"
    and "k < sv_size r \<Longrightarrow>
           state_get p r k = state_get p s1 (k div sv_size s2) * state_get p s2 (k mod sv_size s2)"
    and "mem_fresh m'" and "mem_live m' = mem_live m \<union> set (al_blocks (sv_vector r))"
proof -
  let ?N1 = "sv_size s1" and ?N2 = "sv_size s2"
  let ?f = "\<lambda>(i, j). i * ?N2 + j" and ?g = "\<lambda>(i, j). state_get p s1 i * state_get p s2 j"
  let ?P = "List.product [0..<?N1] [0..<?N2]"
  obtain r0 where i: "state_init p (num_qubits s1 + num_qubits s2) False m = (Inr r0, m')"
    using run by (cases "state_init p (num_qubits s1 + num_qubits s2) False m" rule: prod.exhaust)
      (auto simp: join_def split: sum.splits)
  note r0 = state_init_Inr [OF i cap fresh]
  have N: "sv_size r0 = ?N1 * ?N2" using r0(3) wf1 wf2 by (simp add: sv_wf_def power_add)
  have r: "r = foldl (\<lambda>r x. state_set p r (?f x) (?g x)) r0 ?P"
    using run i by (simp add: join_def Let_def foldl_nested_product split_def)
  show "sv_wf p r" "num_qubits r = num_qubits s1 + num_qubits s2" "sv_size r = ?N1 * ?N2" "norm_const r = 1"
    using r0 N by (simp_all add: r)
  show "mem_fresh m'" "mem_live m' = mem_live m \<union> set (al_blocks (sv_vector r))"
    using r0 by (simp_all add: r)
  assume k: "k < sv_size r"
  have fP: "map ?f ?P = [0..<?N1 * ?N2]" by (rule map_product_upt)
  have rng: "\<forall>x \<in> set ?P. ?f x < sv_size r0"
    using fP N by (metis (no_types, lifting) atLeastLessThan_iff imageI list.set_map set_upt)
  have dist: "distinct (map ?f ?P)" by (simp only: fP distinct_upt)
  have kr: "k < ?N1 * ?N2" using k r0 N by (simp add: r)
  then have N2: "0 < ?N2" by (cases "?N2") auto
  have mem: "(k div ?N2, k mod ?N2) \<in> set ?P" using kr N2 by (auto simp: less_mult_imp_div_less)
  have "sv_raw p r k = ?g (k div ?N2, k mod ?N2)"
    using sv_raw_foldl_set_distinct(1) [OF r0(1) rng dist mem, of ?g] by (simp add: r)
  then show "state_get p r k = state_get p s1 (k div ?N2) * state_get p s2 (k mod ?N2)"
    using r0(4) by (simp add: state_get_raw r)
qed

lemma join_weighted_sum:
  assumes wf1: "sv_wf p s1" and wf2: "sv_wf p s2" and cap: "0 < complex_array_size p"
    and fresh: "mem_fresh m" and run: "join p s1 s2 m = (Inr r, m')"
  shows "(\<Sum>k < sv_size r. if P k then (cmod (state_get p r k))\<^sup>2 else 0) =
         (\<Sum>i < sv_size s1. \<Sum>j < sv_size s2.
            if P (i * sv_size s2 + j) then (cmod (state_get p s1 i))\<^sup>2 * (cmod (state_get p s2 j))\<^sup>2 else 0)"
proof -
  note j = join_Inr [OF wf1 wf2 cap fresh run]
  let ?N2 = "sv_size s2"
  let ?G = "\<lambda>i j. if P (i * ?N2 + j) then (cmod (state_get p s1 i))\<^sup>2 * (cmod (state_get p s2 j))\<^sup>2 else 0"
  have "(\<Sum>k < sv_size r. if P k then (cmod (state_get p r k))\<^sup>2 else 0) = (\<Sum>k < sv_size s1 * ?N2. ?G (k div ?N2) (k mod ?N2))"
    using j(3,5) by (intro sum.cong) (simp_all add: norm_mult power_mult_distrib)
  also have "\<dots> = (\<Sum>i < sv_size s1. \<Sum>j < ?N2. ?G i j)" by (rule sum_div_mod)
  finally show ?thesis .
qed

lemma ex_s1_wf: "sv_wf ex_platform ex_s1"
  by (simp add: sv_wf_def alist_wf_def ex_s1_def ex_platform_def)

lemma ex_join_run:
  "join ex_platform ex_s1 ex_s1 (mem_init (\<lambda>_. True)) =
     (Inr ex_s1s1, snd (join ex_platform ex_s1 ex_s1 (mem_init (\<lambda>_. True))))"
proof -
  have "fst (join ex_platform ex_s1 ex_s1 (mem_init (\<lambda>_. True))) = Inr ex_s1s1"
    unfolding ex_s1s1_def by code_simp
  then show ?thesis by (rule prod_eq_fst)
qed

lemma ex_join_hyps: "0 < complex_array_size ex_platform" "sv_size ex_s1 = 2" "num_qubits ex_s1 = 1"
  by (simp_all add: ex_platform_def ex_s1_def)

text \<open>C8 (functional). When \<open>join\<close> succeeds on two well-formed states, the result is
  well-formed, has \<open>num_qubits s1 + num_qubits s2\<close> qubits, and its amplitude at index
  \<open>i * s2.size + j\<close> is \<open>s1[i] * s2[j]\<close>, for every \<open>i < s1.size\<close> and \<open>j < s2.size\<close>.\<close>

theorem join_amplitudes:
  assumes "sv_wf p s1" and "sv_wf p s2" and "0 < complex_array_size p"
    and "mem_fresh m" and "join p s1 s2 m = (Inr r, m')"
    and "i < sv_size s1" and "j < sv_size s2"
  shows "sv_wf p r \<and> num_qubits r = num_qubits s1 + num_qubits s2 \<and>
         state_get p r (i * sv_size s2 + j) = state_get p s1 i * state_get p s2 j"
proof -
  note jn = join_Inr [OF assms(1-5)]
  have k: "i * sv_size s2 + j < sv_size r"
  proof -
    have "i * sv_size s2 + j < (i + 1) * sv_size s2" using assms(7) by simp
    also have "\<dots> \<le> sv_size s1 * sv_size s2" using assms(6) by (intro mult_le_mono1) simp
    finally show ?thesis using jn(3) by simp
  qed
  show ?thesis using jn(1,2) jn(5) [OF k] assms(7) by simp
qed

theorem join_amplitudes_witness:
  "state_get ex_platform ex_s1s1 3 = state_get ex_platform ex_s1 1 * state_get ex_platform ex_s1 1"
  using join_amplitudes [OF ex_s1_wf ex_s1_wf ex_join_hyps(1) mem_fresh_init ex_join_run, of 1 1]
  by (simp add: ex_join_hyps)

text \<open>The squared norm of a joined state is the product of the squared
  norms of its factors; in particular joining two normalised states gives a normalised
  state.\<close>

theorem join_normalised:
  assumes "sv_wf p s1" and "sv_wf p s2" and "0 < complex_array_size p"
    and "mem_fresh m" and "join p s1 s2 m = (Inr r, m')"
  shows "sv_norm2 p r = sv_norm2 p s1 * sv_norm2 p s2"
  using join_weighted_sum [OF assms, of "\<lambda>_. True"]
  by (simp add: sv_norm2_def sum_product)

theorem join_normalised_witness:
  "sv_norm2 ex_platform ex_s1s1 = sv_norm2 ex_platform ex_s1 * sv_norm2 ex_platform ex_s1"
  by (rule join_normalised [OF ex_s1_wf ex_s1_wf ex_join_hyps(1) mem_fresh_init ex_join_run])

text \<open>C9 (functional). The marginal probability of qubit \<open>q\<close> in a joined state is that
  of the factor holding the qubit, scaled by the squared norm of the other factor: qubits
  below \<open>num_qubits s2\<close> belong to \<open>s2\<close> (the low index bits), the others to \<open>s1\<close>.
  For normalised factors it is the marginal of the factor alone.\<close>

theorem join_marginal:
  assumes "sv_wf p s1" and "sv_wf p s2" and "0 < complex_array_size p"
    and "mem_fresh m" and "join p s1 s2 m = (Inr r, m')"
  shows "probability p r q =
           (if q < num_qubits s2 then sv_norm2 p s1 * probability p s2 q
            else probability p s1 (q - num_qubits s2) * sv_norm2 p s2)"
proof -
  have N2: "sv_size s2 = 2 ^ num_qubits s2" using assms(2) by (simp add: sv_wf_def)
  let ?A = "\<lambda>i. (cmod (state_get p s1 i))\<^sup>2" and ?B = "\<lambda>j. (cmod (state_get p s2 j))\<^sup>2"
  have "probability p r q = (\<Sum>i < sv_size s1. \<Sum>j < sv_size s2.
            if bit (i * sv_size s2 + j) q then ?A i * ?B j else 0)"
    using join_weighted_sum [OF assms, of "\<lambda>k. bit k q"] by (simp add: probability_sum)
  also have "\<dots> = (\<Sum>i < sv_size s1. \<Sum>j < sv_size s2.
            if q < num_qubits s2 then ?A i * (if bit j q then ?B j else 0)
            else (if bit i (q - num_qubits s2) then ?A i else 0) * ?B j)"
    by (intro sum.cong refl) (simp add: N2 bit_mult_add)
  also have "\<dots> = (if q < num_qubits s2 then sv_norm2 p s1 * probability p s2 q
                      else probability p s1 (q - num_qubits s2) * sv_norm2 p s2)"
    by (simp add: probability_sum sv_norm2_def sum_product)
  finally show ?thesis .
qed

theorem join_marginal_witness:
  "probability ex_platform ex_s1s1 1 = probability ex_platform ex_s1 0 * sv_norm2 ex_platform ex_s1"
  using join_marginal [OF ex_s1_wf ex_s1_wf ex_join_hyps(1) mem_fresh_init ex_join_run, of 1]
  by (simp add: ex_join_hyps)

text \<open>End to end: joining two one-qubit states \<open>|0>\<close>, each made by
  \<open>state_init\<close> with \<open>init\<close> set, gives the two-qubit state \<open>|00>\<close>: amplitude 1 at
  index 0 and 0 elsewhere.\<close>

theorem join_zero_zero:
  "case state_init ex_platform 1 True (mem_init (\<lambda>_. True)) of
     (Inr z, m1) \<Rightarrow> (case join ex_platform z z m1 of
        (Inr r, _) \<Rightarrow> num_qubits r = 2 \<and> map (state_get ex_platform r) [0..<4] = [1, 0, 0, 0]
      | _ \<Rightarrow> False)
   | _ \<Rightarrow> False"
  by code_simp

end
