(* ===== verification/ApplyGate.thy ===== *)
theory ApplyGate
  imports StateVector
begin

text \<open>
  The eager gate engine of qops.c: \<open>apply_gate\<close> (lines 201-274), \<open>copy_and_index\<close>
  (lines 276-343) and \<open>calculate_empty\<close> (lines 345-408), and the gate structure of
  qgate.h (not under src/, modelled from the spec: \<open>size = 2 ^ num_qubits\<close> and the
  matrix as a list of rows).
  \<^item> \<open>copy_only\<close> is the control/anticontrol test of lines 299-322 (the loops with
    \<open>break\<close> are an existential over the list);
  \<^item> \<open>copy_and_index\<close> copies the amplitudes the controls do not select, sums their
    squared moduli and appends the selected indices to \<open>not_copy\<close> at \<open>count\<close>;
  \<^item> \<open>target_step\<close> is the body of the loop over the targets (lines 384-397), which
    computes the matrix row of \<open>curr_id\<close> and overwrites the target bits of
    \<open>reg_index\<close> with the bits of \<open>j\<close>; \<open>calculate_empty\<close> sums
    \<open>state_get(reg_index) * matrix[row][j]\<close> over \<open>j\<close> for every free index;
  \<^item> \<open>apply_gate\<close> allocates \<open>not_copy\<close> (error 11), sizes it \<open>size >> (c + a)\<close>
    with \<open>alist_init\<close>, checks \<open>new_state\<close> (error 10), allocates the new state, runs
    the two passes and sets \<open>norm_const = sqrt(norm)\<close>; the caller's \<open>new_state\<close> is
    the optional block \<open>new_state\<close>, which the function frees when \<open>state_init\<close> fails.
  The OpenMP loops are run in index order; C12 shows the order of \<open>not_copy\<close> does not
  matter. \<open>gate_row\<close>, \<open>put_targets\<close>, \<open>gate_amp\<close> and \<open>apply_gate_ref\<close> are
  the reference semantics the lemmas compare the loops with: the dense local gate
  restricted to the indices the controls select (spec section 4.2).
\<close>

record qgate =
  gate_num_qubits :: nat
  gate_size :: nat
  gate_matrix :: "complex list list"

definition copy_only :: "nat list \<Rightarrow> nat list \<Rightarrow> nat \<Rightarrow> bool" where
  "copy_only controls anticontrols i \<longleftrightarrow>
     list_ex (\<lambda>c. i AND push_bit c 1 = 0) controls \<or> list_ex (\<lambda>a. i AND push_bit a 1 \<noteq> 0) anticontrols"

definition copy_and_index ::
  "platform \<Rightarrow> state_vector \<Rightarrow> state_vector \<Rightarrow> nat list \<Rightarrow> nat list \<Rightarrow> nat array_list
   \<Rightarrow> nat \<times> state_vector \<times> real \<times> nat array_list" where
  "copy_and_index p s new_state controls anticontrols not_copy =
     (let (ns, aux_const, nc, count) =
        foldl (\<lambda>(ns, aux_const, nc, count) i.
                 if copy_only controls anticontrols i
                 then (let aux = state_get p s i
                       in (state_set p ns i aux, aux_const + (Re aux * Re aux + Im aux * Im aux), nc, count))
                 else (ns, aux_const, alist_set (complex_array_size p) nc count i, Suc count))
              (new_state, 0, not_copy, 0) [0..<sv_size s]
      in (0, ns, aux_const, nc))"

definition target_step :: "nat list \<Rightarrow> nat \<Rightarrow> nat \<Rightarrow> nat \<times> nat \<Rightarrow> nat \<Rightarrow> nat \<times> nat" where
  "target_step targets curr_id j = (\<lambda>(row, reg_index) k.
     (row + push_bit k (of_bool (curr_id AND push_bit (targets ! k) 1 \<noteq> 0)),
      if j AND push_bit k 1 \<noteq> 0 then reg_index OR push_bit (targets ! k) 1
      else unset_bit (targets ! k) reg_index))"

definition calculate_empty ::
  "platform \<Rightarrow> state_vector \<Rightarrow> qgate \<Rightarrow> nat list \<Rightarrow> state_vector \<Rightarrow> nat array_list \<Rightarrow> real
   \<Rightarrow> nat \<times> state_vector \<times> real" where
  "calculate_empty p s gate targets new_state not_copy norm_c =
     (let (ns, aux_const) =
        foldl (\<lambda>(ns, aux_const) i.
                 let curr_id = alist_get (complex_array_size p) not_copy i;
                     (sum, _) = foldl (\<lambda>(sum, reg_index) j.
                                   let (row, reg_index') = foldl (target_step targets curr_id j) (0, reg_index)
                                                             [0..<length targets]
                                   in (sum + state_get p s reg_index' * gate_matrix gate ! row ! j, reg_index'))
                                 (0, curr_id) [0..<gate_size gate]
                 in (state_set p ns curr_id sum, aux_const + (Re sum * Re sum + Im sum * Im sum)))
              (new_state, 0) [0..<al_size not_copy]
      in (0, ns, norm_c + aux_const))"

definition apply_gate ::
  "platform \<Rightarrow> state_vector \<Rightarrow> qgate \<Rightarrow> nat list \<Rightarrow> nat list \<Rightarrow> nat list \<Rightarrow> nat option \<Rightarrow> mem
   \<Rightarrow> (doki_error + state_vector) \<times> mem" where
  "apply_gate p s gate targets controls anticontrols new_state m =
     (case malloc m of
        (None, m1) \<Rightarrow> (Inl Err_alloc_list, m1)
      | (Some nc_blk, m1) \<Rightarrow>
          (case alist_init (natural_array_size p)
                  (drop_bit (length controls + length anticontrols) (sv_size s)) m1 of
             (Inl e, m2) \<Rightarrow> (Inl e, free nc_blk m2)
           | (Inr not_copy, m2) \<Rightarrow>
               (case new_state of
                  None \<Rightarrow> (Inl Err_null_dest, free nc_blk (snd (alist_clear not_copy m2)))
                | Some dst \<Rightarrow>
                    (case state_init p (num_qubits s) False m2 of
                       (Inl e, m3) \<Rightarrow> (Inl e, free dst (free nc_blk (snd (alist_clear not_copy m3))))
                     | (Inr ns, m3) \<Rightarrow>
                         (let (code, ns1, norm_c, not_copy') =
                                copy_and_index p s ns controls anticontrols not_copy;
                              r = (if code = 0
                                   then (let (code', ns2, norm_c') =
                                               calculate_empty p s gate targets ns1 not_copy' norm_c
                                         in if code' = 0 then Inr (ns2\<lparr>norm_const := sqrt norm_c'\<rparr>)
                                            else Inl Err_calculate)
                                   else Inl Err_copy_index)
                          in (r, free nc_blk (snd (alist_clear not_copy' m3))))))))"

text \<open>The reference semantics: the matrix row of an index (bit \<open>k\<close> of the row is the bit
  of the index at \<open>targets!k\<close>), the index with its target bits set from \<open>j\<close>, the new
  amplitude of a selected index, and of any index.\<close>

fun gate_row :: "nat list \<Rightarrow> nat \<Rightarrow> nat" where
  "gate_row [] i = 0"
| "gate_row (t # ts) i = of_bool (bit i t) + 2 * gate_row ts i"

fun put_targets :: "nat list \<Rightarrow> nat \<Rightarrow> nat \<Rightarrow> nat" where
  "put_targets [] j i = i"
| "put_targets (t # ts) j i = put_targets ts (j div 2) (if odd j then set_bit t i else unset_bit t i)"

definition gate_amp :: "platform \<Rightarrow> state_vector \<Rightarrow> qgate \<Rightarrow> nat list \<Rightarrow> nat \<Rightarrow> complex" where
  "gate_amp p s gate targets i =
     (\<Sum>j < gate_size gate. state_get p s (put_targets targets j i) * gate_matrix gate ! gate_row targets i ! j)"

definition apply_gate_ref ::
  "platform \<Rightarrow> state_vector \<Rightarrow> qgate \<Rightarrow> nat list \<Rightarrow> nat list \<Rightarrow> nat list \<Rightarrow> nat \<Rightarrow> complex" where
  "apply_gate_ref p s gate targets C A i =
     (if ctrl_selected (set C) (set A) i then gate_amp p s gate targets i else state_get p s i)"

text \<open>Worked examples: the Pauli-X and identity gates on one qubit, the state \<open>|00>\<close>,
  pre-sized index lists and an allocator that fails on a given call.\<close>

definition pauli_x :: qgate where
  "pauli_x = \<lparr>gate_num_qubits = 1, gate_size = 2, gate_matrix = [[0, 1], [1, 0]]\<rparr>"

definition ex_s00 :: state_vector where
  "ex_s00 = \<lparr>sv_vector = \<lparr>al_size = 4, num_chunks = 1, vector = [[1, 0, 0, 0]], al_blocks = [0, 1]\<rparr>,
             num_qubits = 2, sv_size = 4, norm_const = 1, fcarg = 0, fcarg_init = False\<rparr>"

definition gate_id1 :: qgate where
  "gate_id1 = \<lparr>gate_num_qubits = 1, gate_size = 2, gate_matrix = [[1, 0], [0, 1]]\<rparr>"

definition ex_nc2 :: "nat array_list" where
  "ex_nc2 = \<lparr>al_size = 2, num_chunks = 1, vector = [[0, 0]], al_blocks = [5, 6]\<rparr>"

definition ex_nc13 :: "nat array_list" where
  "ex_nc13 = \<lparr>al_size = 2, num_chunks = 1, vector = [[1, 3]], al_blocks = [5, 6]\<rparr>"

definition ex_nc31 :: "nat array_list" where
  "ex_nc31 = \<lparr>al_size = 2, num_chunks = 1, vector = [[3, 1]], al_blocks = [5, 6]\<rparr>"


text \<open>An allocator that has served ten calls, holds block 9 (the caller's \<open>new_state\<close>)
  and fails on its fourteenth call.\<close>

definition ex_mem13 :: mem where
  "ex_mem13 = \<lparr>mem_calls = 10, mem_live = {9}, mem_ok = (\<lambda>k. k \<noteq> 13)\<rparr>"

subsection \<open>The loops in closed form\<close>

lemma copy_only_iff: "copy_only C A i = (\<not> ctrl_selected (set C) (set A) i)"
  by (auto simp: copy_only_def ctrl_selected_def list_ex_iff index_simps)

lemma copy_and_index_fold:
  "foldl (\<lambda>(ns, aux_const, nc, count) i.
            if copy_only C A i
            then (let aux = state_get p s i
                  in (state_set p ns i aux, aux_const + (Re aux * Re aux + Im aux * Im aux), nc, count))
            else (ns, aux_const, alist_set cap nc count i, Suc count))
         (ns0, a0, nc0, c0) xs =
   (foldl (\<lambda>r i. state_set p r i (state_get p s i)) ns0 (filter (copy_only C A) xs),
    a0 + (\<Sum>i \<leftarrow> filter (copy_only C A) xs. (cmod (state_get p s i))\<^sup>2),
    foldl (\<lambda>r x. alist_set cap r (fst x) (snd x)) nc0
      (zip [c0..<c0 + length (filter (\<lambda>i. \<not> copy_only C A i) xs)] (filter (\<lambda>i. \<not> copy_only C A i) xs)),
    c0 + length (filter (\<lambda>i. \<not> copy_only C A i) xs))"
proof (induction xs arbitrary: ns0 a0 nc0 c0)
  case Nil
  then show ?case by simp
next
  case (Cons x xs)
  show ?case
  proof (cases "copy_only C A x")
    case True
    then show ?thesis using Cons.IH by (simp add: Let_def re_im_square add.assoc)
  next
    case False
    then show ?thesis using Cons.IH by (simp add: upt_conv_Cons del: upt_Suc)
  qed
qed

lemma target_loop_Suc:
  "foldl (target_step (t # ts) c j) (a + 2 * r, g) (map Suc xs) =
     apfst (\<lambda>r'. a + 2 * r') (foldl (target_step ts c (j div 2)) (r, g) xs)"
proof (induction xs arbitrary: r g)
  case Nil
  then show ?case by simp
next
  case (Cons k xs)
  have "target_step (t # ts) c j (a + 2 * r, g) (Suc k) =
        (a + 2 * fst (target_step ts c (j div 2) (r, g) k), snd (target_step ts c (j div 2) (r, g) k))"
    by (simp add: target_step_def index_simps bit_Suc push_bit_eq_mult algebra_simps)
  then show ?case using Cons.IH [of "fst (target_step ts c (j div 2) (r, g) k)" "snd (target_step ts c (j div 2) (r, g) k)"]
    by simp
qed

lemma target_loop:
  "foldl (target_step ts c j) (row0, reg) [0..<length ts] = (row0 + gate_row ts c, put_targets ts j reg)"
proof (induction ts arbitrary: row0 reg j)
  case Nil
  then show ?case by simp
next
  case (Cons t ts)
  let ?reg1 = "if odd j then set_bit t reg else unset_bit t reg"
  have s0: "target_step (t # ts) c j (row0, reg) 0 = (row0 + of_bool (bit c t) + 2 * 0, ?reg1)"
    by (simp add: target_step_def index_simps bit_0 set_bit_eq_or push_bit_of_1)
  have u: "[0..<length (t # ts)] = 0 # map Suc [0..<length ts]"
    by (simp add: upt_conv_Cons map_Suc_upt del: upt_Suc)
  have "foldl (target_step (t # ts) c j) (row0, reg) [0..<length (t # ts)] =
        foldl (target_step (t # ts) c j) (row0 + of_bool (bit c t) + 2 * 0, ?reg1) (map Suc [0..<length ts])"
    by (simp only: u foldl_Cons s0)
  also have "\<dots> = apfst (\<lambda>r'. row0 + of_bool (bit c t) + 2 * r')
                       (foldl (target_step ts c (j div 2)) (0, ?reg1) [0..<length ts])"
    by (rule target_loop_Suc)
  also have "\<dots> = (row0 + gate_row (t # ts) c, put_targets (t # ts) j reg)"
    using Cons.IH [of "j div 2" 0 ?reg1] by simp
  finally show ?case .
qed

lemma put_targets_outside:
  "b \<notin> set ts \<Longrightarrow> bit (put_targets ts j i) b = bit i b"
  by (induction ts j i rule: put_targets.induct) (auto simp: bit_set_bit_iff bit_unset_bit_iff)

lemma put_targets_cong:
  "\<forall>b. b \<notin> set ts \<longrightarrow> bit i b = bit i' b \<Longrightarrow> put_targets ts j i = put_targets ts j i'"
proof (induction ts arbitrary: j i i')
  case Nil
  then show ?case by (simp add: bit_eq_iff)
next
  case (Cons t ts)
  have "\<forall>b. b \<notin> set ts \<longrightarrow> bit (if odd j then set_bit t i else unset_bit t i) b =
                                bit (if odd j then set_bit t i' else unset_bit t i') b"
    using Cons.prems by (auto simp: bit_set_bit_iff bit_unset_bit_iff)
  then show ?case using Cons.IH by simp
qed

lemma put_targets_nth:
  "distinct ts \<Longrightarrow> k < length ts \<Longrightarrow> bit (put_targets ts j i) (ts ! k) = bit j k"
proof (induction ts arbitrary: j i k)
  case Nil
  then show ?case by simp
next
  case (Cons t ts)
  show ?case
  proof (cases k)
    case 0
    with Cons.prems show ?thesis
      by (simp add: put_targets_outside bit_set_bit_iff bit_unset_bit_iff bit_0)
  next
    case (Suc k')
    with Cons show ?thesis by (simp add: bit_Suc)
  qed
qed

lemma bit_gate_row: "bit (gate_row ts i) k = (k < length ts \<and> bit i (ts ! k))"
proof (induction ts arbitrary: k)
  case Nil
  then show ?case by simp
next
  case (Cons t ts)
  then show ?case by (cases k) (simp_all add: bit_0 bit_Suc)
qed

lemma gate_row_less: "gate_row ts i < 2 ^ length ts"
  by (induction ts) auto

lemma put_targets_gate_row:
  assumes "distinct ts" shows "put_targets ts (gate_row ts i) i = i"
proof (rule bit_eqI)
  fix b
  show "bit (put_targets ts (gate_row ts i) i) b = bit i b"
  proof (cases "b \<in> set ts")
    case True
    then obtain k where "k < length ts" "b = ts ! k" by (auto simp: in_set_conv_nth)
    then show ?thesis using assms by (simp add: put_targets_nth bit_gate_row)
  qed (simp add: put_targets_outside)
qed

lemma sum_loop:
  assumes "\<forall>b. b \<notin> set targets \<longrightarrow> bit g b = bit c b"
  shows "fst (foldl (\<lambda>(sum, reg_index) j.
             let (row, reg_index') = foldl (target_step targets c j) (0, reg_index) [0..<length targets]
             in (sum + state_get p s reg_index' * M ! row ! j, reg_index')) (s0, g) xs) =
         s0 + (\<Sum>j \<leftarrow> xs. state_get p s (put_targets targets j c) * M ! gate_row targets c ! j)"
  using assms
proof (induction xs arbitrary: s0 g)
  case Nil
  then show ?case by simp
next
  case (Cons j xs)
  have eq: "put_targets targets j g = put_targets targets j c"
    by (rule put_targets_cong) (use Cons.prems in blast)
  have "\<forall>b. b \<notin> set targets \<longrightarrow> bit (put_targets targets j g) b = bit c b"
    using Cons.prems by (simp add: put_targets_outside)
  then show ?case using Cons.IH by (simp add: target_loop eq add.assoc)
qed

lemma calculate_empty_fold:
  "foldl (\<lambda>(ns, aux_const) i.
            let curr_id = alist_get cap nc i;
                (sum, _) = foldl (\<lambda>(sum, reg_index) j.
                              let (row, reg_index') = foldl (target_step targets curr_id j) (0, reg_index)
                                                        [0..<length targets]
                              in (sum + state_get p s reg_index' * gate_matrix gate ! row ! j, reg_index'))
                            (0, curr_id) [0..<gate_size gate]
            in (state_set p ns curr_id sum, aux_const + (Re sum * Re sum + Im sum * Im sum)))
         (ns0, a0) xs =
   (foldl (\<lambda>r i. state_set p r (alist_get cap nc i) (gate_amp p s gate targets (alist_get cap nc i))) ns0 xs,
    a0 + (\<Sum>i \<leftarrow> xs. (cmod (gate_amp p s gate targets (alist_get cap nc i)))\<^sup>2))"
proof (induction xs arbitrary: ns0 a0)
  case Nil
  then show ?case by simp
next
  case (Cons x xs)
  let ?c = "alist_get cap nc x"
  have "fst (foldl (\<lambda>(sum, reg_index) j.
             let (row, reg_index') = foldl (target_step targets ?c j) (0, reg_index) [0..<length targets]
             in (sum + state_get p s reg_index' * gate_matrix gate ! row ! j, reg_index')) (0, ?c) [0..<gate_size gate]) =
        gate_amp p s gate targets ?c"
    using sum_loop [of targets ?c ?c p s "gate_matrix gate" 0 "[0..<gate_size gate]"]
    by (simp add: gate_amp_def sum_set_upt_conv_sum_list_nat [symmetric] atLeast0LessThan)
  then show ?case using Cons.IH by (simp add: split_def Let_def re_im_square add.assoc)
qed

lemma calculate_empty_eq:
  "calculate_empty p s gate targets ns nc nrm =
     (0, foldl (\<lambda>r i. state_set p r (alist_get (complex_array_size p) nc i)
                   (gate_amp p s gate targets (alist_get (complex_array_size p) nc i))) ns [0..<al_size nc],
      nrm + (\<Sum>i \<leftarrow> [0..<al_size nc]. (cmod (gate_amp p s gate targets (alist_get (complex_array_size p) nc i)))\<^sup>2))"
  unfolding calculate_empty_def by (simp only: calculate_empty_fold) (simp add: Let_def)

lemma copy_and_index_eq:
  "copy_and_index p s ns C A nc =
     (0, foldl (\<lambda>r i. state_set p r i (state_get p s i)) ns (filter (copy_only C A) [0..<sv_size s]),
      (\<Sum>i \<leftarrow> filter (copy_only C A) [0..<sv_size s]. (cmod (state_get p s i))\<^sup>2),
      foldl (\<lambda>r x. alist_set (complex_array_size p) r (fst x) (snd x)) nc
        (zip [0..<length (filter (\<lambda>i. \<not> copy_only C A i) [0..<sv_size s])]
             (filter (\<lambda>i. \<not> copy_only C A i) [0..<sv_size s])))"
  unfolding copy_and_index_def by (simp only: copy_and_index_fold) (simp add: Let_def)

lemma roles_length:
  assumes "distinct C" and "distinct A" and "set C \<inter> set A = {}" and "set C \<union> set A \<subseteq> {..<n}"
  shows "length C + length A \<le> n"
proof -
  have "card (set C \<union> set A) \<le> n"
    using card_mono [OF _ assms(4)] by simp
  then show ?thesis
    using assms(1-3) by (simp add: card_Un_disjoint distinct_card)
qed

lemma not_copy_count:
  assumes "distinct C" and "distinct A" and "set C \<inter> set A = {}" and "set C \<union> set A \<subseteq> {..<n}"
  shows "length (filter (\<lambda>i. \<not> copy_only C A i) [0..<2 ^ n]) = drop_bit (length C + length A) (2 ^ n)"
    and "drop_bit (length C + length A) (2 ^ n :: nat) = 2 ^ (n - length C - length A)"
proof -
  show d: "drop_bit (length C + length A) (2 ^ n :: nat) = 2 ^ (n - length C - length A)"
    using roles_length [OF assms] by (simp add: drop_bit_eq_div power_diff diff_diff_left)
  have "length (filter (\<lambda>i. \<not> copy_only C A i) [0..<2 ^ n]) = 2 ^ (n - length C - length A)"
    using count_selected [of "set C" n "set A"] assms by (simp add: copy_only_iff distinct_card)
  then show "length (filter (\<lambda>i. \<not> copy_only C A i) [0..<2 ^ n]) = drop_bit (length C + length A) (2 ^ n)"
    using d by simp
qed

lemma apply_gate_Inr_run:
  assumes "apply_gate p s gate targets C A new_state m = (Inr ns', m')"
  obtains b nc ns0 m1 m2 m3 where
    "malloc m = (Some b, m1)"
    "alist_init (natural_array_size p) (drop_bit (length C + length A) (sv_size s)) m1 = (Inr nc, m2)"
    "new_state \<noteq> None"
    "state_init p (num_qubits s) False m2 = (Inr ns0, m3)"
    "ns' = (fst (snd (calculate_empty p s gate targets (fst (snd (copy_and_index p s ns0 C A nc)))
               (snd (snd (snd (copy_and_index p s ns0 C A nc)))) (fst (snd (snd (copy_and_index p s ns0 C A nc)))))))
             \<lparr>norm_const := sqrt (snd (snd (calculate_empty p s gate targets (fst (snd (copy_and_index p s ns0 C A nc)))
               (snd (snd (snd (copy_and_index p s ns0 C A nc)))) (fst (snd (snd (copy_and_index p s ns0 C A nc)))))))\<rparr>"
    "m' = free b (snd (alist_clear (snd (snd (snd (copy_and_index p s ns0 C A nc)))) m3))"
proof -
  obtain b m1 where 1: "malloc m = (Some b, m1)"
    using assms by (cases "malloc m" rule: prod.exhaust) (auto simp: apply_gate_def split: option.splits)
  obtain r2 m2 where e2: "alist_init (natural_array_size p) (drop_bit (length C + length A) (sv_size s)) m1 = (r2 :: doki_error + nat array_list, m2)"
    by (rule prod.exhaust)
  obtain nc where "r2 = Inr nc"
    using 1 e2 assms by (cases r2) (auto simp: apply_gate_def)
  with e2 have 2: "alist_init (natural_array_size p) (drop_bit (length C + length A) (sv_size s)) m1 = (Inr nc, m2)"
    by simp
  obtain d where 3: "new_state = Some d"
    using 1 2 assms by (cases new_state) (auto simp: apply_gate_def)
  obtain r4 m3 where e4: "state_init p (num_qubits s) False m2 = (r4, m3)"
    by (rule prod.exhaust)
  obtain ns0 where "r4 = Inr ns0"
    using 1 2 3 e4 assms by (cases r4) (auto simp: apply_gate_def)
  with e4 have 4: "state_init p (num_qubits s) False m2 = (Inr ns0, m3)"
    by simp
  show ?thesis
    using that [OF 1 2 _ 4] 1 2 3 4 assms
    by (simp add: apply_gate_def copy_and_index_eq calculate_empty_eq Let_def)
qed

lemma copy_calculate:
  assumes wf0: "sv_wf p ns0" and sz0: "sv_size ns0 = sv_size s"
    and wfnc: "alist_wf (complex_array_size p) nc"
    and L: "al_size nc = length (filter (\<lambda>i. \<not> copy_only C A i) [0..<sv_size s])"
    and ci: "copy_and_index p s ns0 C A nc = (code, ns1, nrm, nc1)"
    and ce: "calculate_empty p s gate targets ns1 nc1 nrm = (code', ns2, nrm')"
  shows "code = 0" and "code' = 0" and "sv_wf p ns2" and "sv_size ns2 = sv_size s"
    and "num_qubits ns2 = num_qubits ns0" and "al_blocks (sv_vector ns2) = al_blocks (sv_vector ns0)"
    and "al_blocks nc1 = al_blocks nc" and "num_chunks nc1 = num_chunks nc"
    and "k < sv_size s \<Longrightarrow> sv_raw p ns2 k = apply_gate_ref p s gate targets C A k"
    and "nrm' = (\<Sum>k < sv_size s. (cmod (apply_gate_ref p s gate targets C A k))\<^sup>2)"
proof -
  let ?cap = "complex_array_size p"
  let ?Fs = "filter (\<lambda>i. \<not> copy_only C A i) [0..<sv_size s]" and ?Fc = "filter (copy_only C A) [0..<sv_size s]"
  let ?ref = "apply_gate_ref p s gate targets C A"
  have c: "code = 0" "ns1 = foldl (\<lambda>r i. state_set p r i (state_get p s i)) ns0 ?Fc"
    "nrm = (\<Sum>i \<leftarrow> ?Fc. (cmod (state_get p s i))\<^sup>2)"
    "nc1 = foldl (\<lambda>r x. alist_set ?cap r (fst x) (snd x)) nc (zip [0..<length ?Fs] ?Fs)"
    using ci by (simp_all add: copy_and_index_eq)
  show "code = 0" by (rule c(1))
  have wf1: "alist_wf ?cap nc1" and sz1: "al_size nc1 = length ?Fs" using wfnc L by (simp_all add: c(4))
  show "al_blocks nc1 = al_blocks nc" "num_chunks nc1 = num_chunks nc" by (simp_all add: c(4))
  have "alist_list nc1 = ?Fs"
    using alist_list_zip_writes [OF wfnc, of 0 ?Fs] L alist_length_list [OF wfnc] by (simp add: c(4))
  then have get: "map (alist_get ?cap nc1) [0..<al_size nc1] = ?Fs"
    using wf1 sz1 by (intro nth_equalityI) (simp_all add: alist_get_list)
  have ce': "code' = 0" "ns2 = foldl (\<lambda>r x. state_set p r x (gate_amp p s gate targets x)) ns1 ?Fs"
    "nrm' = nrm + (\<Sum>x \<leftarrow> ?Fs. (cmod (gate_amp p s gate targets x))\<^sup>2)"
  proof -
    let ?g = "alist_get ?cap nc1"
    have "foldl (\<lambda>r i. state_set p r (?g i) (gate_amp p s gate targets (?g i))) ns1 [0..<al_size nc1] =
          foldl (\<lambda>r x. state_set p r x (gate_amp p s gate targets x)) ns1 (map ?g [0..<al_size nc1])"
      by (simp add: foldl_map)
    moreover have "(\<Sum>i \<leftarrow> [0..<al_size nc1]. (cmod (gate_amp p s gate targets (?g i)))\<^sup>2) =
          (\<Sum>x \<leftarrow> map ?g [0..<al_size nc1]. (cmod (gate_amp p s gate targets x))\<^sup>2)"
      by (simp add: o_def)
    ultimately show "code' = 0" "ns2 = foldl (\<lambda>r x. state_set p r x (gate_amp p s gate targets x)) ns1 ?Fs"
      "nrm' = nrm + (\<Sum>x \<leftarrow> ?Fs. (cmod (gate_amp p s gate targets x))\<^sup>2)"
      using ce by (simp_all only: get calculate_empty_eq prod.inject)
  qed
  show "code' = 0" by (rule ce'(1))
  have ns2: "ns2 = foldl (\<lambda>r x. state_set p r x (?ref x)) ns0 (?Fc @ ?Fs)"
    unfolding ce'(2) c(2) foldl_append
    by (intro foldl_cong refl) (auto simp: apply_gate_ref_def copy_only_iff)
  show "sv_wf p ns2" "sv_size ns2 = sv_size s" "num_qubits ns2 = num_qubits ns0"
    "al_blocks (sv_vector ns2) = al_blocks (sv_vector ns0)"
    using wf0 sz0 by (simp_all add: ns2)
  show "k < sv_size s \<Longrightarrow> sv_raw p ns2 k = ?ref k"
  proof -
    assume k: "k < sv_size s"
    have "k \<in> set (?Fc @ ?Fs)" using k by auto
    moreover have "\<forall>x \<in> set (?Fc @ ?Fs). id x < sv_size ns0" using sz0 by auto
    moreover have "distinct (map id (?Fc @ ?Fs))" by (auto simp: distinct_filter)
    ultimately show ?thesis
      using sv_raw_foldl_set_distinct(1) [OF wf0, of "?Fc @ ?Fs" id k ?ref] by (simp add: ns2)
  qed
  have "nrm' = (\<Sum>x \<leftarrow> ?Fc. (cmod (?ref x))\<^sup>2) + (\<Sum>x \<leftarrow> ?Fs. (cmod (?ref x))\<^sup>2)"
    unfolding ce'(3) c(3)
    by (intro arg_cong2 [where f = "(+)"] arg_cong [where f = sum_list] map_cong refl)
       (auto simp: apply_gate_ref_def copy_only_iff)
  also have "\<dots> = (\<Sum>k < sv_size s. (cmod (?ref k))\<^sup>2)"
    by (simp add: sum_list_filter_partition sum_set_upt_conv_sum_list_nat [symmetric] atLeast0LessThan)
  finally show "nrm' = (\<Sum>k < sv_size s. (cmod (?ref k))\<^sup>2)" .
qed

lemma apply_gate_Inr:
  assumes wf: "sv_wf p s" and cap: "0 < complex_array_size p"
    and same: "natural_array_size p = complex_array_size p" and fresh: "mem_fresh m"
    and roles: "distinct C" "distinct A" "set C \<inter> set A = {}" "set C \<union> set A \<subseteq> {..<num_qubits s}"
    and run: "apply_gate p s gate targets C A new_state m = (Inr ns', m')"
  shows "sv_wf p ns'" and "num_qubits ns' = num_qubits s" and "sv_size ns' = sv_size s"
    and "k < sv_size s \<Longrightarrow> sv_raw p ns' k = apply_gate_ref p s gate targets C A k"
    and "norm_const ns' = sqrt (\<Sum>k < sv_size s. (cmod (apply_gate_ref p s gate targets C A k))\<^sup>2)"
    and "mem_fresh m'" and "mem_live m' = mem_live m \<union> set (al_blocks (sv_vector ns'))"
proof -
  let ?cap = "complex_array_size p"
  obtain b nc ns0 m1 m2 m3 where
    1: "malloc m = (Some b, m1)" and
    2: "alist_init (natural_array_size p) (drop_bit (length C + length A) (sv_size s)) m1 = (Inr nc, m2)" and
    4: "state_init p (num_qubits s) False m2 = (Inr ns0, m3)" and
    ns': "ns' = (fst (snd (calculate_empty p s gate targets (fst (snd (copy_and_index p s ns0 C A nc)))
               (snd (snd (snd (copy_and_index p s ns0 C A nc)))) (fst (snd (snd (copy_and_index p s ns0 C A nc)))))))
             \<lparr>norm_const := sqrt (snd (snd (calculate_empty p s gate targets (fst (snd (copy_and_index p s ns0 C A nc)))
               (snd (snd (snd (copy_and_index p s ns0 C A nc)))) (fst (snd (snd (copy_and_index p s ns0 C A nc)))))))\<rparr>" and
    m': "m' = free b (snd (alist_clear (snd (snd (snd (copy_and_index p s ns0 C A nc)))) m3))"
    by (rule apply_gate_Inr_run [OF run])
  obtain code ns1 nrm nc1 where ci: "copy_and_index p s ns0 C A nc = (code, ns1, nrm, nc1)"
    by (cases "copy_and_index p s ns0 C A nc") auto
  obtain code' ns2 nrm' where ce: "calculate_empty p s gate targets ns1 nc1 nrm = (code', ns2, nrm')"
    by (cases "calculate_empty p s gate targets ns1 nc1 nrm") auto
  note a1 = mem_fresh_malloc [OF fresh 1]
  note a2 = alist_init_Inr [OF 2 [unfolded same] cap a1(1)]
  note a3 = state_init_Inr [OF 4 cap a2(8)]
  have N: "sv_size s = 2 ^ num_qubits s" using wf by (simp add: sv_wf_def)
  have L: "al_size nc = length (filter (\<lambda>i. \<not> copy_only C A i) [0..<sv_size s])"
    using a2(2) not_copy_count(1) [OF roles] N by simp
  have sz0: "sv_size ns0 = sv_size s" using a3(3) N by simp
  note cc = copy_calculate [OF a3(1) sz0 a2(1) L ci ce]
  have ns'': "ns' = ns2\<lparr>norm_const := sqrt nrm'\<rparr>" and m'': "m' = free b (snd (alist_clear nc1 m3))"
    using ns' m' ci ce by simp_all
  show "sv_wf p ns'" "num_qubits ns' = num_qubits s" "sv_size ns' = sv_size s"
    using cc a3 N by (simp_all add: ns'')
  show "k < sv_size s \<Longrightarrow> sv_raw p ns' k = apply_gate_ref p s gate targets C A k"
    using cc a3 N by (simp add: ns'')
  show "norm_const ns' = sqrt (\<Sum>k < sv_size s. (cmod (apply_gate_ref p s gate targets C A k))\<^sup>2)"
    using cc a3 N by (simp add: ns'')
  show "mem_fresh m'" using a3(6) by (simp add: m'' alist_clear_fresh mem_fresh_free)
  have blk: "length (al_blocks nc1) = Suc (num_chunks nc1)" using cc a2(7) by simp
  have "mem_live m' = mem_live m3 - set (al_blocks nc) - {b}"
    using alist_clear_live [OF blk] cc by (simp add: m'' mem_simps)
  also have "\<dots> = mem_live m \<union> set (al_blocks (sv_vector ns0))"
    using a1(4) [of b] a2(4,5) a3(7,8) by auto
  finally show "mem_live m' = mem_live m \<union> set (al_blocks (sv_vector ns'))"
    using cc a3 N by (simp add: ns'')
qed

lemma apply_gate_ok:
  assumes wf: "sv_wf p s" and cap: "0 < complex_array_size p"
    and same: "natural_array_size p = complex_array_size p" and ok: "\<forall>k. mem_ok m k"
    and roles: "distinct C" "distinct A" "set C \<inter> set A = {}" "set C \<union> set A \<subseteq> {..<num_qubits s}"
  shows "\<exists>ns' m'. apply_gate p s gate targets C A (Some d) m = (Inr ns', m')"
proof -
  let ?m1 = "m\<lparr>mem_calls := Suc (mem_calls m), mem_live := insert (mem_calls m) (mem_live m)\<rparr>"
  have 1: "malloc m = (Some (mem_calls m), ?m1)" using ok by (simp add: malloc_Some)
  have pos: "0 < drop_bit (length C + length A) (sv_size s)"
    using not_copy_count(2) [OF roles] wf by (simp add: sv_wf_def)
  obtain nc m2 where 2: "alist_init (natural_array_size p) (drop_bit (length C + length A) (sv_size s)) ?m1 =
      (Inr (nc :: nat array_list), m2)" and ok2: "\<forall>k. mem_ok m2 k"
    using alist_init_ok [where 'a = nat, of ?m1 "natural_array_size p" "drop_bit (length C + length A) (sv_size s)"]
      ok cap same pos by auto
  obtain ns0 m3 where 3: "state_init p (num_qubits s) False m2 = (Inr ns0, m3)"
    using state_init_ok [OF ok2 cap] by blast
  show ?thesis
    using 1 2 3 by (simp add: apply_gate_def copy_and_index_eq calculate_empty_eq Let_def)
qed

lemma gate_amp_identity:
  assumes "distinct targets" and "gate_size gate = 2 ^ length targets"
    and "\<forall>r < gate_size gate. \<forall>j < gate_size gate. gate_matrix gate ! r ! j = (if r = j then 1 else 0)"
  shows "gate_amp p s gate targets i = state_get p s i"
proof -
  let ?r = "gate_row targets i"
  have r: "?r < gate_size gate" using assms(2) gate_row_less by simp
  have "gate_amp p s gate targets i =
        (\<Sum>j < gate_size gate. if ?r = j then state_get p s (put_targets targets j i) else 0)"
    unfolding gate_amp_def using assms(3) r by (intro sum.cong refl) simp
  also have "\<dots> = state_get p s (put_targets targets ?r i)" using r by simp
  finally show ?thesis by (simp add: put_targets_gate_row [OF assms(1)])
qed

lemma calculate_empty_list:
  assumes "alist_wf (complex_array_size p) nc"
  shows "calculate_empty p s gate targets ns nc nrm =
           (0, foldl (\<lambda>r x. state_set p r x (gate_amp p s gate targets x)) ns (alist_list nc),
            nrm + (\<Sum>x \<leftarrow> alist_list nc. (cmod (gate_amp p s gate targets x))\<^sup>2))"
proof -
  let ?g = "alist_get (complex_array_size p) nc"
  have get: "map ?g [0..<al_size nc] = alist_list nc"
    using assms by (intro nth_equalityI) (simp_all add: alist_get_list alist_length_list)
  have "foldl (\<lambda>r i. state_set p r (?g i) (gate_amp p s gate targets (?g i))) ns [0..<al_size nc] =
        foldl (\<lambda>r x. state_set p r x (gate_amp p s gate targets x)) ns (map ?g [0..<al_size nc])"
    by (simp add: foldl_map)
  moreover have "(\<Sum>i \<leftarrow> [0..<al_size nc]. (cmod (gate_amp p s gate targets (?g i)))\<^sup>2) =
        (\<Sum>x \<leftarrow> map ?g [0..<al_size nc]. (cmod (gate_amp p s gate targets x))\<^sup>2)"
    by (simp add: o_def)
  ultimately show ?thesis by (simp only: get calculate_empty_eq)
qed

subsection \<open>Examples\<close>

lemma ex_s00_init: "fst (state_init ex_platform 2 True (mem_init (\<lambda>_. True))) = Inr ex_s00"
  unfolding ex_s00_def by code_simp

lemma ex_s00_facts: "sv_wf ex_platform ex_s00" "sv_size ex_s00 = 4" "num_qubits ex_s00 = 2"
  "sv_norm2 ex_platform ex_s00 = 1" "0 < complex_array_size ex_platform"
  "natural_array_size ex_platform = complex_array_size ex_platform"
  by (simp_all add: sv_wf_def alist_wf_def ex_s00_def ex_platform_def sv_norm2_def state_get_def
      alist_get_def lessThan_nat_numeral)

lemma ex_pauli_x_ref: "map (apply_gate_ref ex_platform ex_s00 pauli_x [0] [] []) [0..<4] = [0, 1, 0, 0]"
  unfolding ex_s00_def pauli_x_def ex_platform_def by code_simp

subsection \<open>Properties\<close>

text \<open>C1 (refinement). When \<open>apply_gate\<close> succeeds on a well-formed state with distinct,
  disjoint control and anticontrol qubits inside the register (and the two chunk capacities
  equal), the new state is well-formed, has the same qubits, stores at every index \<open>i\<close>
  exactly the reference amplitude (\<open>sum_j G[row(i)][j] * S[i with the target bits set to
  j]\<close> where the controls select \<open>i\<close>, \<open>S[i]\<close> elsewhere), and has \<open>norm_const\<close> the square
  root of the squared norm of those amplitudes.\<close>

theorem apply_gate_refines:
  assumes "sv_wf p s" and "0 < complex_array_size p" and "natural_array_size p = complex_array_size p"
    and "mem_fresh m" and "distinct C" and "distinct A" and "set C \<inter> set A = {}"
    and "set C \<union> set A \<subseteq> {..<num_qubits s}"
    and "apply_gate p s gate targets C A new_state m = (Inr ns', m')"
  shows "sv_wf p ns' \<and> num_qubits ns' = num_qubits s \<and>
         map (sv_raw p ns') [0..<sv_size s] = map (apply_gate_ref p s gate targets C A) [0..<sv_size s] \<and>
         norm_const ns' = sqrt (\<Sum>k < sv_size s. (cmod (apply_gate_ref p s gate targets C A k))\<^sup>2)"
  using apply_gate_Inr [OF assms] by simp

theorem apply_gate_refines_witness:
  "\<exists>ns' m'. apply_gate ex_platform ex_s00 pauli_x [0] [] [] (Some 9) (mem_init (\<lambda>_. True)) = (Inr ns', m') \<and>
     map (sv_raw ex_platform ns') [0..<4] = [0, 1, 0, 0]"
proof -
  have "\<exists>ns' m'. apply_gate ex_platform ex_s00 pauli_x [0] [] [] (Some 9) (mem_init (\<lambda>_. True)) = (Inr ns', m')"
    using apply_gate_ok [OF ex_s00_facts(1,5,6), where m = "mem_init (\<lambda>_. True)" and C = "[]" and A = "[]"
        and gate = pauli_x and targets = "[0]" and d = 9] by (simp add: mem_init_def ex_s00_facts(3))
  then obtain ns' m' where run: "apply_gate ex_platform ex_s00 pauli_x [0] [] [] (Some 9) (mem_init (\<lambda>_. True)) = (Inr ns', m')"
    by blast
  have "map (sv_raw ex_platform ns') [0..<4] = [0, 1, 0, 0]"
    using apply_gate_refines [OF ex_s00_facts(1,5,6) mem_fresh_init _ _ _ _ run] ex_pauli_x_ref ex_s00_facts(2)
    by simp
  with run show ?thesis by (intro exI [of _ ns'] exI [of _ m'] conjI)
qed

text \<open>Applying a gate whose matrix is the identity, with distinct targets and
  \<open>gate->size = 2 ^ num_targets\<close>, to a normalised state gives the same amplitudes (as
  read through \<open>state_get\<close>) and \<open>norm_const = 1\<close>.\<close>

theorem apply_gate_identity:
  assumes "sv_wf p s" and "0 < complex_array_size p" and "natural_array_size p = complex_array_size p"
    and "mem_fresh m" and "distinct C" and "distinct A" and "set C \<inter> set A = {}"
    and "set C \<union> set A \<subseteq> {..<num_qubits s}"
    and "distinct targets" and "gate_size gate = 2 ^ length targets"
    and "\<forall>r < gate_size gate. \<forall>j < gate_size gate. gate_matrix gate ! r ! j = (if r = j then 1 else 0)"
    and "sv_norm2 p s = 1"
    and "apply_gate p s gate targets C A new_state m = (Inr ns', m')"
  shows "norm_const ns' = 1 \<and> map (state_get p ns') [0..<sv_size s] = map (state_get p s) [0..<sv_size s]"
proof -
  note r = apply_gate_Inr [OF assms(1-8,13)]
  have ref: "apply_gate_ref p s gate targets C A k = state_get p s k" for k
    using gate_amp_identity [OF assms(9-11)] by (simp add: apply_gate_ref_def)
  have n: "norm_const ns' = 1"
    using r(5) assms(12) by (simp add: ref sv_norm2_def)
  show ?thesis
    using n r(4) by (simp add: state_get_raw ref)
qed

theorem apply_gate_identity_witness:
  "\<exists>ns' m'. apply_gate ex_platform ex_s00 gate_id1 [0] [] [] (Some 9) (mem_init (\<lambda>_. True)) = (Inr ns', m') \<and>
     norm_const ns' = 1 \<and> map (state_get ex_platform ns') [0..<4] = map (state_get ex_platform ex_s00) [0..<4]"
proof -
  have "\<exists>ns' m'. apply_gate ex_platform ex_s00 gate_id1 [0] [] [] (Some 9) (mem_init (\<lambda>_. True)) = (Inr ns', m')"
    using apply_gate_ok [OF ex_s00_facts(1,5,6), where m = "mem_init (\<lambda>_. True)" and C = "[]" and A = "[]"]
    by (simp add: mem_init_def ex_s00_facts(3))
  then obtain ns' m' where run: "apply_gate ex_platform ex_s00 gate_id1 [0] [] [] (Some 9) (mem_init (\<lambda>_. True)) = (Inr ns', m')"
    by blast
  have g: "\<forall>r < gate_size gate_id1. \<forall>j < gate_size gate_id1. gate_matrix gate_id1 ! r ! j = (if r = j then 1 else 0)"
    by (auto simp: gate_id1_def less_2_cases_iff)
  have "norm_const ns' = 1 \<and> map (state_get ex_platform ns') [0..<4] = map (state_get ex_platform ex_s00) [0..<4]"
    using apply_gate_identity [OF ex_s00_facts(1,5,6) mem_fresh_init _ _ _ _ _ _ g ex_s00_facts(4) run]
    by (simp add: ex_s00_facts gate_id1_def)
  with run show ?thesis by (intro exI [of _ ns'] exI [of _ m'] conjI) auto
qed

text \<open>End to end: Pauli-X on qubit 0 of the two-qubit state \<open>|00>\<close>, with no
  controls and enough memory, gives \<open>|01>\<close> (amplitude 1 at index 1) with \<open>norm_const = 1\<close>.\<close>

theorem apply_gate_pauli_x:
  "\<exists>ns' m'. apply_gate ex_platform ex_s00 pauli_x [0] [] [] (Some 9) (mem_init (\<lambda>_. True)) = (Inr ns', m') \<and>
     map (state_get ex_platform ns') [0..<4] = [0, 1, 0, 0] \<and> norm_const ns' = 1"
proof -
  have "\<exists>ns' m'. apply_gate ex_platform ex_s00 pauli_x [0] [] [] (Some 9) (mem_init (\<lambda>_. True)) = (Inr ns', m')"
    using apply_gate_ok [OF ex_s00_facts(1,5,6), where m = "mem_init (\<lambda>_. True)" and C = "[]" and A = "[]"]
    by (simp add: mem_init_def ex_s00_facts(3))
  then obtain ns' m' where run: "apply_gate ex_platform ex_s00 pauli_x [0] [] [] (Some 9) (mem_init (\<lambda>_. True)) = (Inr ns', m')"
    by blast
  note r = apply_gate_Inr [OF ex_s00_facts(1,5,6) mem_fresh_init _ _ _ _ run, simplified]
  have ref: "map (apply_gate_ref ex_platform ex_s00 pauli_x [0] [] []) [0..<4] = [0, 1, 0, 0]"
    by (rule ex_pauli_x_ref)
  have sum: "(\<Sum>k < 4. (cmod (apply_gate_ref ex_platform ex_s00 pauli_x [0] [] [] k))\<^sup>2) = 1"
  proof -
    have "apply_gate_ref ex_platform ex_s00 pauli_x [0] [] [] 0 = 0 \<and> apply_gate_ref ex_platform ex_s00 pauli_x [0] [] [] 1 = 1 \<and>
          apply_gate_ref ex_platform ex_s00 pauli_x [0] [] [] 2 = 0 \<and> apply_gate_ref ex_platform ex_s00 pauli_x [0] [] [] 3 = 0"
      using ref by (simp add: upt_rec eval_nat_numeral)
    then show ?thesis by (simp add: lessThan_nat_numeral)
  qed
  have n: "norm_const ns' = 1" using r(5) sum by (simp add: ex_s00_facts)
  have "map (state_get ex_platform ns') [0..<4] = map (apply_gate_ref ex_platform ex_s00 pauli_x [0] [] []) [0..<4]"
    using r(4) n by (intro map_cong) (simp_all add: state_get_raw ex_s00_facts)
  then have "map (state_get ex_platform ns') [0..<4] = [0, 1, 0, 0]" using ref by simp
  with run n show ?thesis by (intro exI [of _ ns'] exI [of _ m'] conjI) auto
qed

text \<open>C11 (functional). With distinct, disjoint control and anticontrol qubits inside the
  register, the list \<open>not_copy\<close> pre-sized by \<open>apply_gate\<close> to \<open>size >> (c + a)\<close> is filled
  exactly by \<open>copy_and_index\<close>: afterwards it holds the indices the controls select, in
  ascending order, and its size is \<open>2 ^ (n - c - a)\<close> (1 when \<open>c + a = n\<close>).\<close>

theorem copy_and_index_presize:
  assumes "sv_wf p s" and "distinct C" and "distinct A" and "set C \<inter> set A = {}"
    and "set C \<union> set A \<subseteq> {..<num_qubits s}"
    and "alist_wf (complex_array_size p) nc" and "al_size nc = drop_bit (length C + length A) (sv_size s)"
    and "copy_and_index p s ns C A nc = (code, ns1, nrm, nc1)"
  shows "alist_list nc1 = filter (ctrl_selected (set C) (set A)) [0..<sv_size s] \<and>
         al_size nc1 = 2 ^ (num_qubits s - length C - length A)"
proof -
  let ?Fs = "filter (\<lambda>i. \<not> copy_only C A i) [0..<sv_size s]"
  have N: "sv_size s = 2 ^ num_qubits s" using assms(1) by (simp add: sv_wf_def)
  have L: "al_size nc = length ?Fs" using assms(7) not_copy_count(1) [OF assms(2-5)] N by simp
  have nc1: "nc1 = foldl (\<lambda>r x. alist_set (complex_array_size p) r (fst x) (snd x)) nc (zip [0..<length ?Fs] ?Fs)"
    using assms(8) by (simp add: copy_and_index_eq)
  have "alist_list nc1 = ?Fs"
    using alist_list_zip_writes [OF assms(6), of 0 ?Fs] L alist_length_list [OF assms(6)] by (simp add: nc1)
  moreover have "al_size nc1 = 2 ^ (num_qubits s - length C - length A)"
    using assms(7) not_copy_count(2) [OF assms(2-5)] N by (simp add: nc1)
  ultimately show ?thesis by (simp add: copy_only_iff)
qed

theorem copy_and_index_presize_witness:
  "alist_list (snd (snd (snd (copy_and_index ex_platform ex_s00 ex_s00 [1] [] ex_nc2)))) = [2, 3]"
proof -
  have f: "filter (ctrl_selected (set [1]) (set [])) [0..<4] = [2, 3]" by code_simp
  have "alist_wf (complex_array_size ex_platform) ex_nc2" "al_size ex_nc2 = drop_bit (length [1::nat] + length ([]::nat list)) (sv_size ex_s00)"
    by (simp_all add: alist_wf_def ex_nc2_def ex_platform_def ex_s00_facts)
  moreover obtain code ns1 nrm nc1 where ci: "copy_and_index ex_platform ex_s00 ex_s00 [1] [] ex_nc2 = (code, ns1, nrm, nc1)"
    by (cases "copy_and_index ex_platform ex_s00 ex_s00 [1] [] ex_nc2") auto
  moreover have roles: "distinct [1::nat]" "distinct ([]::nat list)" "set [1::nat] \<inter> set [] = {}"
    "set [1::nat] \<union> set [] \<subseteq> {..<num_qubits ex_s00}"
    by (simp_all add: ex_s00_facts)
  ultimately have "alist_list nc1 = filter (ctrl_selected (set [1]) (set [])) [0..<sv_size ex_s00]"
    using copy_and_index_presize [OF ex_s00_facts(1) roles] by blast
  then show ?thesis using f ci by (simp add: ex_s00_facts)
qed

text \<open>C16 (liveness). With an allocator that never fails, a caller-supplied \<open>new_state\<close>
  and valid control roles, \<open>apply_gate\<close> returns a new state, and it releases its
  temporary list: the live blocks afterwards are those before plus the new state's store.\<close>

theorem apply_gate_succeeds:
  assumes "sv_wf p s" and "0 < complex_array_size p" and "natural_array_size p = complex_array_size p"
    and "mem_fresh m" and "\<forall>k. mem_ok m k" and "distinct C" and "distinct A" and "set C \<inter> set A = {}"
    and "set C \<union> set A \<subseteq> {..<num_qubits s}"
  shows "\<exists>ns' m'. apply_gate p s gate targets C A (Some d) m = (Inr ns', m') \<and>
           mem_live m' = mem_live m \<union> set (al_blocks (sv_vector ns'))"
proof -
  obtain ns' m' where run: "apply_gate p s gate targets C A (Some d) m = (Inr ns', m')"
    using apply_gate_ok [OF assms(1-3,5-9)] by blast
  show ?thesis
    using run apply_gate_Inr(7) [OF assms(1-4,6-9) run] by blast
qed

theorem apply_gate_succeeds_witness:
  "\<exists>ns' m'. apply_gate ex_platform ex_s00 pauli_x [0] [] [] (Some 9) (mem_init (\<lambda>_. True)) = (Inr ns', m') \<and>
     mem_live m' = {} \<union> set (al_blocks (sv_vector ns'))"
  using apply_gate_succeeds [OF ex_s00_facts(1,5,6) mem_fresh_init, where C = "[]" and A = "[]"]
  by (simp add: mem_init_def ex_s00_facts(3))

text \<open>C12 (equivalence). The result of \<open>calculate_empty\<close> does not depend on the order in
  which the free indices were appended to \<open>not_copy\<close>: two lists holding the same
  distinct indices give the same amplitudes and the same norm accumulator.\<close>

theorem calculate_empty_order_independent:
  assumes "sv_wf p ns" and "alist_wf (complex_array_size p) nc1" and "alist_wf (complex_array_size p) nc2"
    and "distinct (alist_list nc1)" and "distinct (alist_list nc2)"
    and "set (alist_list nc1) = set (alist_list nc2)" and "\<forall>i \<in> set (alist_list nc1). i < sv_size ns"
  shows "map (sv_raw p (fst (snd (calculate_empty p s gate targets ns nc1 nrm)))) [0..<sv_size ns] =
           map (sv_raw p (fst (snd (calculate_empty p s gate targets ns nc2 nrm)))) [0..<sv_size ns] \<and>
         snd (snd (calculate_empty p s gate targets ns nc1 nrm)) =
           snd (snd (calculate_empty p s gate targets ns nc2 nrm))"
proof -
  let ?g = "gate_amp p s gate targets"
  let ?w = "\<lambda>xs. foldl (\<lambda>r x. state_set p r x (?g x)) ns xs"
  have raw: "sv_raw p (?w xs) k = (if k \<in> set xs then ?g k else sv_raw p ns k)"
    if "distinct xs" "\<forall>i \<in> set xs. i < sv_size ns" "k < sv_size ns" for xs k
    using sv_raw_foldl_set_distinct [OF assms(1), where xs = xs and f = id and g = ?g] that by auto
  have "map (sv_raw p (?w (alist_list nc1))) [0..<sv_size ns] = map (sv_raw p (?w (alist_list nc2))) [0..<sv_size ns]"
    using assms(4-7) by (intro map_cong refl) (simp add: raw)
  moreover have "(\<Sum>x \<leftarrow> alist_list nc1. (cmod (?g x))\<^sup>2) = (\<Sum>x \<leftarrow> alist_list nc2. (cmod (?g x))\<^sup>2)"
    using assms(4-6) by (simp add: sum_list_distinct_conv_sum_set)
  ultimately show ?thesis
    by (simp add: calculate_empty_list [OF assms(2)] calculate_empty_list [OF assms(3)])
qed

theorem calculate_empty_order_independent_witness:
  "map (sv_raw ex_platform (fst (snd (calculate_empty ex_platform ex_s00 pauli_x [0] ex_s00 ex_nc13 0)))) [0..<4] =
     map (sv_raw ex_platform (fst (snd (calculate_empty ex_platform ex_s00 pauli_x [0] ex_s00 ex_nc31 0)))) [0..<4] \<and>
   snd (snd (calculate_empty ex_platform ex_s00 pauli_x [0] ex_s00 ex_nc13 0)) =
     snd (snd (calculate_empty ex_platform ex_s00 pauli_x [0] ex_s00 ex_nc31 0))"
proof -
  have h: "alist_wf (complex_array_size ex_platform) ex_nc13" "alist_wf (complex_array_size ex_platform) ex_nc31"
    "distinct (alist_list ex_nc13)" "distinct (alist_list ex_nc31)"
    "set (alist_list ex_nc13) = set (alist_list ex_nc31)" "\<forall>i \<in> set (alist_list ex_nc13). i < sv_size ex_s00"
    by (auto simp: alist_wf_def alist_list_def ex_nc13_def ex_nc31_def ex_platform_def ex_s00_facts)
  show ?thesis
    using calculate_empty_order_independent [OF ex_s00_facts(1) h, of ex_s00 pauli_x "[0]" 0]
    by (simp add: ex_s00_facts)
qed




text \<open>C21 (error). When \<open>state_init\<close> fails inside \<open>apply_gate\<close>, the error is returned and
  both the temporary list and the caller's \<open>new_state\<close> structure are freed.\<close>

theorem apply_gate_frees_destination:
  assumes "malloc m = (Some b, m1)"
    and "alist_init (natural_array_size p) (drop_bit (length C + length A) (sv_size s)) m1 =
           (Inr (nc :: nat array_list), m2)"
    and "state_init p (num_qubits s) False m2 = (Inl e, m3)"
    and "apply_gate p s gate targets C A (Some d) m = (r, m')"
  shows "r = Inl e \<and> d \<notin> mem_live m' \<and> b \<notin> mem_live m'"
proof -
  have "r = Inl e" and "m' = free d (free b (snd (alist_clear nc m3)))"
    using assms by (simp_all add: apply_gate_def)
  then show ?thesis by (simp add: free_live)
qed

theorem apply_gate_frees_destination_witness:
  "9 \<in> mem_live ex_mem13 \<and>
   fst (apply_gate ex_platform ex_s00 pauli_x [0] [] [] (Some 9) ex_mem13) = Inl Err_alloc_vector \<and>
   9 \<notin> mem_live (snd (apply_gate ex_platform ex_s00 pauli_x [0] [] [] (Some 9) ex_mem13))"
proof -
  let ?M1 = "\<lparr>mem_calls = 11, mem_live = {10, 9}, mem_ok = (\<lambda>k. k \<noteq> 13)\<rparr>"
  have m: "malloc ex_mem13 = (Some 10, ?M1)"
    by (simp add: malloc_def ex_mem13_def insert_commute)
  have a: "fst (alist_init 4 4 ?M1) =
      (Inr \<lparr>al_size = 4, num_chunks = 1, vector = [replicate 4 undefined], al_blocks = [11, 12]\<rparr>
        :: doki_error + nat array_list)"
    by code_simp
  obtain M2 where a': "alist_init 4 4 ?M1 =
      (Inr \<lparr>al_size = 4, num_chunks = 1, vector = [replicate 4 undefined], al_blocks = [11, 12]\<rparr>
        :: doki_error + nat array_list, M2)"
    using prod_eq_fst [OF a] by blast
  have si0: "fst (state_init ex_platform 2 False (snd (alist_init 4 4 ?M1 :: (doki_error + nat array_list) \<times> mem))) =
      Inl Err_alloc_vector"
    unfolding ex_platform_def by code_simp
  obtain M3 where si: "state_init ex_platform 2 False M2 = (Inl Err_alloc_vector, M3)"
    using prod_eq_fst [OF si0] a' by (metis snd_conv)
  have "fst (apply_gate ex_platform ex_s00 pauli_x [0] [] [] (Some 9) ex_mem13) = Inl Err_alloc_vector \<and>
        9 \<notin> mem_live (snd (apply_gate ex_platform ex_s00 pauli_x [0] [] [] (Some 9) ex_mem13))"
    using apply_gate_frees_destination [OF m _ _ prod.collapse [symmetric], where d = 9] a' si
    by (simp add: ex_s00_facts ex_platform_def)
  then show ?thesis by (simp add: ex_mem13_def)
qed

text \<open>With a NULL \<open>new_state\<close>, \<open>apply_gate\<close> returns an error and, unless the
  list size wrapped, leaves the heap as it found it (the temporary list is released).\<close>

theorem apply_gate_null_destination:
  assumes "mem_fresh m" and "0 < natural_array_size p"
    and "apply_gate p s gate targets C A None m = (r, m')" and "r \<noteq> Inl Err_undefined"
  shows "(\<exists>e. r = Inl e) \<and> mem_live m' = mem_live m"
proof (cases "malloc m" rule: prod.exhaust)
  case (Pair rb m1)
  note a1 = mem_fresh_malloc [OF assms(1) Pair]
  show ?thesis
  proof (cases rb)
    case None
    then show ?thesis using assms(3) Pair a1(5) by (auto simp: apply_gate_def)
  next
    case (Some b)
    obtain r2 m2 where e2: "alist_init (natural_array_size p) (drop_bit (length C + length A) (sv_size s)) m1 =
        (r2 :: doki_error + nat array_list, m2)" by (rule prod.exhaust)
    show ?thesis
    proof (cases r2)
      case (Inl e)
      then have "r = Inl e" "m' = free b m2" using assms(3) Pair Some e2 by (simp_all add: apply_gate_def)
      with alist_init_Inl(2) [OF e2 [unfolded Inl] a1(1)] a1(4) [OF Some] assms(4)
      show ?thesis by (auto simp: mem_simps)
    next
      case (Inr nc)
      note a2 = alist_init_Inr [OF e2 [unfolded Inr] assms(2) a1(1)]
      have "r = Inl Err_null_dest" "m' = free b (snd (alist_clear nc m2))"
        using assms(3) Pair Some e2 Inr by (simp_all add: apply_gate_def)
      then show ?thesis
        using alist_clear_live [OF a2(7)] a2(4,5) a1(4) [OF Some] by (auto simp: mem_simps)
    qed
  qed
qed

theorem apply_gate_null_destination_witness:
  "(\<exists>e. fst (apply_gate ex_platform ex_s00 pauli_x [0] [] [] None (mem_init (\<lambda>_. True))) = Inl e) \<and>
   mem_live (snd (apply_gate ex_platform ex_s00 pauli_x [0] [] [] None (mem_init (\<lambda>_. True)))) = {}"
proof -
  let ?M1 = "\<lparr>mem_calls = Suc 0, mem_live = {0}, mem_ok = (\<lambda>_. True)\<rparr>"
  have m: "malloc (mem_init (\<lambda>_. True)) = (Some 0, ?M1)"
    by (simp add: malloc_def mem_init_def)
  have a: "fst (alist_init 4 4 ?M1) =
      (Inr \<lparr>al_size = 4, num_chunks = 1, vector = [replicate 4 undefined], al_blocks = [1, 2]\<rparr>
        :: doki_error + nat array_list)"
    by code_simp
  obtain M2 where a': "alist_init 4 4 ?M1 =
      (Inr \<lparr>al_size = 4, num_chunks = 1, vector = [replicate 4 undefined], al_blocks = [1, 2]\<rparr>
        :: doki_error + nat array_list, M2)"
    using prod_eq_fst [OF a] by blast
  have r: "fst (apply_gate ex_platform ex_s00 pauli_x [0] [] [] None (mem_init (\<lambda>_. True))) = Inl Err_null_dest"
    by (simp add: apply_gate_def m a' ex_s00_facts ex_platform_def)
  have "natural_array_size ex_platform > 0" by (simp add: ex_platform_def)
  from apply_gate_null_destination [OF mem_fresh_init this prod.collapse [symmetric]] r
  show ?thesis by (simp add: mem_init_def)
qed

end
