(* ===== verification/Lazy.thy ===== *)
theory Lazy
  imports ApplyGate
begin

text \<open>
  The lazy adapters of qops.c: the density callback \<open>_densityFun\<close> (lines 413-440) and
  \<open>density_matrix\<close> (lines 747-774); the \<open>Application\<close> bundle (lines 442-466) with
  \<open>new_application\<close>, \<open>free_application\<close>, \<open>clone_application\<close> and
  \<open>size_application\<close> (lines 495-605); \<open>apply_gate_fmat\<close> (lines 607-634) and its
  callback \<open>_ApplyGateFunction\<close> (lines 636-728).
  The Python layer and the FunctionalMatrix library (funmatrix.c) are outside src/ and are
  modelled from the spec's construction interface:
  \<^item> a \<open>pyworld\<close> is the explicit store these functions act on: the allocator, the reference
    count of every Python capsule, the FunctionalMatrix or state vector a capsule holds
    (\<open>PyCapsule_GetPointer\<close>, \<open>None\<close> for a capsule of another kind), the \<open>Application\<close>
    structures by address (\<open>clone_application\<close> returns the same pointer, so handles alias)
    and \<open>errno\<close>;
  \<^item> a FunctionalMatrix of the caller is a value of a type variable \<open>'m\<close>, read through a
    \<open>getitem\<close> function and sized by \<open>rows\<close>, both parameters: the lemmas hold for any
    implementation meeting their hypotheses (a state or a lazy view of one), and
    \<open>dense_getitem\<close> is one such implementation for the examples;
  \<^item> \<open>new_functional_matrix\<close> allocates the handle (which may fail); \<open>fm_getitem\<close> is the
    FunctionalMatrix read of a handle built here: a bounds check, then the callback;
  \<^item> access to a freed \<open>Application\<close> is undefined behaviour, the value \<open>None\<close> of
    \<open>free_application\<close> and \<open>clone_application\<close>; a failed \<open>getitem\<close> in the callback is
    \<open>COMPLEX_NAN\<close>, the value \<open>None\<close> of \<open>apply_gate_function\<close>.
  \<open>app_life\<close> is the life of one \<open>Application\<close> as a step relation (creation, clones,
  releases): the invariant behind C13 is proved by rule induction over it, and C17 from
  that invariant by induction on the number of handles.
\<close>

text \<open>\<open>struct Application\<close>: an index array is its heap block (\<open>None\<close> for NULL) and its
  contents; \<open>num_targets\<close> and the other counts are the lengths of the lists.\<close>

record 'm application =
  app_state_capsule :: nat
  app_state :: 'm
  app_gate_capsule :: nat
  app_gate :: 'm
  app_targets :: "nat option \<times> nat list"
  app_controls :: "nat option \<times> nat list"
  app_anticontrols :: "nat option \<times> nat list"
  app_refcount :: nat

record 'm pyworld =
  w_mem :: mem
  w_refs :: "nat \<Rightarrow> nat"
  w_fmats :: "nat \<Rightarrow> 'm option"
  w_states :: "nat \<Rightarrow> state_vector option"
  w_apps :: "nat \<Rightarrow> 'm application option"
  w_errno :: nat

definition free_opt :: "nat option \<Rightarrow> mem \<Rightarrow> mem" where
  "free_opt b m = (case b of None \<Rightarrow> m | Some p \<Rightarrow> free p m)"

definition incref :: "nat \<Rightarrow> (nat \<Rightarrow> nat) \<Rightarrow> nat \<Rightarrow> nat" where
  "incref c r = r(c := Suc (r c))"

definition decref :: "nat \<Rightarrow> (nat \<Rightarrow> nat) \<Rightarrow> nat \<Rightarrow> nat" where
  "decref c r = r(c := r c - 1)"

definition new_application ::
  "'m pyworld \<Rightarrow> nat \<Rightarrow> nat \<Rightarrow> nat option \<times> nat list \<Rightarrow> nat option \<times> nat list \<Rightarrow> nat option \<times> nat list
   \<Rightarrow> nat option \<times> 'm pyworld" where
  "new_application w state_capsule gate_capsule targets controls anticontrols =
     (case malloc (w_mem w) of
        (None, m') \<Rightarrow> (None, w\<lparr>w_mem := m'\<rparr>)
      | (Some data, m') \<Rightarrow>
          (case w_fmats w state_capsule of
             None \<Rightarrow> (None, w\<lparr>w_mem := m', w_errno := 4\<rparr>)
           | Some state \<Rightarrow>
               (case w_fmats w gate_capsule of
                  None \<Rightarrow> (None, w\<lparr>w_mem := m', w_errno := 3\<rparr>)
                | Some gate \<Rightarrow>
                    (Some data,
                     w\<lparr>w_mem := m',
                       w_refs := incref gate_capsule (incref state_capsule (w_refs w)),
                       w_apps := (w_apps w)(data \<mapsto>
                         \<lparr>app_state_capsule = state_capsule, app_state = state,
                          app_gate_capsule = gate_capsule, app_gate = gate,
                          app_targets = targets, app_controls = controls,
                          app_anticontrols = anticontrols, app_refcount = 1\<rparr>)\<rparr>))))"

definition free_application :: "'m pyworld \<Rightarrow> nat option \<Rightarrow> 'm pyworld option" where
  "free_application w raw_app =
     (case raw_app of
        None \<Rightarrow> Some w
      | Some data \<Rightarrow>
          (case w_apps w data of
             None \<Rightarrow> None
           | Some a \<Rightarrow>
               (let refcount = app_refcount a - 1
                in if refcount = 0
                   then Some (w\<lparr>w_refs := decref (app_gate_capsule a) (decref (app_state_capsule a) (w_refs w)),
                                w_mem := free data (free_opt (fst (app_anticontrols a))
                                           (free_opt (fst (app_controls a))
                                             (free_opt (fst (app_targets a)) (w_mem w)))),
                                w_apps := (w_apps w)(data := None)\<rparr>)
                   else Some (w\<lparr>w_apps := (w_apps w)(data \<mapsto> a\<lparr>app_refcount := refcount\<rparr>)\<rparr>))))"

definition clone_application :: "'m pyworld \<Rightarrow> nat option \<Rightarrow> (nat option \<times> 'm pyworld) option" where
  "clone_application w raw_app =
     (case raw_app of
        None \<Rightarrow> Some (None, w)
      | Some data \<Rightarrow>
          (case w_apps w data of
             None \<Rightarrow> None
           | Some a \<Rightarrow> Some (Some data, w\<lparr>w_apps := (w_apps w)(data \<mapsto> a\<lparr>app_refcount := Suc (app_refcount a)\<rparr>)\<rparr>)))"

definition size_application :: "nat \<Rightarrow> ('m \<Rightarrow> nat) \<Rightarrow> 'm pyworld \<Rightarrow> nat option \<Rightarrow> nat option" where
  "size_application sizeof_app fm_mem_size w raw_app =
     (case raw_app of
        None \<Rightarrow> Some 0
      | Some data \<Rightarrow>
          (case w_apps w data of
             None \<Rightarrow> None
           | Some a \<Rightarrow> Some (sizeof_app + fm_mem_size (app_state a) + fm_mem_size (app_gate a)
                          + length (snd (app_targets a)) * 4 + length (snd (app_controls a)) * 4
                          + length (snd (app_anticontrols a)) * 4)))"

definition apply_gate_function ::
  "('m \<Rightarrow> nat \<Rightarrow> nat \<Rightarrow> complex option) \<Rightarrow> ('m \<Rightarrow> nat) \<Rightarrow> 'm application \<Rightarrow> nat \<Rightarrow> complex option" where
  "apply_gate_function getitem rows data i =
     (if list_ex (\<lambda>c. i AND push_bit c 1 = 0) (snd (app_controls data)) then getitem (app_state data) i 0
      else if list_ex (\<lambda>a. i AND push_bit a 1 \<noteq> 0) (snd (app_anticontrols data)) then getitem (app_state data) i 0
      else fst (foldl (\<lambda>(val, reg_index) n.
                  let (row, reg_index') = foldl (target_step (snd (app_targets data)) i n) (0, reg_index)
                                            [0..<length (snd (app_targets data))]
                  in (case (val, getitem (app_state data) reg_index' 0, getitem (app_gate data) row n) of
                        (Some v, Some aux, Some aux2) \<Rightarrow> Some (v + aux * aux2)
                      | _ \<Rightarrow> None, reg_index'))
                (Some 0, i) [0..<rows (app_gate data)]))"

datatype fm_callback = CB_apply_gate | CB_density

record fmat_handle =
  fm_block :: nat
  fm_rows :: nat
  fm_cols :: nat
  fm_fun :: fm_callback
  fm_context :: nat

definition new_functional_matrix ::
  "mem \<Rightarrow> nat \<Rightarrow> nat \<Rightarrow> fm_callback \<Rightarrow> nat \<Rightarrow> fmat_handle option \<times> mem" where
  "new_functional_matrix m r c f context =
     (case malloc m of
        (None, m') \<Rightarrow> (None, m')
      | (Some b, m') \<Rightarrow> (Some \<lparr>fm_block = b, fm_rows = r, fm_cols = c, fm_fun = f, fm_context = context\<rparr>, m'))"

definition apply_gate_fmat ::
  "('m \<Rightarrow> nat) \<Rightarrow> 'm pyworld \<Rightarrow> nat \<Rightarrow> nat \<Rightarrow> nat option \<times> nat list \<Rightarrow> nat option \<times> nat list
   \<Rightarrow> nat option \<times> nat list \<Rightarrow> fmat_handle option \<times> 'm pyworld" where
  "apply_gate_fmat rows w state_capsule gate_capsule targets controls anticontrols =
     (case new_application w state_capsule gate_capsule targets controls anticontrols of
        (None, w1) \<Rightarrow> (None, w1\<lparr>w_errno := 5\<rparr>)
      | (Some data, w1) \<Rightarrow>
          (case w_apps w1 data of
             None \<Rightarrow> (None, w1)
           | Some a \<Rightarrow>
               (case new_functional_matrix (w_mem w1) (rows (app_state a)) 1 CB_apply_gate data of
                  (None, m2) \<Rightarrow>
                    (let w2 = w1\<lparr>w_mem := m2, w_errno := 1\<rparr>
                     in (None, case free_application w2 (Some data) of None \<Rightarrow> w2 | Some w3 \<Rightarrow> w3))
                | (Some pFM, m2) \<Rightarrow> (Some pFM, w1\<lparr>w_mem := m2\<rparr>))))"

definition density_fun :: "platform \<Rightarrow> 'm pyworld \<Rightarrow> nat \<Rightarrow> nat \<Rightarrow> nat \<Rightarrow> complex option" where
  "density_fun p w rawstate i j =
     (case w_states w rawstate of
        None \<Rightarrow> None
      | Some state \<Rightarrow> Some (state_get p state i * cnj (state_get p state j)))"

text \<open>\<open>size_state_capsule\<close>: the size callback of a density matrix. A null capsule has
  size 0; a capsule that holds no state vector makes \<open>state_mem_size\<close> read through a
  null pointer (\<open>None\<close>). \<open>state_mem_size\<close> is in qstate.c, outside the sources, and is
  a parameter.\<close>

definition size_state_capsule :: "(state_vector \<Rightarrow> nat) \<Rightarrow> 'm pyworld \<Rightarrow> nat option \<Rightarrow> nat option" where
  "size_state_capsule state_mem_size w raw_capsule =
     (case raw_capsule of
        None \<Rightarrow> Some 0
      | Some capsule \<Rightarrow> map_option state_mem_size (w_states w capsule))"

definition density_matrix :: "'m pyworld \<Rightarrow> nat \<Rightarrow> fmat_handle option \<times> 'm pyworld" where
  "density_matrix w state_capsule =
     (case w_states w state_capsule of
        None \<Rightarrow> (None, w\<lparr>w_errno := 2\<rparr>)
      | Some state \<Rightarrow>
          (case new_functional_matrix (w_mem w) (sv_size state) (sv_size state) CB_density state_capsule of
             (None, m') \<Rightarrow> (None, w\<lparr>w_mem := m', w_errno := 1\<rparr>)
           | (Some dm, m') \<Rightarrow> (Some dm, w\<lparr>w_mem := m', w_refs := incref state_capsule (w_refs w)\<rparr>)))"

definition fm_getitem ::
  "platform \<Rightarrow> ('m \<Rightarrow> nat \<Rightarrow> nat \<Rightarrow> complex option) \<Rightarrow> ('m \<Rightarrow> nat) \<Rightarrow> 'm pyworld \<Rightarrow> fmat_handle
   \<Rightarrow> nat \<Rightarrow> nat \<Rightarrow> complex option" where
  "fm_getitem p getitem rows w h i j =
     (if i < fm_rows h \<and> j < fm_cols h
      then (case fm_fun h of
              CB_apply_gate \<Rightarrow> (case w_apps w (fm_context h) of
                                 None \<Rightarrow> None
                               | Some data \<Rightarrow> apply_gate_function getitem rows data i)
            | CB_density \<Rightarrow> density_fun p w (fm_context h) i j)
      else None)"

text \<open>The life of the \<open>Application\<close> \<open>data\<close> made by \<open>new_application\<close> in \<open>w0\<close>: the
  world and the number of handles that share it.\<close>

inductive app_life ::
  "'m pyworld \<Rightarrow> nat \<Rightarrow> nat \<Rightarrow> nat option \<times> nat list \<Rightarrow> nat option \<times> nat list \<Rightarrow> nat option \<times> nat list
   \<Rightarrow> nat \<Rightarrow> 'm pyworld \<Rightarrow> nat \<Rightarrow> bool"
  for w0 sc gc targets controls anticontrols data
where
  create: "new_application w0 sc gc targets controls anticontrols = (Some data, w) \<Longrightarrow>
           app_life w0 sc gc targets controls anticontrols data w 1"
| clone: "app_life w0 sc gc targets controls anticontrols data w h \<Longrightarrow>
          clone_application w (Some data) = Some (Some data, w') \<Longrightarrow>
          app_life w0 sc gc targets controls anticontrols data w' (Suc h)"
| release: "app_life w0 sc gc targets controls anticontrols data w h \<Longrightarrow>
            free_application w (Some data) = Some w' \<Longrightarrow>
            app_life w0 sc gc targets controls anticontrols data w' (h - 1)"

definition dense_getitem :: "complex list list \<Rightarrow> nat \<Rightarrow> nat \<Rightarrow> complex option" where
  "dense_getitem M r c = (if r < length M \<and> c < length (M ! r) then Some (M ! r ! c) else None)"

definition ex_pyworld :: "complex list list pyworld" where
  "ex_pyworld = \<lparr>w_mem = \<lparr>mem_calls = 3, mem_live = {0, 1, 2}, mem_ok = (\<lambda>_. True)\<rparr>,
     w_refs = (\<lambda>_. 1), w_fmats = (\<lambda>_. None)(1 := Some [[1], [0], [0], [0]], 2 := Some [[0, 1], [1, 0]]),
     w_states = (\<lambda>_. None)(3 := Some ex_s00), w_apps = (\<lambda>_. None), w_errno = 0\<rparr>"

text \<open>The same world with an allocator that fails on its fifth call (the functional
  matrix allocated after the application).\<close>

definition ex_pyworld_fail :: "complex list list pyworld" where
  "ex_pyworld_fail = ex_pyworld\<lparr>w_mem := (w_mem ex_pyworld)\<lparr>mem_ok := (\<lambda>k. k \<noteq> 4)\<rparr>\<rparr>"

subsection \<open>Lemmas\<close>

lemma put_targets_less:
  assumes "i < 2 ^ n" and "set ts \<subseteq> {..<n}"
  shows "put_targets ts j i < (2::nat) ^ n"
proof -
  have "take_bit n (put_targets ts j i) = put_targets ts j i"
  proof (rule bit_eqI)
    fix b
    show "bit (take_bit n (put_targets ts j i)) b = bit (put_targets ts j i) b"
    proof (cases "b < n")
      case False
      then have "b \<notin> set ts" using assms(2) by auto
      then have "bit (put_targets ts j i) b = bit i b" by (rule put_targets_outside)
      moreover have "i < 2 ^ b"
        using assms(1) False by (meson less_le_trans not_less one_le_numeral power_increasing)
      ultimately show ?thesis using False by (simp add: bit_take_bit_iff bit_low_range)
    qed (simp add: bit_take_bit_iff)
  qed
  then show ?thesis by (simp add: take_bit_nat_eq_self_iff)
qed

lemma lazy_sum_loop:
  assumes "\<forall>b. b \<notin> set ts \<longrightarrow> bit g b = bit i b"
    and "\<forall>n \<in> set xs. getitem st (put_targets ts n i) 0 = Some (f (put_targets ts n i))"
    and "\<forall>n \<in> set xs. getitem gt (gate_row ts i) n = Some (M n)"
  shows "fst (foldl (\<lambda>(val, reg_index) n.
             let (row, reg_index') = foldl (target_step ts i n) (0, reg_index) [0..<length ts]
             in (case (val, getitem st reg_index' 0, getitem gt row n) of
                   (Some v, Some aux, Some aux2) \<Rightarrow> Some (v + aux * aux2)
                 | _ \<Rightarrow> None, reg_index'))
           (Some v0, g) xs) =
         Some (v0 + (\<Sum>n \<leftarrow> xs. f (put_targets ts n i) * M n))"
  using assms
proof (induction xs arbitrary: v0 g)
  case Nil
  then show ?case by simp
next
  case (Cons n xs)
  have eq: "put_targets ts n g = put_targets ts n i"
    by (rule put_targets_cong) (use Cons.prems(1) in blast)
  have "\<forall>b. b \<notin> set ts \<longrightarrow> bit (put_targets ts n g) b = bit i b"
    using Cons.prems(1) by (simp add: put_targets_outside)
  then show ?case using Cons.IH Cons.prems(2,3) by (simp add: target_loop eq add.assoc)
qed

lemma apply_gate_function_ref:
  assumes wf: "sv_wf p s" and i: "i < sv_size s"
    and st: "\<forall>r < sv_size s. getitem (app_state data) r 0 = Some (state_get p s r)"
    and gt: "\<forall>r < gate_size gate. \<forall>c < gate_size gate. getitem (app_gate data) r c = Some (gate_matrix gate ! r ! c)"
    and rows: "rows (app_gate data) = gate_size gate" and gs: "gate_size gate = 2 ^ length (snd (app_targets data))"
    and tq: "set (snd (app_targets data)) \<subseteq> {..<num_qubits s}"
  shows "apply_gate_function getitem rows data i =
           Some (apply_gate_ref p s gate (snd (app_targets data)) (snd (app_controls data)) (snd (app_anticontrols data)) i)"
proof -
  let ?ts = "snd (app_targets data)" and ?C = "snd (app_controls data)" and ?A = "snd (app_anticontrols data)"
  have N: "sv_size s = 2 ^ num_qubits s" using wf by (simp add: sv_wf_def)
  show ?thesis
  proof (cases "ctrl_selected (set ?C) (set ?A) i")
    case False
    then have "copy_only ?C ?A i" by (simp add: copy_only_iff)
    then show ?thesis using False st i
      by (auto simp: apply_gate_function_def apply_gate_ref_def copy_only_def)
  next
    case True
    then have nc: "\<not> copy_only ?C ?A i" by (simp add: copy_only_iff)
    have row: "gate_row ?ts i < gate_size gate" using gs gate_row_less by simp
    have put: "put_targets ?ts n i < sv_size s" for n
      using put_targets_less [of i "num_qubits s" ?ts n] i tq N by simp
    have "fst (foldl (\<lambda>(val, reg_index) n.
             let (row, reg_index') = foldl (target_step ?ts i n) (0, reg_index) [0..<length ?ts]
             in (case (val, getitem (app_state data) reg_index' 0, getitem (app_gate data) row n) of
                   (Some v, Some aux, Some aux2) \<Rightarrow> Some (v + aux * aux2)
                 | _ \<Rightarrow> None, reg_index'))
           (Some 0, i) [0..<gate_size gate]) =
          Some (0 + (\<Sum>n \<leftarrow> [0..<gate_size gate]. state_get p s (put_targets ?ts n i) * gate_matrix gate ! gate_row ?ts i ! n))"
      by (rule lazy_sum_loop) (use st gt put row in auto)
    then show ?thesis using nc True
      by (simp add: apply_gate_function_def apply_gate_ref_def gate_amp_def copy_only_def rows
          sum_set_upt_conv_sum_list_nat [symmetric] atLeast0LessThan)
  qed
qed

lemma decref_incref: "decref y (decref x (incref y (incref x r))) = r"
  by (auto simp: incref_def decref_def fun_eq_iff)

lemma new_application_Some:
  assumes "new_application w sc gc t c a = (Some d, w')"
  shows "d = mem_calls (w_mem w)" and "mem_live (w_mem w') = insert d (mem_live (w_mem w))"
    and "w_refs w' = incref gc (incref sc (w_refs w))"
    and "\<exists>st g. w_fmats w sc = Some st \<and> w_fmats w gc = Some g \<and>
           w_apps w' = (w_apps w)(d \<mapsto> \<lparr>app_state_capsule = sc, app_state = st, app_gate_capsule = gc,
             app_gate = g, app_targets = t, app_controls = c, app_anticontrols = a, app_refcount = 1\<rparr>)"
  using assms by (auto simp: new_application_def malloc_def Let_def split: if_splits option.splits)

lemma clone_application_Some:
  assumes "clone_application w (Some d) = Some (r, w')"
  obtains ap where "w_apps w d = Some ap" and "r = Some d"
    and "w' = w\<lparr>w_apps := (w_apps w)(d \<mapsto> ap\<lparr>app_refcount := Suc (app_refcount ap)\<rparr>)\<rparr>"
  using assms by (auto simp: clone_application_def split: option.splits)

lemma free_application_Some:
  assumes "free_application w (Some d) = Some w'"
  obtains ap where "w_apps w d = Some ap" and "app_refcount ap \<le> 1"
    and "w' = w\<lparr>w_refs := decref (app_gate_capsule ap) (decref (app_state_capsule ap) (w_refs w)),
                 w_mem := free d (free_opt (fst (app_anticontrols ap)) (free_opt (fst (app_controls ap))
                            (free_opt (fst (app_targets ap)) (w_mem w)))),
                 w_apps := (w_apps w)(d := None)\<rparr>"
  | ap where "w_apps w d = Some ap" and "1 < app_refcount ap"
    and "w' = w\<lparr>w_apps := (w_apps w)(d \<mapsto> ap\<lparr>app_refcount := app_refcount ap - 1\<rparr>)\<rparr>"
  using assms by (cases "w_apps w d") (auto simp: free_application_def Let_def split: if_splits)

lemma free_opt_live: "mem_live (free_opt b m) = mem_live m - set_option b"
  by (cases b) (simp_all add: free_opt_def free_live)

lemma app_life_created:
  "app_life w0 sc gc t c a d w h \<Longrightarrow> \<exists>w1. new_application w0 sc gc t c a = (Some d, w1)"
  by (induction rule: app_life.induct) auto

lemma app_life_inv:
  assumes "app_life w0 sc gc t c a d w h" and "mem_fresh (w_mem w0)"
  shows "(0 < h \<longrightarrow> (\<exists>ap. w_apps w d = Some ap \<and> app_refcount ap = h \<and> app_state_capsule ap = sc \<and>
                        app_gate_capsule ap = gc \<and> app_targets ap = t \<and> app_controls ap = c \<and>
                        app_anticontrols ap = a) \<and>
                    w_refs w = incref gc (incref sc (w_refs w0)) \<and>
                    mem_live (w_mem w) = insert d (mem_live (w_mem w0))) \<and>
         (h = 0 \<longrightarrow> w_apps w d = None \<and> w_refs w = w_refs w0 \<and>
                    mem_live (w_mem w) = mem_live (w_mem w0) - set_option (fst t) - set_option (fst c)
                                           - set_option (fst a))"
  using assms(1)
proof (induction rule: app_life.induct)
  case (create w)
  note n = new_application_Some [OF create]
  from n(4) obtain st g where "w_apps w = (w_apps w0)(d \<mapsto> \<lparr>app_state_capsule = sc, app_state = st, app_gate_capsule = gc,
             app_gate = g, app_targets = t, app_controls = c, app_anticontrols = a, app_refcount = 1\<rparr>)"
    by blast
  then show ?case using n(2,3) by simp
next
  case (clone w h w')
  obtain ap where ap: "w_apps w d = Some ap" and w': "w' = w\<lparr>w_apps := (w_apps w)(d \<mapsto> ap\<lparr>app_refcount := Suc (app_refcount ap)\<rparr>)\<rparr>"
    by (rule clone_application_Some [OF clone.hyps(2)])
  have "0 < h" using clone.IH ap by (cases h) auto
  then show ?case using clone.IH ap by (auto simp: w')
next
  case (release w h w')
  obtain w1 where "new_application w0 sc gc t c a = (Some d, w1)"
    using app_life_created [OF release.hyps(1)] by blast
  then have d: "d \<notin> mem_live (w_mem w0)"
    using assms(2) by (auto simp: mem_fresh_def dest!: new_application_Some(1))
  show ?case
  proof (cases rule: free_application_Some [OF release.hyps(2)])
    case (1 ap)
    with release.IH have h: "h = 1" and ap: "app_refcount ap = h" "app_state_capsule ap = sc" "app_gate_capsule ap = gc"
      "app_targets ap = t" "app_controls ap = c" "app_anticontrols ap = a"
      by (cases h; auto)+
    show ?thesis using 1(3) release.IH h ap d by (auto simp: decref_incref free_live free_opt_live)
  next
    case (2 ap)
    with release.IH have "1 < h" by (cases h) auto
    then show ?thesis using 2 release.IH by auto
  qed
qed

lemma app_life_release:
  assumes "app_life w0 sc gc t c a d w h" and "mem_fresh (w_mem w0)" and "0 < h"
  shows "\<exists>w'. free_application w (Some d) = Some w' \<and> app_life w0 sc gc t c a d w' (h - 1)"
proof -
  obtain ap where "w_apps w d = Some ap" using app_life_inv [OF assms(1,2)] assms(3) by blast
  then have "\<exists>w'. free_application w (Some d) = Some w'"
    by (simp add: free_application_def Let_def)
  then obtain w' where "free_application w (Some d) = Some w'" by blast
  with app_life.release [OF assms(1)] show ?thesis by blast
qed

lemma density_sum_factor:
  "(\<Sum>i < N. \<Sum>j < N. cnj (x i) * (a i * cnj (a j)) * x j) =
   complex_of_real ((cmod (\<Sum>i < N. cnj (x i) * a i))\<^sup>2)"
proof -
  have "(\<Sum>i < N. \<Sum>j < N. cnj (x i) * (a i * cnj (a j)) * x j) =
        (\<Sum>i < N. cnj (x i) * a i) * cnj (\<Sum>j < N. cnj (x j) * a j)"
    by (simp add: sum_product mult_ac)
  also have "\<dots> = complex_of_real ((cmod (\<Sum>i < N. cnj (x i) * a i))\<^sup>2)"
    by (rule complex_norm_square [symmetric])
  finally show ?thesis .
qed

lemma apply_gate_fmat_Some:
  assumes "apply_gate_fmat rows w sc gc t c a = (Some h, w')"
  shows "\<exists>st g. w_fmats w sc = Some st \<and> w_fmats w gc = Some g \<and> fm_rows h = rows st \<and> fm_cols h = 1 \<and>
           fm_fun h = CB_apply_gate \<and>
           w_apps w' (fm_context h) = Some \<lparr>app_state_capsule = sc, app_state = st, app_gate_capsule = gc,
             app_gate = g, app_targets = t, app_controls = c, app_anticontrols = a, app_refcount = 1\<rparr>"
proof -
  obtain d w1 where n: "new_application w sc gc t c a = (Some d, w1)"
    using assms by (cases "new_application w sc gc t c a") (auto simp: apply_gate_fmat_def split: option.splits)
  obtain st g where stg: "w_fmats w sc = Some st" "w_fmats w gc = Some g"
    and apps: "w_apps w1 = (w_apps w)(d \<mapsto> \<lparr>app_state_capsule = sc, app_state = st, app_gate_capsule = gc,
             app_gate = g, app_targets = t, app_controls = c, app_anticontrols = a, app_refcount = 1\<rparr>)"
    using new_application_Some(4) [OF n] by blast
  show ?thesis
    using assms n stg apps
    by (auto simp: apply_gate_fmat_def new_functional_matrix_def Let_def split: prod.splits option.splits)
qed

lemma ex_app_created:
  obtains w where "app_life ex_pyworld 1 2 (Some 0, [0]) (None, []) (None, []) 3 w 1"
proof -
  have "\<exists>w. new_application ex_pyworld 1 2 (Some 0, [0]) (None, []) (None, []) = (Some 3, w)"
    by (simp add: new_application_def malloc_def ex_pyworld_def)
  then show ?thesis using app_life.create that by blast
qed

lemma ex_world_fresh: "mem_fresh (w_mem ex_pyworld)"
  by (simp add: mem_fresh_def ex_pyworld_def)

subsection \<open>Properties\<close>

text \<open>C2 (equivalence). The two evaluation strategies agree: when \<open>apply_gate\<close> (eager)
  succeeds and \<open>apply_gate_fmat\<close> (lazy) builds its functional matrix over capsules whose
  \<open>getitem\<close> reads the same state and gate, every entry \<open>(i, 0)\<close> of the lazy matrix,
  computed by \<open>_ApplyGateFunction\<close>, is the amplitude the eager engine stores at \<open>i\<close>.\<close>

theorem lazy_apply_gate_matches_eager:
  assumes "sv_wf p s" and "0 < complex_array_size p" and "natural_array_size p = complex_array_size p"
    and "mem_fresh m" and "distinct C" and "distinct A" and "set C \<inter> set A = {}"
    and "set C \<union> set A \<subseteq> {..<num_qubits s}"
    and "apply_gate p s gate targets C A new_state m = (Inr ns', m')"
    and "apply_gate_fmat rows w sc gc (tb, targets) (cb, C) (ab, A) = (Some h, w')"
    and "w_fmats w sc = Some st" and "rows st = sv_size s" and "\<forall>r < sv_size s. getitem st r 0 = Some (state_get p s r)"
    and "w_fmats w gc = Some gt" and "rows gt = gate_size gate"
    and "\<forall>r < gate_size gate. \<forall>c < gate_size gate. getitem gt r c = Some (gate_matrix gate ! r ! c)"
    and "gate_size gate = 2 ^ length targets" and "set targets \<subseteq> {..<num_qubits s}"
    and "i < sv_size s"
  shows "fm_getitem p getitem rows w' h i 0 = Some (sv_raw p ns' i)"
proof -
  note f = apply_gate_fmat_Some [OF assms(10)]
  let ?app = "\<lparr>app_state_capsule = sc, app_state = st, app_gate_capsule = gc, app_gate = gt,
                app_targets = (tb, targets), app_controls = (cb, C), app_anticontrols = (ab, A), app_refcount = 1\<rparr>"
  have h: "fm_rows h = sv_size s" "fm_cols h = 1" "fm_fun h = CB_apply_gate" "w_apps w' (fm_context h) = Some ?app"
    using f assms(11,12,14) by auto
  have "apply_gate_function getitem rows ?app i = Some (apply_gate_ref p s gate targets C A i)"
    using apply_gate_function_ref [of p s i getitem ?app gate rows] assms(1,13,15-19) by simp
  then show ?thesis
    using h assms(19) apply_gate_Inr(4) [OF assms(1-9,19)] by (simp add: fm_getitem_def)
qed

theorem lazy_apply_gate_matches_eager_witness:
  "\<exists>h w' ns' m'. apply_gate_fmat length ex_pyworld 1 2 (Some 0, [0]) (None, []) (None, []) = (Some h, w') \<and>
     apply_gate ex_platform ex_s00 pauli_x [0] [] [] (Some 9) (mem_init (\<lambda>_. True)) = (Inr ns', m') \<and>
     fm_getitem ex_platform dense_getitem length w' h 1 0 = Some (sv_raw ex_platform ns' 1)"
proof -
  have "\<exists>ns' m'. apply_gate ex_platform ex_s00 pauli_x [0] [] [] (Some 9) (mem_init (\<lambda>_. True)) = (Inr ns', m')"
    using apply_gate_ok [OF ex_s00_facts(1,5,6), where m = "mem_init (\<lambda>_. True)" and C = "[]" and A = "[]"]
    by (simp add: mem_init_def ex_s00_facts(3))
  then obtain ns' m' where run: "apply_gate ex_platform ex_s00 pauli_x [0] [] [] (Some 9) (mem_init (\<lambda>_. True)) = (Inr ns', m')"
    by blast
  have "\<exists>h w'. apply_gate_fmat length ex_pyworld 1 2 (Some 0, [0]) (None, []) (None, []) = (Some h, w')"
    by (simp add: apply_gate_fmat_def new_application_def new_functional_matrix_def malloc_def ex_pyworld_def Let_def)
  then obtain h w' where fm: "apply_gate_fmat length ex_pyworld 1 2 (Some 0, [0]) (None, []) (None, []) = (Some h, w')"
    by blast
  have "list_all (\<lambda>r. dense_getitem [[1], [0], [0], [0]] r 0 = Some (state_get ex_platform ex_s00 r)) [0..<4]"
    unfolding ex_s00_def ex_platform_def by code_simp
  then have st: "\<forall>r < sv_size ex_s00. dense_getitem [[1], [0], [0], [0]] r 0 = Some (state_get ex_platform ex_s00 r)"
    by (simp add: ex_s00_facts list_all_iff)
  have "list_all (\<lambda>r. list_all (\<lambda>c. dense_getitem [[0, 1], [1, 0]] r c = Some (gate_matrix pauli_x ! r ! c)) [0..<2]) [0..<2]"
    unfolding pauli_x_def by code_simp
  then have gt: "\<forall>r < gate_size pauli_x. \<forall>c < gate_size pauli_x. dense_getitem [[0, 1], [1, 0]] r c = Some (gate_matrix pauli_x ! r ! c)"
    by (simp add: pauli_x_def list_all_iff)
  have w: "w_fmats ex_pyworld 1 = Some [[1], [0], [0], [0]]" "w_fmats ex_pyworld 2 = Some [[0, 1], [1, 0]]"
    by (simp_all add: ex_pyworld_def)
  have e: "length [[1::complex], [0], [0], [0]] = sv_size ex_s00" "length [[0::complex, 1], [1, 0]] = gate_size pauli_x"
    "gate_size pauli_x = 2 ^ length [0::nat]" "set [0::nat] \<subseteq> {..<num_qubits ex_s00}" "1 < sv_size ex_s00"
    by (simp_all add: ex_s00_facts pauli_x_def)
  have "fm_getitem ex_platform dense_getitem length w' h 1 0 = Some (sv_raw ex_platform ns' 1)"
    by (rule lazy_apply_gate_matches_eager [OF ex_s00_facts(1,5,6) mem_fresh_init _ _ _ _ run fm w(1) e(1) st w(2) e(2) gt e(3-5)])
      simp_all
  with run fm show ?thesis by blast
qed

text \<open>C14 (functional). The density callback is positive semidefinite: for every vector
  \<open>x\<close>, \<open>sum_i sum_j conj(x_i) rho(i, j) x_j = |sum_i conj(x_i) S[i]|^2\<close>, a non-negative real.\<close>

theorem density_positive:
  assumes "w_states w c = Some s"
  shows "(\<Sum>i < sv_size s. \<Sum>j < sv_size s. cnj (x i) * the (density_fun p w c i j) * x j) =
           complex_of_real ((cmod (\<Sum>i < sv_size s. cnj (x i) * state_get p s i))\<^sup>2)"
  using assms density_sum_factor [of x "state_get p s" "sv_size s"] by (simp add: density_fun_def)

theorem density_positive_witness:
  "(\<Sum>i < 4. \<Sum>j < 4. cnj (of_nat i) * the (density_fun ex_platform ex_pyworld 3 i j) * of_nat j) =
     complex_of_real ((cmod (\<Sum>i < 4. cnj (of_nat i) * state_get ex_platform ex_s00 i))\<^sup>2)"
proof -
  have "w_states ex_pyworld 3 = Some ex_s00" by (simp add: ex_pyworld_def)
  from density_positive [OF this, of of_nat ex_platform, unfolded ex_s00_facts(2)] show ?thesis .
qed

text \<open>A density matrix built by \<open>density_matrix\<close> is \<open>size x size\<close>, holds
  one more reference to the state capsule, and reads \<open>S[i] * conj(S[j])\<close> at every entry.\<close>

theorem density_matrix_view:
  assumes "w_states w c = Some s" and "density_matrix w c = (Some h, w')"
  shows "fm_rows h = sv_size s \<and> fm_cols h = sv_size s \<and> w_refs w' c = Suc (w_refs w c) \<and>
         (\<forall>i < sv_size s. \<forall>j < sv_size s.
            fm_getitem p getitem rows w' h i j = Some (state_get p s i * cnj (state_get p s j)))"
proof -
  have h: "fm_rows h = sv_size s" "fm_cols h = sv_size s" "fm_fun h = CB_density" "fm_context h = c"
    and w': "w_refs w' = incref c (w_refs w)" "w_states w' = w_states w"
    using assms by (auto simp: density_matrix_def new_functional_matrix_def split: prod.splits option.splits)
  then show ?thesis
    using assms(1) by (simp add: fm_getitem_def density_fun_def incref_def)
qed

theorem density_matrix_view_witness:
  "\<exists>h w'. density_matrix ex_pyworld 3 = (Some h, w') \<and> fm_rows h = 4 \<and> w_refs w' 3 = 2 \<and>
     fm_getitem ex_platform dense_getitem length w' h 0 0 = Some 1"
proof -
  have "\<exists>h w'. density_matrix ex_pyworld 3 = (Some h, w')"
    by (simp add: density_matrix_def new_functional_matrix_def malloc_def ex_pyworld_def)
  then obtain h w' where run: "density_matrix ex_pyworld 3 = (Some h, w')" by blast
  have st: "w_states ex_pyworld 3 = Some ex_s00" by (simp add: ex_pyworld_def)
  have "state_get ex_platform ex_s00 0 = 1" by (simp add: state_get_def alist_get_def ex_s00_def ex_platform_def)
  moreover have "w_refs ex_pyworld 3 = 1" by (simp add: ex_pyworld_def)
  ultimately show ?thesis
    using density_matrix_view [OF st run, of ex_platform dense_getitem length] run by (simp add: ex_s00_facts)
qed

text \<open>C13 (invariant). Along any sequence of \<open>clone_application\<close> and \<open>free_application\<close>
  calls on an \<open>Application\<close> made by \<open>new_application\<close>, with \<open>h\<close> handles outstanding:
  while \<open>h > 0\<close> the structure is allocated with \<open>refcount = h\<close> and holds one reference to
  each capsule; when \<open>h = 0\<close> it is freed, the capsule reference counts are back to their
  values before \<open>new_application\<close>, and the structure and the three index arrays are
  released.\<close>

theorem app_refcount_invariant:
  assumes "app_life w0 sc gc t c a d w h" and "mem_fresh (w_mem w0)"
  shows "(0 < h \<longrightarrow> (\<exists>ap. w_apps w d = Some ap \<and> app_refcount ap = h \<and> app_state_capsule ap = sc \<and>
                        app_gate_capsule ap = gc \<and> app_targets ap = t \<and> app_controls ap = c \<and>
                        app_anticontrols ap = a) \<and>
                    w_refs w = incref gc (incref sc (w_refs w0)) \<and>
                    mem_live (w_mem w) = insert d (mem_live (w_mem w0))) \<and>
         (h = 0 \<longrightarrow> w_apps w d = None \<and> w_refs w = w_refs w0 \<and>
                    mem_live (w_mem w) = mem_live (w_mem w0) - set_option (fst t) - set_option (fst c)
                                           - set_option (fst a))"
  by (rule app_life_inv [OF assms])

theorem app_refcount_invariant_witness:
  "\<exists>w. app_life ex_pyworld 1 2 (Some 0, [0]) (None, []) (None, []) 3 w 0 \<and>
       w_refs w = w_refs ex_pyworld \<and> mem_live (w_mem w) = {1, 2}"
proof -
  obtain w1 where l1: "app_life ex_pyworld 1 2 (Some 0, [0]) (None, []) (None, []) 3 w1 1"
    by (rule ex_app_created)
  have "\<exists>w'. free_application w1 (Some 3) = Some w'"
    using app_life_inv [OF l1 ex_world_fresh] by (auto simp: free_application_def)
  then obtain w2 where "free_application w1 (Some 3) = Some w2" by blast
  from app_life.release [OF l1 this] have l2: "app_life ex_pyworld 1 2 (Some 0, [0]) (None, []) (None, []) 3 w2 0"
    by simp
  have "mem_live (w_mem ex_pyworld) - set_option (fst (Some (0::nat), [0::nat])) - set_option (fst (None::nat option, []::nat list))
          - set_option (fst (None::nat option, []::nat list)) = {1, 2}"
    by (auto simp: ex_pyworld_def)
  with l2 app_refcount_invariant [OF l2 ex_world_fresh] show ?thesis by auto
qed

text \<open>C17 (liveness). From any reachable state of an \<open>Application\<close>, releasing every
  outstanding handle is defined (no access to freed memory) and ends with the structure,
  its arrays and its capsule references released.\<close>

theorem app_release_all:
  assumes "app_life w0 sc gc t c a d w h" and "mem_fresh (w_mem w0)"
  shows "\<exists>w'. app_life w0 sc gc t c a d w' 0 \<and> w_apps w' d = None \<and> w_refs w' = w_refs w0 \<and>
           mem_live (w_mem w') = mem_live (w_mem w0) - set_option (fst t) - set_option (fst c) - set_option (fst a)"
proof -
  let ?P = "\<lambda>w'. app_life w0 sc gc t c a d w' 0 \<and> w_apps w' d = None \<and> w_refs w' = w_refs w0 \<and>
           mem_live (w_mem w') = mem_live (w_mem w0) - set_option (fst t) - set_option (fst c) - set_option (fst a)"
  have "\<forall>w. app_life w0 sc gc t c a d w h \<longrightarrow> (\<exists>w'. ?P w')"
  proof (induction h)
    case 0
    show ?case using app_life_inv [OF _ assms(2)] by blast
  next
    case (Suc h)
    show ?case
    proof (intro allI impI)
      fix w assume l: "app_life w0 sc gc t c a d w (Suc h)"
      obtain w' where "app_life w0 sc gc t c a d w' h"
        using app_life_release [OF l assms(2)] by auto
      then show "\<exists>w'. ?P w'" using Suc.IH by blast
    qed
  qed
  then show ?thesis using assms(1) by blast
qed

theorem app_release_all_witness:
  "\<exists>w'. app_life ex_pyworld 1 2 (Some 0, [0]) (None, []) (None, []) 3 w' 0 \<and> w_apps w' 3 = None \<and>
     w_refs w' = w_refs ex_pyworld \<and>
     mem_live (w_mem w') = mem_live (w_mem ex_pyworld) - set_option (fst (Some (0::nat), [0::nat]))
       - set_option (fst (None::nat option, []::nat list)) - set_option (fst (None::nat option, []::nat list))"
proof -
  obtain w1 where l1: "app_life ex_pyworld 1 2 (Some 0, [0]) (None, []) (None, []) 3 w1 1"
    by (rule ex_app_created)
  show ?thesis by (rule app_release_all [OF l1 ex_world_fresh])
qed

text \<open>C22 (error). When the state capsule does not hold a functional matrix,
  \<open>apply_gate_fmat\<close> returns NULL with \<open>errno = 5\<close> (overwriting the 4 set by
  \<open>new_application\<close>), and the \<open>Application\<close> block allocated by \<open>new_application\<close> is never
  freed.\<close>

theorem apply_gate_fmat_invalid_state:
  assumes "w_fmats w sc = None" and "mem_ok (w_mem w) (mem_calls (w_mem w))"
    and "apply_gate_fmat rows w sc gc t c a = (r, w')"
  shows "r = None \<and> w_errno w' = 5 \<and> w_apps w' = w_apps w \<and> w_refs w' = w_refs w \<and>
         mem_calls (w_mem w) \<in> mem_live (w_mem w')"
  using assms by (auto simp: apply_gate_fmat_def new_application_def malloc_def Let_def)

theorem apply_gate_fmat_invalid_state_witness:
  "fst (apply_gate_fmat length ex_pyworld 7 2 (Some 0, [0]) (None, []) (None, [])) = None \<and>
   w_errno (snd (apply_gate_fmat length ex_pyworld 7 2 (Some 0, [0]) (None, []) (None, []))) = 5 \<and>
   3 \<in> mem_live (w_mem (snd (apply_gate_fmat length ex_pyworld 7 2 (Some 0, [0]) (None, []) (None, []))))"
proof -
  have h: "w_fmats ex_pyworld 7 = None" "mem_ok (w_mem ex_pyworld) (mem_calls (w_mem ex_pyworld))"
    "mem_calls (w_mem ex_pyworld) = 3"
    by (simp_all add: ex_pyworld_def)
  from apply_gate_fmat_invalid_state [OF h(1,2) prod.collapse [symmetric], of length 2 "(Some 0, [0])" "(None, [])" "(None, [])"] h(3)
  show ?thesis by simp
qed

text \<open>When allocating the functional matrix fails, \<open>apply_gate_fmat\<close>
  returns NULL with \<open>errno = 1\<close> and undoes \<open>new_application\<close>: the capsule references are
  restored and the structure and the index arrays are freed.\<close>

theorem apply_gate_fmat_alloc_failure:
  assumes "w_fmats w sc = Some st" and "w_fmats w gc = Some g"
    and "mem_ok (w_mem w) (mem_calls (w_mem w))" and "\<not> mem_ok (w_mem w) (Suc (mem_calls (w_mem w)))"
    and "apply_gate_fmat rows w sc gc t c a = (r, w')"
  shows "r = None \<and> w_errno w' = 1 \<and> w_refs w' = w_refs w \<and>
         w_apps w' = (w_apps w)(mem_calls (w_mem w) := None) \<and>
         mem_live (w_mem w') = mem_live (w_mem w) - set_option (fst t) - set_option (fst c) - set_option (fst a)
                                 - {mem_calls (w_mem w)}"
proof -
  let ?d = "mem_calls (w_mem w)"
  obtain w1 where n: "new_application w sc gc t c a = (Some ?d, w1)"
    using assms(1-3) by (simp add: new_application_def malloc_def Let_def)
  note n1 = new_application_Some [OF n]
  obtain ap where ap: "w_apps w1 ?d = Some ap" "app_refcount ap = 1" "app_state_capsule ap = sc"
    "app_gate_capsule ap = gc" "app_targets ap = t" "app_controls ap = c" "app_anticontrols ap = a"
    using n1(4) by auto
  have m1: "mem_calls (w_mem w1) = Suc ?d" "mem_ok (w_mem w1) = mem_ok (w_mem w)"
    using n by (auto simp: new_application_def malloc_def Let_def split: if_splits option.splits)
  have nf: "new_functional_matrix (w_mem w1) (rows (app_state ap)) 1 CB_apply_gate ?d =
              (None, (w_mem w1)\<lparr>mem_calls := Suc (mem_calls (w_mem w1))\<rparr>)"
    using assms(4) m1 by (simp add: new_functional_matrix_def malloc_def)
  have "r = None \<and> w' = w1\<lparr>w_errno := 1, w_refs := decref gc (decref sc (w_refs w1)),
              w_mem := free ?d (free_opt (fst a) (free_opt (fst c) (free_opt (fst t)
              ((w_mem w1)\<lparr>mem_calls := Suc (mem_calls (w_mem w1))\<rparr>)))),
              w_apps := (w_apps w1)(?d := None)\<rparr>"
    using assms(5) n ap nf by (simp add: apply_gate_fmat_def free_application_def Let_def)
  then show ?thesis
    using n1(2,3) n1(4) by (auto simp: decref_incref free_live free_opt_live)
qed

theorem apply_gate_fmat_alloc_failure_witness:
  "fst (apply_gate_fmat length ex_pyworld_fail 1 2 (Some 0, [0]) (None, []) (None, [])) = None \<and>
   w_errno (snd (apply_gate_fmat length ex_pyworld_fail 1 2 (Some 0, [0]) (None, []) (None, []))) = 1 \<and>
   w_refs (snd (apply_gate_fmat length ex_pyworld_fail 1 2 (Some 0, [0]) (None, []) (None, []))) = w_refs ex_pyworld_fail \<and>
   mem_live (w_mem (snd (apply_gate_fmat length ex_pyworld_fail 1 2 (Some 0, [0]) (None, []) (None, [])))) = {1, 2}"
proof -
  have h: "w_fmats ex_pyworld_fail 1 = Some [[1], [0], [0], [0]]" "w_fmats ex_pyworld_fail 2 = Some [[0, 1], [1, 0]]"
    "mem_ok (w_mem ex_pyworld_fail) (mem_calls (w_mem ex_pyworld_fail))"
    "\<not> mem_ok (w_mem ex_pyworld_fail) (Suc (mem_calls (w_mem ex_pyworld_fail)))"
    by (simp_all add: ex_pyworld_fail_def ex_pyworld_def)
  have l: "mem_live (w_mem ex_pyworld_fail) - set_option (fst (Some (0::nat), [0::nat]))
      - set_option (fst (None::nat option, []::nat list)) - set_option (fst (None::nat option, []::nat list))
      - {mem_calls (w_mem ex_pyworld_fail)} = {1, 2}"
    by (auto simp: ex_pyworld_fail_def ex_pyworld_def)
  from apply_gate_fmat_alloc_failure [OF h prod.collapse [symmetric], of length "(Some 0, [0])" "(None, [])" "(None, [])"] l
  show ?thesis by simp
qed

end
