(* ===== verification/Shield_Protocol.thy ===== *)
theory Shield_Protocol
  imports "HOL-Library.Word"
begin

text \<open>
  The serial protocol shared by the AutomationShield firmwares of python-automationshield
  (arduino_firmware/leonardo/src_*/main.cpp), which run on an ATmega32u4 (Arduino
  Leonardo). On that target \<open>int\<close> is 16 bits wide, so C \<open>int\<close>, \<open>uint16_t\<close> and
  \<open>byte\<close> are the words \<open>avr_int\<close>, \<open>uint16\<close> and \<open>byte\<close>; a signed shift \<open>>>\<close> is
  \<open>signed_drop_bit\<close> (avr-gcc shifts arithmetically), an unsigned one \<open>drop_bit\<close>, and
  storing into a \<open>byte\<close> keeps the low 8 bits (\<open>ucast\<close>).

  The host reads each reply as one 3-byte frame that carries two 12-bit values: the high
  nibbles of both values in byte 0, their low bytes in bytes 1 and 2. \<open>frame_decode\<close> is
  that reading of a frame (the host side is not part of the firmware sources); the lemmas
  of this theory show that the firmware's packing expression is decoded back to its two
  operands whenever they fit in 12 bits. \<open>io_event\<close> lists what a loop iteration does
  to the outside world, in order.
\<close>

unbundle bit_operations_syntax

type_synonym byte = "8 word"
type_synonym avr_int = "16 word"
type_synonym uint16 = "16 word"

text \<open>Effects of the firmware on the outside world: \<open>Serial.write\<close> of a buffer, one
  I2C transaction \<open>Wire.beginTransmission(addr); Wire.write(..); ...;
  Wire.endTransmission()\<close> with the bytes written, and \<open>analogWrite(pin, value)\<close> in
  \<open>loop()\<close>; \<open>Serial.begin(baud)\<close>, \<open>Wire.begin()\<close>, \<open>analogReference(EXTERNAL)\<close>,
  \<open>as5600.setWirePtr(&Wire)\<close> and \<open>as5600.begin()\<close> in \<open>setup()\<close>.\<close>

datatype io_event =
    Serial_write "byte list"
  | Wire_write byte "byte list"
  | Analog_write nat avr_int
  | Serial_begin nat
  | Wire_begin
  | Analog_reference_external
  | As5600_set_wire
  | As5600_begin

text \<open>What one call of \<open>loop()\<close> receives from the outside world: the bytes that reach
  the serial receive buffer during the call, the result of \<open>analogRead\<close> for each pin,
  and the AS5600 encoder's \<open>rawAngle()\<close>. The analog pins are numbered as on the
  Leonardo (\<open>A0\<close> is pin 18, \<open>A3\<close> is pin 21).\<close>

record loop_input =
  arrived :: "byte list"
  adc :: "nat \<Rightarrow> avr_int"
  raw_angle :: uint16

text \<open>The effects \<open>loop()\<close> can have; the others belong to \<open>setup()\<close>.\<close>

definition loop_event :: "io_event \<Rightarrow> bool" where
  "loop_event e \<longleftrightarrow> (case e of Serial_write _ \<Rightarrow> True | Wire_write _ _ \<Rightarrow> True | Analog_write _ _ \<Rightarrow> True | _ \<Rightarrow> False)"

definition A0 :: nat where "A0 = 18"
definition A3 :: nat where "A3 = 21"

text \<open>The command codes \<open>TEST\<close>, \<open>RUN\<close> and \<open>STOP\<close> of both firmwares.\<close>

definition TEST :: avr_int where "TEST = 0"
definition RUN :: avr_int where "RUN = 1"
definition STOP :: avr_int where "STOP = 2"

text \<open>The host's reading of a reply frame: two 12-bit values.\<close>

definition frame_decode :: "byte list \<Rightarrow> nat \<times> nat" where
  "frame_decode bs = ((unat (bs ! 0) div 16) * 256 + unat (bs ! 1),
                      (unat (bs ! 0) mod 16) * 256 + unat (bs ! 2))"

text \<open>\<open>Serial.readBytes(buf, n)\<close>: the bytes that arrive before the timeout (at most
  \<open>n = length buf\<close> of them) overwrite the front of the buffer; the rest of the buffer
  keeps the previous command's bytes.\<close>

definition read_bytes :: "byte list \<Rightarrow> byte list \<Rightarrow> byte list" where
  "read_bytes rx buf = take (length buf) rx @ drop (length rx) buf"

subsection \<open>Reading bytes\<close>

lemma length_read_bytes [simp]: "length (read_bytes rx buf) = length buf"
  by (simp add: read_bytes_def)

lemma read_bytes_full: "length buf \<le> length rx \<Longrightarrow> read_bytes rx buf = take (length buf) rx"
  by (simp add: read_bytes_def)

subsection \<open>Bit lemmas\<close>

lemma nat_bit_bound: "(x::nat) < 2 ^ k \<Longrightarrow> bit x n \<Longrightarrow> n < k"
proof (rule ccontr)
  assume x: "x < 2 ^ k" "bit x n" "\<not> n < k"
  then have "x < 2 ^ n"
    by (meson le_less_trans not_less one_le_numeral power_increasing less_imp_le)
  then show False using x(2) by (simp add: bit_iff_odd)
qed

lemma unat_bit_bound: "unat (v::'a::len word) < 2 ^ k \<Longrightarrow> bit v n \<Longrightarrow> n < k"
  by (erule nat_bit_bound) (simp add: bit_unsigned_iff)

text \<open>On a value whose sign bit is clear, the arithmetic shift is the logical one.\<close>

lemma signed_drop_bit_nonneg:
  assumes "unat (v::avr_int) < 2 ^ 15"
  shows "signed_drop_bit n v = drop_bit n v"
proof -
  have hi: "\<not> bit v k" if "15 \<le> k" for k
    using unat_bit_bound [OF assms, of k] that by auto
  show ?thesis
    by (rule bit_word_eqI) (auto simp: bit_signed_drop_bit_iff bit_drop_bit_eq hi)
qed

lemma and_F0: "(x::avr_int) AND 0xF0 = push_bit 4 (take_bit 4 (drop_bit 4 x))"
proof -
  have m: "(0xF0::avr_int) = push_bit 4 (mask 4)" by (simp add: mask_numeral)
  show ?thesis
    unfolding m
    by (rule bit_word_eqI)
      (simp only: bit_and_iff bit_push_bit_iff bit_take_bit_iff bit_drop_bit_eq bit_mask_iff;
       auto simp: comp_def)
qed

lemma unat_and_F0 [simp]: "unat ((x::avr_int) AND 0xF0) = (unat x div 16 mod 16) * 16"
  unfolding and_F0 unsigned_push_bit_eq unsigned_take_bit_eq unat_drop_bit_eq
  by (simp add: push_bit_eq_mult take_bit_eq_mod drop_bit_eq_div)

lemma unat_and_FF [simp]: "unat ((x::avr_int) AND 0xFF) = unat x mod 256"
proof -
  have e: "x AND 0xFF = take_bit 8 x" by (simp add: take_bit_eq_mask mask_numeral)
  show ?thesis unfolding e unsigned_take_bit_eq by (simp add: take_bit_eq_mod)
qed

lemma unat_byte [simp]: "unat (ucast (x::'a::len word) :: byte) = unat x mod 256"
  by (simp add: unsigned_ucast_eq take_bit_eq_mod)

lemma unat_byte_up [simp]: "unat (ucast (c::byte) :: avr_int) = unat c"
proof -
  have "unat c < 256" using unsigned_less [of c] by simp
  then have "unat c < 2 ^ 16" by simp
  then show ?thesis by (simp add: unsigned_ucast_eq take_bit_nat_eq_self)
qed

lemma ucast_byte_eq_iff [simp]: "(ucast (c::byte) = (ucast (d::byte) :: avr_int)) = (c = d)"
  by (simp add: word_unat_eq_iff)

text \<open>The signed reading of a 16-bit \<open>int\<close>.\<close>

lemma sint_avr: "sint (w::avr_int) = (if unat w < 32768 then int (unat w) else int (unat w) - 65536)"
proof -
  have u: "uint w = int (unat w)" "unat w < 65536"
    by (rule uint_nat) (use unsigned_less [of w] in simp)
  have d: "unat w div 32768 = (if unat w < 32768 then 0 else 1)"
    using u(2) by (auto intro: div_nat_eqI)
  have "bit (uint w) 15 \<longleftrightarrow> bit (unat w) 15"
    by (simp add: bit_uint_iff bit_unsigned_iff)
  then have b: "bit (uint w) 15 \<longleftrightarrow> \<not> unat w < 32768"
    by (simp add: bit_iff_odd d)
  show ?thesis
    unfolding sint_uint signed_take_bit_eq_take_bit_minus uint_nat [symmetric]
    using b by (simp add: take_bit_int_eq_self uint_lt2p [of w, simplified])
qed

lemma ucast_byte_cmd [simp]:
  "(ucast (c::byte) = (0::avr_int)) = (c = 0)" "(ucast (c::byte) = (1::avr_int)) = (c = 1)"
  "(ucast (c::byte) = (2::avr_int)) = (c = 2)"
  by (simp_all add: word_unat_eq_iff)

lemma byte_pair_less: "unat (hi::byte) * 256 + unat (lo::byte) < 65536"
proof -
  have "unat hi < 256" "unat lo < 256" using unsigned_less [of hi] unsigned_less [of lo] by simp_all
  then show ?thesis by linarith
qed

lemma unat_drop_bit_div [simp]: "unat (drop_bit n (x::'a::len word)) = unat x div 2 ^ n"
  unfolding unat_drop_bit_eq by (rule drop_bit_eq_div)

subsection \<open>The frame round trip\<close>

text \<open>A frame carries two values of 12 bits at most.\<close>

lemma frame_decode_less:
  "fst (frame_decode bs) < 4096 \<and> snd (frame_decode bs) < 4096"
proof -
  have b: "unat (bs ! k) < 256" for k using unsigned_less [of "bs ! k"] by simp
  then have "unat (bs ! 0) div 16 < 16" "unat (bs ! 0) mod 16 < 16"
    by (simp_all add: div_less_iff_less_mult)
  then show ?thesis
    unfolding frame_decode_def using b [of 1] b [of 2] by simp
qed

text \<open>The packing expression of \<open>setOutBuffer\<close> and of the AeroShield RUN reply, on two
  values of at most 12 bits, is decoded back to them.\<close>

lemma frame_decode_pack:
  assumes a: "unat (v1::avr_int) < 4096" "unat (v2::avr_int) < 4096"
  shows "frame_decode [ucast ((drop_bit 4 v1 AND 0xF0) + drop_bit 8 v2),
                       ucast (v1 AND 0xFF), ucast (v2 AND 0xFF)] = (unat v1, unat v2)"
proof -
  have d: "unat v1 div 256 < 16" "unat v2 div 256 < 16"
    using a by (simp_all add: div_less_iff_less_mult)
  then have s: "(unat v1 div 256) * 16 + unat v2 div 256 < 256"
    by linarith
  have "unat ((drop_bit 4 v1 AND 0xF0) + drop_bit 8 v2) = (unat v1 div 256) * 16 + unat v2 div 256"
    using a s by (simp add: unat_word_ariths div_mult2_eq [symmetric])
  then show ?thesis
    using d s by (simp add: frame_decode_def)
qed

end
