(* ===== verification/MagnetoShield.thy ===== *)
theory MagnetoShield
  imports Shield_Protocol
begin

text \<open>
  The MagnetoShield firmware (src_magnetoshield/main.cpp). Its global variables are the
  record \<open>magneto_state\<close>, together with the bytes waiting in the serial receive buffer.
  Each function of the file is one definition: \<open>receive\<close>, \<open>sensor_read\<close>,
  \<open>actuator_write\<close> (one I2C transaction to the MCP4725 DAC), \<open>set_out_buffer\<close>,
  \<open>send\<close>. \<open>magneto_loop\<close> is one call of \<open>loop()\<close>. The call returns \<open>None\<close> when
  it has undefined behaviour, which is a signed overflow of \<open>actuator * 2\<close> or
  \<open>actuator * 4\<close> in 16-bit \<open>int\<close>. \<open>magneto_run\<close> is the Arduino main loop, which
  calls \<open>loop()\<close> once per input.
\<close>

unbundle bit_operations_syntax

record magneto_state =
  pot :: avr_int
  sensor :: uint16
  actuator :: avr_int
  flag :: avr_int
  in_buffer :: "byte list"
  out_buffer :: "byte list"
  rx_queue :: "byte list"

definition magneto_init :: magneto_state where
  "magneto_init = \<lparr>pot = 0, sensor = 0, actuator = 0, flag = 0, in_buffer = replicate 3 0,
     out_buffer = replicate 3 0, rx_queue = []\<rparr>"

definition MCP4725 :: byte where "MCP4725 = 0x60"

definition send :: "magneto_state \<Rightarrow> io_event" where
  "send st = Serial_write (out_buffer st)"

text \<open>\<open>receive()\<close>: \<open>readBytes\<close> into \<open>inBuffer\<close>, then \<open>flag = inBuffer[0]\<close> and
  \<open>actuator = (inBuffer[1] << 8) + inBuffer[2]\<close> in 16-bit \<open>int\<close>. A high byte of 128
  or more gives a negative \<open>actuator\<close>, because the shifted value is stored modulo
  \<open>2 ^ 16\<close>.\<close>

definition receive :: "magneto_state \<Rightarrow> magneto_state" where
  "receive st =
     (let buf = read_bytes (rx_queue st) (in_buffer st)
      in st\<lparr>in_buffer := buf, rx_queue := drop (length (in_buffer st)) (rx_queue st),
            flag := ucast (buf ! 0),
            actuator := push_bit 8 (ucast (buf ! 1)) + ucast (buf ! 2)\<rparr>)"

definition sensor_read :: "loop_input \<Rightarrow> magneto_state \<Rightarrow> magneto_state" where
  "sensor_read inp st = st\<lparr>pot := adc inp A0, sensor := adc inp A3\<rparr>"

text \<open>\<open>actuatorWrite(DAClevel)\<close>: the command byte \<open>0x40\<close> (write the DAC register), then
  bits 11..4 of the level, then bits 3..0 in the high nibble.\<close>

definition actuator_write :: "uint16 \<Rightarrow> io_event" where
  "actuator_write level =
     Wire_write MCP4725 [0x40, ucast (drop_bit 4 level), ucast (drop_bit 8 (push_bit 12 level))]"

definition set_out_buffer :: "avr_int \<Rightarrow> avr_int \<Rightarrow> magneto_state \<Rightarrow> magneto_state" where
  "set_out_buffer v1 v2 st =
     st\<lparr>out_buffer := [ucast ((signed_drop_bit 4 v1 AND 0xF0) + signed_drop_bit 8 v2),
                      ucast (v1 AND 0xFF), ucast (v2 AND 0xFF)]\<rparr>"

text \<open>Multiplication in 16-bit \<open>int\<close>: \<open>None\<close> on signed overflow.\<close>

definition avr_mul :: "avr_int \<Rightarrow> avr_int \<Rightarrow> avr_int option" where
  "avr_mul a b = (if - 32768 \<le> sint a * sint b \<and> sint a * sint b \<le> 32767 then Some (a * b) else None)"

text \<open>The \<open>switch (flag)\<close> of \<open>loop()\<close>: the effects of one command, before the reply
  is sent.\<close>

definition magneto_command :: "loop_input \<Rightarrow> magneto_state \<Rightarrow> (magneto_state \<times> io_event list) option" where
  "magneto_command inp st =
     (if flag st = TEST then
        (case (avr_mul (actuator st) 2, avr_mul (actuator st) 4) of
           (Some v1, Some v2) \<Rightarrow> Some (set_out_buffer v1 v2 st, [])
         | _ \<Rightarrow> None)
      else if flag st = RUN then
        (let st' = sensor_read inp st
         in Some (set_out_buffer (pot st') (sensor st') st', [actuator_write (actuator st)]))
      else if flag st = STOP then Some (st, [actuator_write 0])
      else Some (st, []))"

definition magneto_loop :: "loop_input \<Rightarrow> magneto_state \<Rightarrow> (magneto_state \<times> io_event list) option" where
  "magneto_loop inp st0 =
     (let st = st0\<lparr>rx_queue := rx_queue st0 @ arrived inp\<rparr>
      in if 0 < length (rx_queue st) then
           (case magneto_command inp (receive st) of
              None \<Rightarrow> None
            | Some (st', evs) \<Rightarrow> Some (st', evs @ [send st']))
         else Some (st, []))"

fun magneto_run :: "loop_input list \<Rightarrow> magneto_state \<Rightarrow> (magneto_state \<times> io_event list) option" where
  "magneto_run [] st = Some (st, [])"
| "magneto_run (inp # inps) st =
     (case magneto_loop inp st of
        None \<Rightarrow> None
      | Some (st', evs) \<Rightarrow>
          (case magneto_run inps st' of
             None \<Rightarrow> None
           | Some (st'', evs') \<Rightarrow> Some (st'', evs @ evs')))"

text \<open>\<open>setup()\<close>: the serial port at 115200 baud, the I2C bus, and the external analog
  reference. The Arduino \<open>main()\<close> starts from the zero-initialised globals, runs
  \<open>setup()\<close> once, and then \<open>loop()\<close> once per input.\<close>

definition magneto_setup :: "io_event list" where
  "magneto_setup = [Serial_begin 115200, Wire_begin, Analog_reference_external]"

definition magneto_main :: "loop_input list \<Rightarrow> (magneto_state \<times> io_event list) option" where
  "magneto_main inps = map_option (\<lambda>(st, evs). (st, magneto_setup @ evs)) (magneto_run inps magneto_init)"

text \<open>The host's and the DAC's reading of what the firmware writes: the 12-bit level the
  MCP4725 takes from a write-DAC-register transaction.\<close>

definition mcp4725_level :: "io_event \<Rightarrow> nat option" where
  "mcp4725_level ev = (case ev of
      Wire_write addr [cmd, hi, lo] \<Rightarrow>
        if addr = MCP4725 \<and> cmd = 0x40 then Some (unat hi * 16 + unat lo div 16) else None
    | _ \<Rightarrow> None)"

definition magneto_wf :: "magneto_state \<Rightarrow> bool" where
  "magneto_wf st \<longleftrightarrow> length (in_buffer st) = 3 \<and> length (out_buffer st) = 3"

subsection \<open>Frames, the DAC transaction and the actuator value\<close>

lemma unat_actuator:
  "unat (push_bit 8 (ucast (hi::byte)) + ucast (lo::byte) :: avr_int) = unat hi * 256 + unat lo"
proof -
  have "unat hi < 256" "unat lo < 256" using unsigned_less [of hi] unsigned_less [of lo] by simp_all
  then show ?thesis
    by (simp add: unat_word_ariths unsigned_push_bit_eq unsigned_ucast_eq take_bit_eq_mod push_bit_eq_mult)
qed

lemma mcp4725_actuator_write: "mcp4725_level (actuator_write v) = Some (unat v mod 4096)"
proof -
  have "unat (push_bit 12 v) = (unat v mod 16) * 4096"
    unfolding unsigned_push_bit_eq by (simp add: take_bit_eq_mod push_bit_eq_mult mod_mult_mult2 [symmetric])
  then have "unat (drop_bit 8 (push_bit 12 v)) = (unat v mod 16) * 16"
    unfolding unat_drop_bit_div by simp
  moreover have "unat v mod 4096 = 16 * (unat v div 16 mod 256) + unat v mod 16"
    using mod_mult2_eq [of "unat v" 16 256] by simp
  ultimately show ?thesis
    by (simp add: mcp4725_level_def actuator_write_def)
qed

lemma receive_frame:
  assumes "magneto_wf st" "rx_queue st = [c, hi, lo] @ rest"
  shows "receive st = st\<lparr>in_buffer := [c, hi, lo], rx_queue := rest, flag := ucast c,
                          actuator := push_bit 8 (ucast hi) + ucast lo\<rparr>"
  using assms by (simp add: receive_def magneto_wf_def read_bytes_full numeral_3_eq_3)

lemma magneto_loop_frame:
  assumes "magneto_wf st" "rx_queue st @ arrived inp = [c, hi, lo] @ rest"
  shows "magneto_loop inp st =
           (case magneto_command inp
                   (st\<lparr>in_buffer := [c, hi, lo], rx_queue := rest, flag := ucast c,
                       actuator := push_bit 8 (ucast hi) + ucast lo\<rparr>) of
              None \<Rightarrow> None
            | Some (st', evs) \<Rightarrow> Some (st', evs @ [send st']))"
proof -
  have "receive (st\<lparr>rx_queue := rx_queue st @ arrived inp\<rparr>) =
          st\<lparr>in_buffer := [c, hi, lo], rx_queue := rest, flag := ucast c,
             actuator := push_bit 8 (ucast hi) + ucast lo\<rparr>"
    using assms by (subst receive_frame) (simp_all add: magneto_wf_def)
  then show ?thesis
    using assms(2) by (simp add: magneto_loop_def)
qed

lemma magneto_loop_command:
  assumes "magneto_wf st" "rx_queue st @ arrived inp = [c, hi, lo] @ rest"
  obtains a where "unat a = unat hi * 256 + unat lo"
    and "sint a = (if unat hi * 256 + unat lo < 32768 then int (unat hi * 256 + unat lo)
                   else int (unat hi * 256 + unat lo) - 65536)"
    and "magneto_loop inp st =
           (case magneto_command inp
                   (st\<lparr>in_buffer := [c, hi, lo], rx_queue := rest, flag := ucast c, actuator := a\<rparr>) of
              None \<Rightarrow> None
            | Some (st', evs) \<Rightarrow> Some (st', evs @ [send st']))"
proof
  show "unat (push_bit 8 (ucast hi) + ucast lo :: avr_int) = unat hi * 256 + unat lo"
    by (rule unat_actuator)
  then show "sint (push_bit 8 (ucast hi) + ucast lo :: avr_int) =
               (if unat hi * 256 + unat lo < 32768 then int (unat hi * 256 + unat lo)
                else int (unat hi * 256 + unat lo) - 65536)"
    by (simp only: sint_avr)
qed (rule magneto_loop_frame [OF assms])

lemma magneto_loop_wf:
  assumes "magneto_loop inp st = Some (st', evs)" "magneto_wf st"
  shows "magneto_wf st'"
  using assms
  by (auto simp: magneto_loop_def magneto_command_def receive_def magneto_wf_def set_out_buffer_def
      sensor_read_def Let_def split: if_splits option.splits prod.splits)

lemma magneto_run_wf:
  "magneto_run inps st = Some (st', evs) \<Longrightarrow> magneto_wf st \<Longrightarrow> magneto_wf st'"
proof (induction inps arbitrary: st evs)
  case Nil
  then show ?case by simp
next
  case (Cons inp inps)
  then show ?case
    by (auto split: option.splits prod.splits dest: magneto_loop_wf)
qed

lemma magneto_loop_events:
  "magneto_loop inp st = Some (st', evs) \<Longrightarrow> \<forall>e \<in> set evs. loop_event e"
  by (auto simp: magneto_loop_def magneto_command_def send_def actuator_write_def loop_event_def Let_def
      split: if_splits option.splits prod.splits)

lemma magneto_run_events:
  "magneto_run inps st = Some (st', evs) \<Longrightarrow> \<forall>e \<in> set evs. loop_event e"
proof (induction inps arbitrary: st evs)
  case (Cons inp inps)
  then obtain st1 evs1 evs2 where l: "magneto_loop inp st = Some (st1, evs1)"
    and r: "magneto_run inps st1 = Some (st', evs2)" and e: "evs = evs1 @ evs2"
    by (auto split: option.splits prod.splits)
  show ?case using magneto_loop_events [OF l] Cons.IH [OF r] e by auto
qed simp

text \<open>\<open>setup()\<close> runs first and only once: every later effect is one of \<open>loop()\<close>. In
  particular the I2C bus is begun before the first DAC transaction.\<close>

lemma magneto_main_setup_first:
  "magneto_main inps = Some (st, evs) \<Longrightarrow>
     \<exists>evs'. evs = magneto_setup @ evs' \<and> (\<forall>e \<in> set evs'. loop_event e) \<and> magneto_wf st"
  using magneto_run_events [of inps magneto_init] magneto_run_wf [of inps magneto_init]
  by (auto simp: magneto_main_def magneto_wf_def magneto_init_def)

subsection \<open>Properties of one call of loop()\<close>

text \<open>C25 (roundtrip). A complete RUN frame \<open>[1, hi, lo]\<close> drives the DAC and is answered
  with the readings. The DAC receives one write-DAC-register transaction whose 12-bit level
  is the received value \<open>256 hi + lo\<close> modulo \<open>2 ^ 12\<close>. The reply frame decodes to
  the potentiometer and sensor readings of this call, when both fit in 12 bits (the ADC
  gives 10). The three bytes of the frame are consumed.\<close>

theorem magneto_run_roundtrip:
  assumes "magneto_wf st" "rx_queue st @ arrived inp = [1, hi, lo] @ rest"
    and "unat (adc inp A0) < 4096" "unat (adc inp A3) < 4096"
  shows "\<exists>st' wr bs. magneto_loop inp st = Some (st', [wr, Serial_write bs]) \<and>
           mcp4725_level wr = Some ((unat hi * 256 + unat lo) mod 4096) \<and>
           frame_decode bs = (unat (adc inp A0), unat (adc inp A3)) \<and> rx_queue st' = rest"
  using assms
  by (simp add: magneto_loop_frame magneto_command_def TEST_def RUN_def sensor_read_def
      set_out_buffer_def send_def mcp4725_actuator_write unat_actuator signed_drop_bit_nonneg
      frame_decode_pack)

theorem magneto_run_roundtrip_witness:
  "\<exists>st' wr bs. magneto_loop \<lparr>arrived = [1, 0x0A, 0xBC], adc = (\<lambda>p. if p = A0 then 0x155 else 0x2AA), raw_angle = 0\<rparr> magneto_init =
      Some (st', [wr, Serial_write bs]) \<and> mcp4725_level wr = Some 2748 \<and>
      frame_decode bs = (341, 682) \<and> rx_queue st' = []"
  using magneto_run_roundtrip [where st = magneto_init and inp = "\<lparr>arrived = [1, 0x0A, 0xBC], adc = (\<lambda>p. if p = A0 then 0x155 else 0x2AA), raw_angle = 0\<rparr>"
      and hi = "0x0A" and lo = "0xBC" and rest = "[]"]
  by (simp add: magneto_wf_def magneto_init_def A0_def A3_def)

text \<open>C26 (error). The TEST command computes \<open>actuator * 2\<close> and \<open>actuator * 4\<close> in
  16-bit \<open>int\<close>. This is undefined behaviour (signed overflow) exactly when the
  received value \<open>256 hi + lo\<close> lies in \<open>[8192, 57344)\<close>, that is when
  \<open>actuator\<close> is outside \<open>[-8192, 8191]\<close>.\<close>

theorem magneto_test_undefined:
  assumes "magneto_wf st" "rx_queue st @ arrived inp = [0, hi, lo] @ rest"
  shows "magneto_loop inp st = None \<longleftrightarrow>
           8192 \<le> unat hi * 256 + unat lo \<and> unat hi * 256 + unat lo < 57344"
proof -
  obtain a where "unat a = unat hi * 256 + unat lo" and s: "sint a = (if unat hi * 256 + unat lo < 32768 then int (unat hi * 256 + unat lo)
                   else int (unat hi * 256 + unat lo) - 65536)"
    and l: "magneto_loop inp st =
           (case magneto_command inp
                   (st\<lparr>in_buffer := [0, hi, lo], rx_queue := rest, flag := ucast (0::byte), actuator := a\<rparr>) of
              None \<Rightarrow> None
            | Some (st', evs) \<Rightarrow> Some (st', evs @ [send st']))"
    by (rule magneto_loop_command [OF assms])
  define n where "n = unat hi * 256 + unat lo"
  have sn: "sint a = (if n < 32768 then int n else int n - 65536)"
    using s by (simp only: n_def)
  have "n < 65536" unfolding n_def by (rule byte_pair_less)
  then show ?thesis
    unfolding l n_def [symmetric]
    by (simp add: magneto_command_def TEST_def avr_mul_def sn split: if_splits)
qed

theorem magneto_test_undefined_witness:
  "magneto_loop \<lparr>arrived = [0, 0x40, 0], adc = (\<lambda>p. 0), raw_angle = 0\<rparr> magneto_init = None"
  using magneto_test_undefined [where st = magneto_init and inp = "\<lparr>arrived = [0, 0x40, 0], adc = (\<lambda>p. 0), raw_angle = 0\<rparr>"
      and hi = "0x40" and lo = 0 and rest = "[]"]
  by (simp add: magneto_wf_def magneto_init_def)

text \<open>C27 (bounds). When TEST is defined for a non-negative value \<open>n < 8192\<close>, the only
  effect is the reply. The reply decodes to \<open>(2 n, 4 n)\<close> exactly when \<open>n < 1024\<close>. A
  frame holds 12-bit values, so from 1024 on the echo of \<open>4 n\<close> is truncated.\<close>

theorem magneto_test_echo:
  assumes "magneto_wf st" "rx_queue st @ arrived inp = [0, hi, lo] @ rest"
    and "unat hi * 256 + unat lo < 8192"
  shows "\<exists>st'. magneto_loop inp st = Some (st', [Serial_write (out_buffer st')]) \<and>
           (frame_decode (out_buffer st') = (2 * (unat hi * 256 + unat lo), 4 * (unat hi * 256 + unat lo))
            \<longleftrightarrow> unat hi * 256 + unat lo < 1024)"
proof -
  obtain a where u: "unat a = unat hi * 256 + unat lo" and s: "sint a = (if unat hi * 256 + unat lo < 32768 then int (unat hi * 256 + unat lo)
                   else int (unat hi * 256 + unat lo) - 65536)"
    and l: "magneto_loop inp st =
           (case magneto_command inp
                   (st\<lparr>in_buffer := [0, hi, lo], rx_queue := rest, flag := ucast (0::byte), actuator := a\<rparr>) of
              None \<Rightarrow> None
            | Some (st', evs) \<Rightarrow> Some (st', evs @ [send st']))"
    by (rule magneto_loop_command [OF assms(1,2)])
  define n where "n = unat hi * 256 + unat lo"
  have n: "unat a = n" "sint a = int n" "n < 8192"
    using u s assms(3) by (simp_all add: n_def)
  have m2: "avr_mul a 2 = Some (a * 2)" "avr_mul a 4 = Some (a * 4)"
    using n by (simp_all add: avr_mul_def)
  have u2: "unat (a * 2) = 2 * n" "unat (a * 4) = 4 * n"
    using n by (simp_all add: unat_word_ariths)
  let ?bs = "[ucast ((drop_bit 4 (a * 2) AND 0xF0) + drop_bit 8 (a * 4)),
              ucast ((a * 2) AND 0xFF), ucast ((a * 4) AND 0xFF)] :: byte list"
  have out: "magneto_loop inp st = Some (st\<lparr>in_buffer := [0, hi, lo], rx_queue := rest, flag := ucast (0::byte),
                actuator := a, out_buffer := ?bs\<rparr>, [Serial_write ?bs])"
    unfolding l using u2 n(3)
    by (simp add: magneto_command_def TEST_def m2 set_out_buffer_def send_def signed_drop_bit_nonneg)
  have "frame_decode ?bs = (2 * n, 4 * n) \<longleftrightarrow> n < 1024"
  proof
    assume "frame_decode ?bs = (2 * n, 4 * n)"
    then show "n < 1024" using frame_decode_less [of ?bs] by simp
  next
    assume "n < 1024"
    then show "frame_decode ?bs = (2 * n, 4 * n)"
      using frame_decode_pack [of "a * 2" "a * 4"] u2 by simp
  qed
  then show ?thesis using out by (simp add: n_def)
qed

theorem magneto_test_echo_witness:
  "\<exists>st'. magneto_loop \<lparr>arrived = [0, 0x04, 0], adc = (\<lambda>p. 0), raw_angle = 0\<rparr> magneto_init =
      Some (st', [Serial_write (out_buffer st')]) \<and> frame_decode (out_buffer st') \<noteq> (2048, 4096)"
  using magneto_test_echo [where st = magneto_init and inp = "\<lparr>arrived = [0, 0x04, 0], adc = (\<lambda>p. 0), raw_angle = 0\<rparr>"
      and hi = "0x04" and lo = 0 and rest = "[]"]
  by (simp add: magneto_wf_def magneto_init_def)

text \<open>A command other than TEST and RUN leaves \<open>outBuffer\<close>
  unchanged. The reply the host receives is then the previous command's reply. STOP also
  sets the DAC to 0, and an unknown command has no other effect.\<close>

theorem magneto_stale_reply:
  assumes "magneto_wf st" "rx_queue st @ arrived inp = [c, hi, lo] @ rest" "c \<noteq> 0" "c \<noteq> 1"
  shows "magneto_loop inp st =
           Some (st\<lparr>in_buffer := [c, hi, lo], rx_queue := rest, flag := ucast c,
                    actuator := push_bit 8 (ucast hi) + ucast lo\<rparr>,
                 (if c = 2 then [actuator_write 0] else []) @ [Serial_write (out_buffer st)])"
  using assms
  by (simp add: magneto_loop_frame magneto_command_def TEST_def RUN_def STOP_def send_def)

theorem magneto_stale_reply_witness:
  "magneto_loop \<lparr>arrived = [2, 0, 0], adc = (\<lambda>p. 0), raw_angle = 0\<rparr> (magneto_init\<lparr>out_buffer := [0x12, 0x34, 0x56]\<rparr>) =
     Some (magneto_init\<lparr>out_buffer := [0x12, 0x34, 0x56], in_buffer := [2, 0, 0], flag := 2\<rparr>,
           [actuator_write 0, Serial_write [0x12, 0x34, 0x56]])"
  using magneto_stale_reply [where st = "magneto_init\<lparr>out_buffer := [0x12, 0x34, 0x56]\<rparr>"
      and inp = "\<lparr>arrived = [2, 0, 0], adc = (\<lambda>p. 0), raw_angle = 0\<rparr>" and c = 2 and hi = 0 and lo = 0 and rest = "[]"]
  by (simp add: magneto_wf_def magneto_init_def)

text \<open>C28 (functional). When only the command byte of a RUN frame arrives before the
  \<open>readBytes\<close> timeout, the bytes of the previous command stay in \<open>inBuffer\<close>. The DAC is
  then driven with the level bytes of that previous command.\<close>

theorem magneto_short_read:
  assumes "magneto_wf st" "rx_queue st @ arrived inp = [1]"
  shows "\<exists>st' bs. magneto_loop inp st =
           Some (st', [actuator_write (push_bit 8 (ucast (in_buffer st ! 1)) + ucast (in_buffer st ! 2)),
                       Serial_write bs])"
proof -
  obtain b0 b1 b2 where b: "in_buffer st = [b0, b1, b2]"
    using assms(1) unfolding magneto_wf_def by (auto simp: length_Suc_conv numeral_3_eq_3)
  have "receive (st\<lparr>rx_queue := rx_queue st @ arrived inp\<rparr>) =
          st\<lparr>in_buffer := [1, b1, b2], rx_queue := [], flag := 1,
             actuator := push_bit 8 (ucast b1) + ucast b2\<rparr>"
    using assms(2) b by (simp add: receive_def read_bytes_def)
  then show ?thesis
    using assms(2) b by (simp add: magneto_loop_def magneto_command_def TEST_def RUN_def send_def Let_def)
qed

theorem magneto_short_read_witness:
  "\<exists>st' bs. magneto_loop \<lparr>arrived = [1], adc = (\<lambda>p. 0), raw_angle = 0\<rparr> (magneto_init\<lparr>in_buffer := [1, 0x0A, 0xBC]\<rparr>) =
     Some (st', [actuator_write 0x0ABC, Serial_write bs])"
  using magneto_short_read [where st = "magneto_init\<lparr>in_buffer := [1, 0x0A, 0xBC]\<rparr>"
      and inp = "\<lparr>arrived = [1], adc = (\<lambda>p. 0), raw_angle = 0\<rparr>"]
  by (simp add: magneto_wf_def magneto_init_def)

text \<open>A call of \<open>loop()\<close> with nothing received has no effect. A call that
  received bytes ends with exactly one reply, the current \<open>outBuffer\<close>. Before the reply
  there is at most one other effect, a DAC write.\<close>

theorem magneto_loop_reply:
  assumes "magneto_loop inp st = Some (st', evs)"
  shows "(rx_queue st @ arrived inp = [] \<longrightarrow> evs = []) \<and>
         (rx_queue st @ arrived inp \<noteq> [] \<longrightarrow>
            (\<exists>evs0. evs = evs0 @ [Serial_write (out_buffer st')] \<and> length evs0 \<le> 1 \<and>
                    set evs0 \<subseteq> range actuator_write))"
  using assms
  by (auto simp: magneto_loop_def magneto_command_def set_out_buffer_def send_def Let_def
      split: if_splits option.splits prod.splits)

theorem magneto_loop_reply_witness:
  "\<exists>st' evs. magneto_loop \<lparr>arrived = [1, 0x0A, 0xBC], adc = (\<lambda>p. if p = A0 then 0x155 else 0x2AA), raw_angle = 0\<rparr> magneto_init = Some (st', evs) \<and>
     (\<exists>evs0. evs = evs0 @ [Serial_write (out_buffer st')] \<and> length evs0 \<le> 1 \<and>
             set evs0 \<subseteq> range actuator_write)"
proof -
  obtain st' evs where r: "magneto_loop \<lparr>arrived = [1, 0x0A, 0xBC], adc = (\<lambda>p. if p = A0 then 0x155 else 0x2AA), raw_angle = 0\<rparr> magneto_init = Some (st', evs)"
    by (simp add: magneto_init_def magneto_loop_def receive_def read_bytes_def magneto_command_def
        TEST_def RUN_def sensor_read_def set_out_buffer_def Let_def)
  show ?thesis using r magneto_loop_reply [OF r] by (simp add: magneto_init_def)
qed

end
