(* ===== verification/AeroShield.thy ===== *)
theory AeroShield
  imports Shield_Protocol
begin

text \<open>
  The AeroShield firmware (src_aeroshield/main.cpp). Its global buffers and the serial
  receive buffer are the record \<open>aero_state\<close>. \<open>aero_loop\<close> is one call of \<open>loop()\<close>,
  with the \<open>switch (inBuffer[0])\<close> as \<open>aero_command\<close>: TEST echoes the parameter byte
  doubled and quadrupled, RUN drives the motor (\<open>analogWrite\<close> on pin 5) and replies with
  the potentiometer and the AS5600 angle, and STOP stops the motor. No operation of this
  firmware can overflow: the parameter is a byte, so \<open>inBuffer[1] * 4\<close> is at most 1020.
\<close>

unbundle bit_operations_syntax

record aero_state =
  aero_in_buffer :: "byte list"
  aero_out_buffer :: "byte list"
  aero_rx_queue :: "byte list"

definition aero_init :: aero_state where
  "aero_init = \<lparr>aero_in_buffer = replicate 2 0, aero_out_buffer = replicate 3 0, aero_rx_queue = []\<rparr>"

definition actuator_pin :: nat where "actuator_pin = 5"

definition aero_receive :: "aero_state \<Rightarrow> aero_state" where
  "aero_receive st =
     st\<lparr>aero_in_buffer := read_bytes (aero_rx_queue st) (aero_in_buffer st),
        aero_rx_queue := drop (length (aero_in_buffer st)) (aero_rx_queue st)\<rparr>"

definition aero_send :: "aero_state \<Rightarrow> io_event" where
  "aero_send st = Serial_write (aero_out_buffer st)"

definition aero_command :: "loop_input \<Rightarrow> aero_state \<Rightarrow> aero_state \<times> io_event list" where
  "aero_command inp st =
     (let cmd = (ucast (aero_in_buffer st ! 0) :: avr_int);
          b = (ucast (aero_in_buffer st ! 1) :: avr_int)
      in if cmd = TEST then
           (let r1 = b * 2; r2 = b * 4
            in (st\<lparr>aero_out_buffer := [ucast ((signed_drop_bit 4 r1 AND 0xF0) + signed_drop_bit 8 r1),
                                       ucast (r1 AND 0xFF), ucast (r2 AND 0xFF)]\<rparr>, []))
         else if cmd = RUN then
           (let pot = adc inp A3; angle = raw_angle inp
            in (st\<lparr>aero_out_buffer := [ucast ((signed_drop_bit 4 pot AND 0xF0) + drop_bit 8 angle),
                                       ucast (pot AND 0xFF), ucast (angle AND 0xFF)]\<rparr>,
                [Analog_write actuator_pin b]))
         else if cmd = STOP then (st, [Analog_write actuator_pin 0])
         else (st, []))"

definition aero_loop :: "loop_input \<Rightarrow> aero_state \<Rightarrow> aero_state \<times> io_event list" where
  "aero_loop inp st0 =
     (let st = st0\<lparr>aero_rx_queue := aero_rx_queue st0 @ arrived inp\<rparr>
      in if 0 < length (aero_rx_queue st) then
           (case aero_command inp (aero_receive st) of (st', evs) \<Rightarrow> (st', evs @ [aero_send st']))
         else (st, []))"

text \<open>\<open>setup()\<close>: the serial port at 115200 baud, the I2C bus, and the AS5600 driver on
  that bus. The Arduino \<open>main()\<close> runs \<open>setup()\<close> once, then \<open>loop()\<close> once per
  input; no call of this firmware is undefined.\<close>

definition aero_setup :: "io_event list" where
  "aero_setup = [Serial_begin 115200, Wire_begin, As5600_set_wire, As5600_begin]"

fun aero_run :: "loop_input list \<Rightarrow> aero_state \<Rightarrow> aero_state \<times> io_event list" where
  "aero_run [] st = (st, [])"
| "aero_run (inp # inps) st =
     (case aero_loop inp st of (st', evs) \<Rightarrow> (case aero_run inps st' of (st'', evs') \<Rightarrow> (st'', evs @ evs')))"

definition aero_main :: "loop_input list \<Rightarrow> aero_state \<times> io_event list" where
  "aero_main inps = (case aero_run inps aero_init of (st, evs) \<Rightarrow> (st, aero_setup @ evs))"

definition aero_wf :: "aero_state \<Rightarrow> bool" where
  "aero_wf st \<longleftrightarrow> length (aero_in_buffer st) = 2 \<and> length (aero_out_buffer st) = 3"

subsection \<open>Receiving a frame\<close>

lemma aero_loop_frame:
  assumes "aero_wf st" "aero_rx_queue st @ arrived inp = [c, b] @ rest"
  shows "aero_loop inp st =
           (case aero_command inp (st\<lparr>aero_in_buffer := [c, b], aero_rx_queue := rest\<rparr>) of
              (st', evs) \<Rightarrow> (st', evs @ [aero_send st']))"
  using assms
  by (simp add: aero_loop_def aero_receive_def aero_wf_def read_bytes_full numeral_2_eq_2)

lemma aero_loop_wf:
  "aero_wf st \<Longrightarrow> aero_wf (fst (aero_loop inp st))"
  by (auto simp: aero_loop_def aero_command_def aero_receive_def aero_wf_def Let_def split: prod.splits)

lemma aero_loop_events: "\<forall>e \<in> set (snd (aero_loop inp st)). loop_event e"
  by (auto simp: aero_loop_def aero_command_def aero_send_def loop_event_def Let_def split: prod.splits)

lemma aero_run_inv:
  "aero_wf st \<Longrightarrow> aero_wf (fst (aero_run inps st)) \<and> (\<forall>e \<in> set (snd (aero_run inps st)). loop_event e)"
proof (induction inps arbitrary: st)
  case (Cons inp inps)
  have "aero_wf (fst (aero_loop inp st))" using Cons.prems by (rule aero_loop_wf)
  then show ?case
    using Cons.IH [of "fst (aero_loop inp st)"] aero_loop_events [of inp st]
    by (auto split: prod.splits)
qed simp

text \<open>\<open>setup()\<close> runs first and only once, and the buffers keep their declared sizes
  along every run.\<close>

lemma aero_main_setup_first:
  "\<exists>evs'. snd (aero_main inps) = aero_setup @ evs' \<and> (\<forall>e \<in> set evs'. loop_event e) \<and>
     aero_wf (fst (aero_main inps))"
proof -
  have "aero_wf aero_init" by (simp add: aero_wf_def aero_init_def)
  then show ?thesis
    using aero_run_inv [of aero_init inps] by (auto simp: aero_main_def split: prod.splits)
qed

text \<open>The TEST reply: \<open>r1 = 2 b\<close> fills byte 1 and the high nibble of byte 0, the low
  byte of \<open>r2 = 4 b\<close> fills byte 2, and the low nibble of byte 0 holds \<open>r1 >> 8\<close>.\<close>

lemma aero_test_bytes:
  fixes b :: byte
  defines "r1 \<equiv> ucast b * 2 :: avr_int" and "r2 \<equiv> ucast b * 4 :: avr_int"
  shows "frame_decode [ucast ((signed_drop_bit 4 r1 AND 0xF0) + signed_drop_bit 8 r1),
                       ucast (r1 AND 0xFF), ucast (r2 AND 0xFF)] =
           (2 * unat b, (unat b div 128) * 256 + (4 * unat b) mod 256)"
proof -
  have b: "unat b < 256" using unsigned_less [of b] by simp
  have u: "unat r1 = 2 * unat b" "unat r2 = 4 * unat b"
    using b by (simp_all add: r1_def r2_def unat_word_ariths)
  have s: "signed_drop_bit n r1 = drop_bit n r1" for n
    using u b by (intro signed_drop_bit_nonneg) simp
  have h: "2 * unat b div 256 = unat b div 128"
    by (simp add: div_mult2_eq [symmetric])
  have "unat ((drop_bit 4 r1 AND 0xF0) + drop_bit 8 r1) = (unat b div 128) * 16 + unat b div 128"
    using u b h by (simp add: unat_word_ariths div_mult2_eq [symmetric])
  moreover have k: "unat b div 128 = 0 \<or> unat b div 128 = 1" using b by linarith
  moreover have "(unat b div 128) * 256 + 2 * unat b mod 256 = 2 * unat b"
    using div_mult_mod_eq [of "2 * unat b" 256] h by simp
  ultimately show ?thesis
    using u by (auto simp: frame_decode_def s)
qed

subsection \<open>Properties of one call of loop()\<close>

text \<open>C29 (functional). The TEST reply of the AeroShield firmware puts \<open>r1 >> 8\<close> where
  the packing of every other reply puts the high bits of the second value, here
  \<open>r2 >> 8\<close>. So the echo of a parameter byte \<open>b\<close> decodes to \<open>(2 b, 4 b)\<close> exactly
  when \<open>b < 64\<close>, although both values fit in 12 bits for every byte.\<close>

theorem aero_test_echo:
  assumes "aero_wf st" "aero_rx_queue st @ arrived inp = [0, b] @ rest"
  shows "\<exists>st'. aero_loop inp st = (st', [Serial_write (aero_out_buffer st')]) \<and>
           (frame_decode (aero_out_buffer st') = (2 * unat b, 4 * unat b) \<longleftrightarrow> unat b < 64)"
proof -
  have d: "4 * unat b div 256 = unat b div 64"
    by (simp add: div_mult2_eq [symmetric])
  have E: "4 * unat b = unat b div 64 * 256 + 4 * unat b mod 256"
    using div_mult_mod_eq [of "4 * unat b" 256] d by simp
  have "(unat b div 128) * 256 + (4 * unat b) mod 256 = 4 * unat b \<longleftrightarrow> unat b div 64 div 2 = unat b div 64"
    using E by (simp add: div_mult2_eq [symmetric]) linarith
  also have "\<dots> \<longleftrightarrow> unat b < 64" by auto
  finally have e: "(unat b div 128) * 256 + (4 * unat b) mod 256 = 4 * unat b \<longleftrightarrow> unat b < 64" .
  show ?thesis
    using assms e aero_test_bytes [of b]
    by (simp add: aero_loop_frame aero_command_def TEST_def aero_send_def Let_def)
qed

theorem aero_test_echo_witness:
  "\<exists>st'. aero_loop \<lparr>arrived = [0, 64], adc = (\<lambda>p. 0x2AA), raw_angle = 0x9F1\<rparr> aero_init = (st', [Serial_write (aero_out_buffer st')]) \<and>
      frame_decode (aero_out_buffer st') \<noteq> (128, 256)"
  using aero_test_echo [where st = aero_init and inp = "\<lparr>arrived = [0, 64], adc = (\<lambda>p. 0x2AA), raw_angle = 0x9F1\<rparr>" and b = 64 and rest = "[]"]
  by (simp add: aero_wf_def aero_init_def)

text \<open>A complete RUN frame \<open>[1, b]\<close> first drives the motor with
  \<open>analogWrite(5, b)\<close>, then replies with one frame. The frame decodes to the
  potentiometer reading and the AS5600 raw angle of this call, when both fit in 12 bits
  (the ADC gives 10 bits, the encoder 12).\<close>

theorem aero_run_roundtrip:
  assumes "aero_wf st" "aero_rx_queue st @ arrived inp = [1, b] @ rest"
    and "unat (adc inp A3) < 4096" "unat (raw_angle inp) < 4096"
  shows "\<exists>st' bs. aero_loop inp st = (st', [Analog_write actuator_pin (ucast b), Serial_write bs]) \<and>
           frame_decode bs = (unat (adc inp A3), unat (raw_angle inp)) \<and> aero_rx_queue st' = rest"
  using assms frame_decode_pack [of "adc inp A3" "raw_angle inp"]
  by (simp add: aero_loop_frame aero_command_def TEST_def RUN_def aero_send_def Let_def
      signed_drop_bit_nonneg)

theorem aero_run_roundtrip_witness:
  "\<exists>st' bs. aero_loop \<lparr>arrived = [1, 200], adc = (\<lambda>p. 0x2AA), raw_angle = 0x9F1\<rparr> aero_init = (st', [Analog_write actuator_pin 200, Serial_write bs]) \<and>
      frame_decode bs = (682, 2545) \<and> aero_rx_queue st' = []"
  using aero_run_roundtrip [where st = aero_init and inp = "\<lparr>arrived = [1, 200], adc = (\<lambda>p. 0x2AA), raw_angle = 0x9F1\<rparr>" and b = 200 and rest = "[]"]
  by (simp add: aero_wf_def aero_init_def)

end
