(* ===== verification/Slau.thy ===== *)
theory Slau
  imports Complex_Main
begin

text \<open>
  The linear system of pyfdmss (src/Slau.cpp of pyfdmss 0.0.9): the constructor
  \<open>Slau::Slau\<close> sets up the equations that relate a finite-difference stencil to the
  Taylor coefficients of a function, and \<open>Trianglize\<close> with \<open>SolveForSecondDerivative\<close>
  solves them by Gaussian elimination with row search (\<open>SeekRow\<close>, \<open>SwapRows\<close>,
  \<open>AddToRow\<close>) and back substitution.

  \<^item> \<open>float\<close> is \<open>real\<close>: rounding is not modelled. A \<open>float\<close> division by zero does not
    trap in C but yields infinities or NaN, so it is the error \<open>Nonfinite\<close>, never HOL's
    \<open>x / 0 = 0\<close>.
  \<^item> \<open>Polynom\<close> (Polynom.h) and \<open>EnvCase\<close> are not part of the sources. A polynomial is
    its coefficient function \<open>int \<Rightarrow> real\<close>, with \<open>add(q, m)\<close> adding \<open>m q\<close> and
    \<open>operator/\<close> dividing every coefficient; an \<open>EnvCase\<close> is the record of the values its
    accessors return.
  \<^item> The matrix \<open>A\<close> is the list of its \<open>p\<close> rows, and \<open>B\<close> the list of the right-hand
    sides. Indices that the code keeps in \<open>int\<close> and that are never negative are \<open>nat\<close>.
    The exception is the \<open>-1\<close> that \<open>SeekRow\<close> returns.
\<close>

type_synonym polynom = "int \<Rightarrow> real"

definition poly_new :: polynom where "poly_new = (\<lambda>_. 0)"

definition poly_add :: "polynom \<Rightarrow> polynom \<Rightarrow> real \<Rightarrow> polynom" where
  "poly_add f g m = (\<lambda>k. f k + m * g k)"

definition poly_div :: "polynom \<Rightarrow> real \<Rightarrow> polynom" where
  "poly_div f d = (\<lambda>k. f k / d)"

record env_case =
  x_left :: int
  x_right :: int
  y_left :: int
  y_right :: int
  p_x :: nat
  p_y :: nat
  center_x :: int
  center_y :: int
  left_x_included :: bool
  right_x_included :: bool
  left_y_included :: bool
  right_y_included :: bool

record slau =
  slau_p :: nat
  slau_A :: "real list list"
  slau_B :: "polynom list"

datatype slau_error = Row_overflow | No_unknowns | Nonfinite

text \<open>\<open>GetTaylorCoeffs(d, maxp)\<close>: the running numerator \<open>d ^ k\<close> and denominator
  \<open>k!\<close>, and the coefficient \<open>d ^ k / k!\<close> stored at \<open>k - 1\<close>.\<close>

definition get_taylor_coeffs :: "real \<Rightarrow> nat \<Rightarrow> real list" where
  "get_taylor_coeffs d maxp =
     (case foldl (\<lambda>(nom, den, cfs) k. (nom * d, den * of_nat k, cfs @ [nom * d / (den * of_nat k)]))
            (1, 1, []) [1..<Suc maxp] of (_, _, cfs) \<Rightarrow> cfs)"

text \<open>The rows the constructor writes, in order: the left boundary row, one row per
  stencil velocity other than the centre, the right boundary row.\<close>

definition slau_rows :: "int \<Rightarrow> int \<Rightarrow> nat \<Rightarrow> int \<Rightarrow> bool \<Rightarrow> bool \<Rightarrow> (real list \<times> polynom) list" where
  "slau_rows left right p center leftIncl rightIncl =
     (let initVel = 1 + (if leftIncl then 1 else 0);
          maxVel = int p + (if rightIncl then 0 else 1)
      in (if leftIncl then [(get_taylor_coeffs (- 0.5 - of_int left) p, poly_new(center := -1))] else [])
         @ concat (map (\<lambda>vel. if vel = center then []
                              else [(get_taylor_coeffs (of_int (vel - center)) p,
                                     poly_new(vel := 1, center := -1))]) [initVel..maxVel])
         @ (if rightIncl then [(get_taylor_coeffs (0.5 + of_int right) p, poly_new(center := -1))] else []))"

text \<open>\<open>Slau::Slau(cs, firstOrSecond)\<close>: the arrays \<open>A\<close> and \<open>B\<close> hold \<open>p\<close> rows, and
  writing a row at index \<open>p\<close> or beyond is a heap overflow (\<open>Row_overflow\<close>).\<close>

definition env_side :: "env_case \<Rightarrow> int \<Rightarrow> int \<times> int \<times> nat \<times> int \<times> bool \<times> bool" where
  "env_side cs firstOrSecond =
     (if firstOrSecond = 1
      then (x_left cs, x_right cs, p_x cs, center_x cs, left_x_included cs, right_x_included cs)
      else (y_left cs, y_right cs, p_y cs, center_y cs, left_y_included cs, right_y_included cs))"

definition slau_init :: "env_case \<Rightarrow> int \<Rightarrow> slau_error + slau" where
  "slau_init cs firstOrSecond =
     (case env_side cs firstOrSecond of (left, right, p, center, leftIncl, rightIncl) \<Rightarrow>
        let rows = slau_rows left right p center leftIncl rightIncl
        in if length rows \<le> p then Inr \<lparr>slau_p = p, slau_A = map fst rows, slau_B = map snd rows\<rparr>
           else Inl Row_overflow)"

text \<open>\<open>printA()\<close> and \<open>printB()\<close>: the matrix row by row, and the coefficients
  \<open>1 .. p + 1\<close> of each right-hand side, each value with \<open>"%.4f "\<close>, a newline after each
  row and one at the end.\<close>

datatype print_item = Print_float real | Print_newline

definition print_A :: "slau \<Rightarrow> print_item list" where
  "print_A s =
     concat (map (\<lambda>i. map (\<lambda>j. Print_float (slau_A s ! i ! j)) [0..<slau_p s] @ [Print_newline]) [0..<slau_p s])
     @ [Print_newline]"

definition print_B :: "slau \<Rightarrow> print_item list" where
  "print_B s =
     concat (map (\<lambda>i. map (\<lambda>j. Print_float ((slau_B s ! i) (int j))) [1..<slau_p s + 2] @ [Print_newline])
               [0..<slau_p s])
     @ [Print_newline]"

definition swap_rows :: "slau \<Rightarrow> int \<Rightarrow> int \<Rightarrow> slau" where
  "swap_rows s a b =
     (if a = b then s
      else if 0 \<le> a \<and> a < int (slau_p s) \<and> 0 \<le> b \<and> b < int (slau_p s)
      then s\<lparr>slau_A := (slau_A s)[nat a := slau_A s ! nat b, nat b := slau_A s ! nat a],
             slau_B := (slau_B s)[nat a := slau_B s ! nat b, nat b := slau_B s ! nat a]\<rparr>
      else s)"

text \<open>\<open>AddToRow(row, ccol)\<close>: the column loop reads \<open>A[ccol]\<close> from the matrix it is
  updating, as the C loop does.\<close>

definition add_to_row :: "slau \<Rightarrow> nat \<Rightarrow> nat \<Rightarrow> slau option" where
  "add_to_row s row ccol =
     (let A = slau_A s in
      if A ! row ! ccol = 0 then Some s
      else if A ! ccol ! ccol = 0 then None
      else
        (let mult = - (A ! row ! ccol) / (A ! ccol ! ccol);
             A' = foldl (\<lambda>A i. A[row := (A ! row)[i := A ! row ! i + mult * (A ! ccol ! i)]]) A
                    [ccol..<slau_p s];
             B = slau_B s
         in Some (s\<lparr>slau_A := A'[row := (A' ! row)[ccol := 0]],
                    slau_B := B[row := poly_add (B ! row) (B ! ccol) mult]\<rparr>)))"

function seek_row_from :: "real list list \<Rightarrow> nat \<Rightarrow> nat \<Rightarrow> nat \<Rightarrow> int" where
  "seek_row_from A p col rowIdx =
     (if rowIdx < p then (if A ! rowIdx ! col \<noteq> 0 then int rowIdx else seek_row_from A p col (Suc rowIdx))
      else -1)"
  by pat_completeness auto
termination
  by (relation "measure (\<lambda>(A, p, col, rowIdx). p - rowIdx)") auto

declare seek_row_from.simps [simp del]

definition seek_row :: "slau \<Rightarrow> nat \<Rightarrow> int" where
  "seek_row s col = seek_row_from (slau_A s) (slau_p s) col col"

text \<open>\<open>Trianglize()\<close>: for each column but the last, bring the first row with a non-zero
  entry to the diagonal, then eliminate the entries below it.\<close>

definition eliminate_column :: "slau \<Rightarrow> nat \<Rightarrow> slau option" where
  "eliminate_column s cl =
     foldl (\<lambda>so row. case so of None \<Rightarrow> None | Some s \<Rightarrow> add_to_row s row cl)
       (Some (swap_rows s (int cl) (seek_row s cl))) [Suc cl..<slau_p s]"

definition trianglize :: "slau \<Rightarrow> slau option" where
  "trianglize s =
     foldl (\<lambda>so cl. case so of None \<Rightarrow> None | Some s \<Rightarrow> eliminate_column s cl) (Some s) [0..<slau_p s - 1]"

text \<open>\<open>SolveForSecondDerivative()\<close>: back substitution from the last row up to row 1
  into \<open>sols\<close>, updating \<open>B[resIdx]\<close> in place, and the result \<open>sols[0]\<close>. With
  \<open>p \<le> 1\<close> the array \<open>sols\<close> has no element 0 (\<open>No_unknowns\<close>).\<close>

definition back_substitute_row :: "slau \<times> (nat \<Rightarrow> polynom) \<Rightarrow> nat \<Rightarrow> (slau \<times> (nat \<Rightarrow> polynom)) option" where
  "back_substitute_row st resIdx =
     (case st of (s, sols) \<Rightarrow>
        let B = foldl (\<lambda>B col. B[resIdx := poly_add (B ! resIdx) (sols (col - 1)) (- (slau_A s ! resIdx ! col))])
                  (slau_B s) [Suc resIdx..<slau_p s]
        in if slau_A s ! resIdx ! resIdx = 0 then None
           else Some (s\<lparr>slau_B := B\<rparr>, sols(resIdx - 1 := poly_div (B ! resIdx) (slau_A s ! resIdx ! resIdx))))"

definition solve_second_derivative :: "slau \<Rightarrow> slau_error + (slau \<times> polynom)" where
  "solve_second_derivative s0 =
     (case trianglize s0 of
        None \<Rightarrow> Inl Nonfinite
      | Some s \<Rightarrow>
          if slau_p s \<le> 1 then Inl No_unknowns
          else (case foldl (\<lambda>so r. case so of None \<Rightarrow> None | Some st \<Rightarrow> back_substitute_row st r)
                        (Some (s, \<lambda>_. poly_new)) (rev [1..<slau_p s]) of
                  None \<Rightarrow> Inl Nonfinite
                | Some (s', sols) \<Rightarrow> Inr (s', sols 0)))"

subsection \<open>What the solver promises\<close>

text \<open>A system is well formed when \<open>A\<close> is \<open>p \<times> p\<close> and \<open>B\<close> has \<open>p\<close> entries. The
  unknowns \<open>x j\<close> are polynomials, and \<open>x\<close> solves the system when every row \<open>i\<close> gives
  \<open>\<Sum>j<p. A[i][j] x j = B[i]\<close>. \<open>zero_below s c\<close> says that the columns before \<open>c\<close> hold
  zeros under the diagonal, and a system is triangular when every column does.\<close>

definition slau_wf :: "slau \<Rightarrow> bool" where
  "slau_wf s \<longleftrightarrow> length (slau_A s) = slau_p s \<and> length (slau_B s) = slau_p s \<and>
                  (\<forall>r \<in> set (slau_A s). length r = slau_p s)"

definition solves :: "slau \<Rightarrow> (nat \<Rightarrow> polynom) \<Rightarrow> bool" where
  "solves s x \<longleftrightarrow>
     (\<forall>i < slau_p s. (\<lambda>k. \<Sum>j<slau_p s. slau_A s ! i ! j * x j k) = slau_B s ! i)"

definition zero_below :: "slau \<Rightarrow> nat \<Rightarrow> bool" where
  "zero_below s c \<longleftrightarrow> (\<forall>i < slau_p s. \<forall>j < min i c. slau_A s ! i ! j = 0)"

text \<open>The textbook row operation: equation \<open>row\<close> plus \<open>m\<close> times equation \<open>c\<close>.\<close>

definition row_combine :: "slau \<Rightarrow> nat \<Rightarrow> nat \<Rightarrow> real \<Rightarrow> slau" where
  "row_combine s row c m =
     s\<lparr>slau_A := (slau_A s)[row := map (\<lambda>j. slau_A s ! row ! j + m * slau_A s ! c ! j) [0..<slau_p s]],
       slau_B := (slau_B s)[row := poly_add (slau_B s ! row) (slau_B s ! c) m]\<rparr>"

definition upper_triangular :: "slau \<Rightarrow> bool" where
  "upper_triangular s \<longleftrightarrow> (\<forall>i < slau_p s. \<forall>j < i. slau_A s ! i ! j = 0)"


subsection \<open>A stencil\<close>

text \<open>The stencil of two points to the right of the centre \<open>1\<close>, with no boundary
  rows: \<open>p = 2\<close>, velocities 2 and 3.\<close>

definition ex_env :: env_case where
  "ex_env = \<lparr>x_left = 0, x_right = 0, y_left = 0, y_right = 0, p_x = 2, p_y = 2, center_x = 1, center_y = 1,
             left_x_included = False, right_x_included = False, left_y_included = False, right_y_included = False\<rparr>"

definition ex_slau :: slau where
  "ex_slau = \<lparr>slau_p = 2, slau_A = [[1, 1/2], [2, 2]],
              slau_B = [poly_new(2 := 1, 1 := -1), poly_new(3 := 1, 1 := -1)]\<rparr>"

subsection \<open>Lemmas\<close>

lemma taylor_fold:
  "foldl (\<lambda>(nom, den, cfs) k. (nom * d, den * of_nat k, cfs @ [nom * d / (den * of_nat k)]))
      (1, 1, []) [1..<Suc n] = ((d::real) ^ n, fact n, map (\<lambda>k. d ^ k / fact k) [1..<Suc n])"
proof (induction n)
  case (Suc n)
  have "[1..<Suc (Suc n)] = [1..<Suc n] @ [Suc n]" by simp
  then show ?case using Suc.IH by (simp add: algebra_simps)
qed simp

lemma length_concat_skip:
  "length (concat (map (\<lambda>v. if v = c then [] else [f v]) xs)) = length (filter (\<lambda>v. v \<noteq> c) xs)"
  by (induction xs) auto

lemma length_filter_upto:
  "length (filter (\<lambda>v. v \<noteq> c) [a..b]) = nat (b - a + 1) - (if a \<le> c \<and> c \<le> b then 1 else 0)"
proof -
  have "length (filter (\<lambda>v. v \<noteq> c) [a..b]) = card ({a..b} - {c})"
    using distinct_card [of "filter (\<lambda>v. v \<noteq> c) [a..b]"] by (simp add: set_diff_eq)
  then show ?thesis by (simp add: card_Diff_singleton_if)
qed

lemma length_slau_rows:
  "length (slau_rows left right p center leftIncl rightIncl) =
     (if leftIncl then 1 else 0) + (if rightIncl then 1 else 0)
     + nat (int p + (if rightIncl then 0 else 1) - (1 + (if leftIncl then 1 else 0)) + 1)
     - (if 1 + (if leftIncl then 1 else 0) \<le> center \<and> center \<le> int p + (if rightIncl then 0 else 1) then 1 else 0)"
  unfolding slau_rows_def Let_def
  by (simp add: length_concat_skip length_filter_upto)


lemma find_upt_Some:
  "find P [r..<p] = Some k \<longleftrightarrow> r \<le> k \<and> k < p \<and> P k \<and> (\<forall>i \<in> {r..<k}. \<not> P i)"
proof
  assume "find P [r..<p] = Some k"
  then obtain n where n: "n < p - r" "k = r + n" "P k" "\<forall>j < n. \<not> P (r + j)"
    by (auto simp: find_Some_iff)
  have "\<not> P i" if "i \<in> {r..<k}" for i
  proof -
    have "i - r < n" "r + (i - r) = i" using that n(2) by auto
    then show ?thesis using n(4) by metis
  qed
  then show "r \<le> k \<and> k < p \<and> P k \<and> (\<forall>i \<in> {r..<k}. \<not> P i)" using n by auto
next
  assume k: "r \<le> k \<and> k < p \<and> P k \<and> (\<forall>i \<in> {r..<k}. \<not> P i)"
  then show "find P [r..<p] = Some k"
    by (auto simp: find_Some_iff intro!: exI [of _ "k - r"])
qed

lemma seek_row_from_find:
  "seek_row_from A p col r = (case find (\<lambda>i. A ! i ! col \<noteq> 0) [r..<p] of None \<Rightarrow> -1 | Some i \<Rightarrow> int i)"
proof (induction A p col r rule: seek_row_from.induct)
  case (1 A p col r)
  show ?case
  proof (cases "r < p")
    case True
    then have "[r..<p] = r # [Suc r..<p]" by (simp add: upt_conv_Cons)
    then show ?thesis using 1 True by (simp add: seek_row_from.simps [of A p col r])
  next
    case False
    then show ?thesis by (simp add: seek_row_from.simps [of A p col r])
  qed
qed

lemma fold_row_op:
  assumes "row \<noteq> c" "row < length A" "hi \<le> length (A ! row)"
  shows "foldl (\<lambda>A i. A[row := (A ! row)[i := A ! row ! i + m * (A ! c ! i)]]) A [lo..<hi] =
           A[row := map (\<lambda>j. if lo \<le> j \<and> j < hi then A ! row ! j + m * A ! c ! j else A ! row ! j)
                       [0..<length (A ! row)]]"
  using assms(3)
proof (induction hi)
  case 0
  then show ?case by (simp add: map_nth)
next
  case (Suc hi)
  show ?case
  proof (cases "lo \<le> hi")
    case True
    then have u: "[lo..<Suc hi] = [lo..<hi] @ [hi]" by simp
    show ?thesis
      unfolding u foldl_append using Suc assms(1,2) True
      by (auto intro!: nth_equalityI simp: nth_list_update)
  next
    case False
    have "map (\<lambda>j. if lo \<le> j \<and> j < Suc hi then A ! row ! j + m * A ! c ! j else A ! row ! j)
            [0..<length (A ! row)] = A ! row"
      by (rule nth_equalityI) (use False in auto)
    then show ?thesis using False by simp
  qed
qed


lemma slau_wf_row: "slau_wf s \<Longrightarrow> i < slau_p s \<Longrightarrow> length (slau_A s ! i) = slau_p s"
  by (simp add: slau_wf_def)

lemma poly_add_0 [simp]: "poly_add f g 0 = f"
  by (simp add: poly_add_def)

lemma add_to_row_combine:
  assumes wf: "slau_wf s" and r: "row < slau_p s" "c < slau_p s" "row \<noteq> c"
    and z: "\<forall>j<c. slau_A s ! c ! j = 0"
    and piv: "slau_A s ! c ! c \<noteq> 0 \<or> slau_A s ! row ! c = 0"
  shows "add_to_row s row c =
           Some (row_combine s row c (if slau_A s ! row ! c = 0 then 0 else - (slau_A s ! row ! c) / (slau_A s ! c ! c)))"
proof (cases "slau_A s ! row ! c = 0")
  case True
  have "map (\<lambda>j. slau_A s ! row ! j) [0..<slau_p s] = slau_A s ! row"
    using slau_wf_row [OF wf r(1)] by (metis map_nth)
  then show ?thesis
    using True wf r by (simp add: add_to_row_def row_combine_def slau_wf_def)
next
  case False
  with piv have p: "slau_A s ! c ! c \<noteq> 0" by simp
  define m where "m = - (slau_A s ! row ! c) / (slau_A s ! c ! c)"
  have len: "length (slau_A s ! row) = slau_p s" "row < length (slau_A s)"
    using wf r by (simp_all add: slau_wf_def)
  have f: "foldl (\<lambda>A i. A[row := (A ! row)[i := A ! row ! i + m * (A ! c ! i)]]) (slau_A s) [c..<slau_p s] =
           (slau_A s)[row := map (\<lambda>j. if c \<le> j \<and> j < slau_p s then slau_A s ! row ! j + m * slau_A s ! c ! j
                                        else slau_A s ! row ! j) [0..<slau_p s]]"
    using fold_row_op [OF r(3) len(2), of "slau_p s" m c] len by simp
  have row: "(map (\<lambda>j. if c \<le> j \<and> j < slau_p s then slau_A s ! row ! j + m * slau_A s ! c ! j
                    else slau_A s ! row ! j) [0..<slau_p s])[c := 0] =
             map (\<lambda>j. slau_A s ! row ! j + m * slau_A s ! c ! j) [0..<slau_p s]"
    using z p r(2) by (auto intro!: nth_equalityI simp: nth_list_update m_def)
  show ?thesis
    unfolding add_to_row_def Let_def m_def [symmetric] f
    using False p len by (simp add: row row_combine_def m_def [symmetric])
qed

lemma solves_iff: "solves s x \<longleftrightarrow> (\<forall>i < slau_p s. \<forall>k. (\<Sum>j<slau_p s. slau_A s ! i ! j * x j k) = (slau_B s ! i) k)"
  by (auto simp: solves_def fun_eq_iff)

lemma row_combine_solves:
  assumes wf: "slau_wf s" and r: "row < slau_p s" "c < slau_p s" "row \<noteq> c"
  shows "solves (row_combine s row c m) x \<longleftrightarrow> solves s x"
proof -
  let ?E = "\<lambda>i k. \<Sum>j<slau_p s. slau_A s ! i ! j * x j k"
  let ?s = "row_combine s row c m"
  have len: "length (slau_A s) = slau_p s" "length (slau_B s) = slau_p s"
    using wf by (simp_all add: slau_wf_def)
  have E': "(\<Sum>j<slau_p s. slau_A ?s ! i ! j * x j k) =
              (if i = row then ?E row k + m * ?E c k else ?E i k)" if "i < slau_p s" for i k
  proof (cases "i = row")
    case True
    have "(\<Sum>j<slau_p s. slau_A ?s ! i ! j * x j k) =
            (\<Sum>j<slau_p s. (slau_A s ! row ! j + m * slau_A s ! c ! j) * x j k)"
      using True len r by (intro sum.cong) (simp_all add: row_combine_def)
    also have "\<dots> = ?E row k + m * ?E c k"
      by (simp add: algebra_simps sum.distrib sum_distrib_left)
    finally show ?thesis using True by simp
  next
    case False
    then show ?thesis by (simp add: row_combine_def)
  qed
  have B': "(slau_B ?s ! i) k = (if i = row then (slau_B s ! row) k + m * (slau_B s ! c) k else (slau_B s ! i) k)"
    if "i < slau_p s" for i k
    using len r by (simp add: row_combine_def poly_add_def)
  have p: "slau_p ?s = slau_p s" by (simp add: row_combine_def)
  show ?thesis
    unfolding solves_iff p
  proof (intro iffI allI impI)
    fix i k assume h: "\<forall>i<slau_p s. \<forall>k. (\<Sum>j<slau_p s. slau_A ?s ! i ! j * x j k) = (slau_B ?s ! i) k"
      and i: "i < slau_p s"
    have hc: "?E c k = (slau_B s ! c) k" using h [rule_format, OF r(2), of k] E' [OF r(2)] B' [OF r(2)] r(3) by simp
    show "?E i k = (slau_B s ! i) k"
      using h [rule_format, OF i, of k] E' [OF i] B' [OF i] hc by (simp split: if_splits)
  next
    fix i k assume h: "\<forall>i<slau_p s. \<forall>k. ?E i k = (slau_B s ! i) k" and i: "i < slau_p s"
    show "(\<Sum>j<slau_p s. slau_A ?s ! i ! j * x j k) = (slau_B ?s ! i) k"
      using h r(2) i E' [OF i] B' [OF i] by simp
  qed
qed


lemma swap_rows_simps:
  assumes "a < slau_p s" "b < slau_p s" "slau_wf s"
  shows "slau_p (swap_rows s (int a) (int b)) = slau_p s"
    and "length (slau_A (swap_rows s (int a) (int b))) = slau_p s"
    and "length (slau_B (swap_rows s (int a) (int b))) = slau_p s"
    and "i < slau_p s \<Longrightarrow> slau_A (swap_rows s (int a) (int b)) ! i =
           slau_A s ! (if i = a then b else if i = b then a else i)"
    and "i < slau_p s \<Longrightarrow> slau_B (swap_rows s (int a) (int b)) ! i =
           slau_B s ! (if i = a then b else if i = b then a else i)"
  using assms by (auto simp: swap_rows_def slau_wf_def nth_list_update)

lemma all_swap:
  assumes "a < n" "b < n"
  shows "(\<forall>i<n. P (if i = a then b else if i = b then a else i)) \<longleftrightarrow> (\<forall>i<n. P i)"
proof
  assume h: "\<forall>i<n. P (if i = a then b else if i = b then a else i)"
  show "\<forall>i<n. P i"
  proof (intro allI impI)
    fix i assume "i < n"
    then show "P i" using h assms by (cases "i = a"; cases "i = b") (metis, metis, metis, metis)
  qed
next
  assume "\<forall>i<n. P i"
  then show "\<forall>i<n. P (if i = a then b else if i = b then a else i)" using assms by simp
qed

lemma swap_rows_props:
  assumes wf: "slau_wf s" and ab: "a < slau_p s" "b < slau_p s"
  shows "slau_wf (swap_rows s (int a) (int b)) \<and> slau_p (swap_rows s (int a) (int b)) = slau_p s \<and>
         (\<forall>x. solves (swap_rows s (int a) (int b)) x \<longleftrightarrow> solves s x)"
proof -
  let ?s = "swap_rows s (int a) (int b)"
  have rows: "\<forall>r\<in>set (slau_A ?s). length r = slau_p s"
  proof
    fix r assume "r \<in> set (slau_A ?s)"
    then obtain i where "i < slau_p s" "r = slau_A ?s ! i"
      using swap_rows_simps(2) [OF ab wf] by (metis in_set_conv_nth)
    then show "length r = slau_p s"
      using swap_rows_simps(4) [OF ab wf] ab wf by (simp add: slau_wf_def)
  qed
  have "solves ?s x \<longleftrightarrow> solves s x" for x
    unfolding solves_iff swap_rows_simps(1) [OF ab wf]
    using all_swap [OF ab, where P = "\<lambda>i. \<forall>k. (\<Sum>j<slau_p s. slau_A s ! i ! j * x j k) = (slau_B s ! i) k"]
    by (simp add: swap_rows_simps(4,5) [OF ab wf] cong: if_cong)
  then show ?thesis
    using rows swap_rows_simps(1-3) [OF ab wf] by (simp add: slau_wf_def)
qed


lemma zero_below_swap:
  assumes z: "zero_below s c" and ab: "c \<le> a" "c \<le> b" "a < slau_p s" "b < slau_p s" and wf: "slau_wf s"
  shows "zero_below (swap_rows s (int a) (int b)) c"
  unfolding zero_below_def swap_rows_simps(1) [OF ab(3,4) wf]
proof (intro allI impI)
  fix i j assume i: "i < slau_p s" and j: "j < min i c"
  have jc: "j < c" "j < i" using j by simp_all
  have key: "slau_A s ! i' ! j = 0" if "i' < slau_p s" "c \<le> i' \<or> j < i'" for i'
    using z that jc(1) unfolding zero_below_def by auto
  show "slau_A (swap_rows s (int a) (int b)) ! i ! j = 0"
    unfolding swap_rows_simps(4) [OF ab(3,4) wf i]
    using key ab i jc(2) by simp
qed

lemma seek_row_Some:
  "find (\<lambda>i. slau_A s ! i ! c \<noteq> 0) [c..<slau_p s] = Some r \<Longrightarrow>
     seek_row s c = int r \<and> c \<le> r \<and> r < slau_p s \<and> slau_A s ! r ! c \<noteq> 0"
proof -
  assume f: "find (\<lambda>i. slau_A s ! i ! c \<noteq> 0) [c..<slau_p s] = Some r"
  then have "seek_row s c = int r" by (simp add: seek_row_def seek_row_from_find)
  moreover have "c \<le> r \<and> r < slau_p s \<and> slau_A s ! r ! c \<noteq> 0"
    using f by (auto simp: find_Some_iff)
  ultimately show ?thesis by simp
qed

lemma seek_row_None:
  "find (\<lambda>i. slau_A s ! i ! c \<noteq> 0) [c..<slau_p s] = None \<Longrightarrow>
     seek_row s c = -1 \<and> (\<forall>r. c \<le> r \<and> r < slau_p s \<longrightarrow> slau_A s ! r ! c = 0)"
proof -
  assume f: "find (\<lambda>i. slau_A s ! i ! c \<noteq> 0) [c..<slau_p s] = None"
  then have "seek_row s c = -1" by (simp add: seek_row_def seek_row_from_find)
  moreover have "\<forall>r. c \<le> r \<and> r < slau_p s \<longrightarrow> slau_A s ! r ! c = 0"
    using f by (simp add: find_None_iff)
  ultimately show ?thesis by simp
qed

text \<open>After \<open>SwapRows(cl, SeekRow(cl))\<close> the diagonal entry is a pivot, or the column
  is zero on and below the diagonal.\<close>

lemma swap_seek:
  assumes wf: "slau_wf s" and z: "zero_below s c" and c: "c < slau_p s"
  defines "s1 \<equiv> swap_rows s (int c) (seek_row s c)"
  shows "slau_wf s1 \<and> slau_p s1 = slau_p s \<and> zero_below s1 c \<and> (\<forall>x. solves s1 x \<longleftrightarrow> solves s x) \<and>
         (slau_A s1 ! c ! c \<noteq> 0 \<or> (\<forall>r. c \<le> r \<and> r < slau_p s \<longrightarrow> slau_A s1 ! r ! c = 0))"
proof (cases "find (\<lambda>i. slau_A s ! i ! c \<noteq> 0) [c..<slau_p s]")
  case None
  then have "s1 = s" unfolding s1_def swap_rows_def using seek_row_None [OF None] by simp
  then show ?thesis using wf z seek_row_None [OF None] by blast
next
  case (Some r)
  have k: "slau_A s ! r ! c \<noteq> 0" and rc: "c \<le> r" "r < slau_p s"
    using seek_row_Some [OF Some] by simp_all
  have s1: "s1 = swap_rows s (int c) (int r)" using seek_row_Some [OF Some] by (simp add: s1_def)
  have piv: "slau_A (swap_rows s (int c) (int r)) ! c ! c = slau_A s ! r ! c"
    using swap_rows_simps(4) [OF c rc(2) wf c] by simp
  show ?thesis
    unfolding s1
    using swap_rows_props [OF wf c rc(2)] zero_below_swap [OF z order.refl rc(1) c rc(2) wf] piv k
    by simp
qed


lemma row_combine_wf:
  assumes "slau_wf s" "row < slau_p s"
  shows "slau_wf (row_combine s row c m) \<and> slau_p (row_combine s row c m) = slau_p s"
  using assms by (auto simp: slau_wf_def row_combine_def dest!: set_update_subset_insert [THEN subsetD])

lemma row_combine_A:
  assumes "slau_wf s" "row < slau_p s" "i < slau_p s"
  shows "slau_A (row_combine s row c m) ! i =
           (if i = row then map (\<lambda>j. slau_A s ! row ! j + m * slau_A s ! c ! j) [0..<slau_p s] else slau_A s ! i)"
  using assms by (simp add: row_combine_def slau_wf_def)

text \<open>The loop \<open>for (row = cl + 1; row < p; row++) AddToRow(row, cl)\<close>, up to row
  \<open>hi\<close>: no division by zero, and every row below the pivot it has passed has a zero in
  column \<open>cl\<close>.\<close>

lemma eliminate_rows:
  assumes wf: "slau_wf s1" and z: "zero_below s1 c" and c: "c < slau_p s1"
    and piv: "slau_A s1 ! c ! c \<noteq> 0 \<or> (\<forall>r. c \<le> r \<and> r < slau_p s1 \<longrightarrow> slau_A s1 ! r ! c = 0)"
    and hi: "hi \<le> slau_p s1"
  shows "\<exists>t. foldl (\<lambda>so row. case so of None \<Rightarrow> None | Some s \<Rightarrow> add_to_row s row c) (Some s1) [Suc c..<hi] = Some t \<and>
           slau_wf t \<and> slau_p t = slau_p s1 \<and> zero_below t c \<and> slau_A t ! c = slau_A s1 ! c \<and>
           (\<forall>x. solves t x \<longleftrightarrow> solves s1 x) \<and> (\<forall>r. c < r \<and> r < hi \<longrightarrow> slau_A t ! r ! c = 0) \<and>
           (\<forall>r. hi \<le> r \<and> r < slau_p s1 \<longrightarrow> slau_A t ! r = slau_A s1 ! r)"
  using hi
proof (induction hi)
  case 0
  then show ?case using wf z by simp
next
  case (Suc hi)
  show ?case
  proof (cases "Suc c \<le> hi")
    case False
    then have "[Suc c..<Suc hi] = []" by simp
    then show ?thesis using wf z False by auto
  next
    case True
    then have u: "[Suc c..<Suc hi] = [Suc c..<hi] @ [hi]" by simp
    obtain t where t: "foldl (\<lambda>so row. case so of None \<Rightarrow> None | Some s \<Rightarrow> add_to_row s row c) (Some s1) [Suc c..<hi] = Some t"
      and twf: "slau_wf t" and tp: "slau_p t = slau_p s1" and tz: "zero_below t c"
      and tc: "slau_A t ! c = slau_A s1 ! c" and ts: "\<forall>x. solves t x \<longleftrightarrow> solves s1 x"
      and tlow: "\<forall>r. c < r \<and> r < hi \<longrightarrow> slau_A t ! r ! c = 0"
      and thigh: "\<forall>r. hi \<le> r \<and> r < slau_p s1 \<longrightarrow> slau_A t ! r = slau_A s1 ! r"
      using Suc by auto
    have hp: "hi < slau_p t" "c < slau_p t" "hi \<noteq> c" using Suc.prems True tp c by simp_all
    have zc: "\<forall>j<c. slau_A t ! c ! j = 0" using tz hp(2) by (simp add: zero_below_def)
    have tpiv: "slau_A t ! c ! c \<noteq> 0 \<or> slau_A t ! hi ! c = 0"
      using piv tc thigh hp True tp by auto
    define m where "m = (if slau_A t ! hi ! c = 0 then 0 else - (slau_A t ! hi ! c) / (slau_A t ! c ! c))"
    have step: "add_to_row t hi c = Some (row_combine t hi c m)"
      unfolding m_def by (rule add_to_row_combine [OF twf hp zc tpiv])
    have m0: "slau_A t ! hi ! c + m * slau_A t ! c ! c = 0"
      using tpiv by (auto simp: m_def)
    let ?t = "row_combine t hi c m"
    have A': "slau_A ?t ! i = (if i = hi then map (\<lambda>j. slau_A t ! hi ! j + m * slau_A t ! c ! j) [0..<slau_p t]
                               else slau_A t ! i)" if "i < slau_p t" for i
      by (rule row_combine_A [OF twf hp(1) that])
    have z': "zero_below ?t c"
      unfolding zero_below_def
    proof (intro allI impI)
      fix i j assume i: "i < slau_p ?t" and j: "j < min i c"
      have "slau_A t ! hi ! j = 0" "slau_A t ! c ! j = 0" "slau_A t ! i ! j = 0"
        using tz hp j i zc True by (auto simp: zero_below_def row_combine_def)
      then show "slau_A ?t ! i ! j = 0"
        using A' [of i] i j hp by (simp add: row_combine_def)
    qed
    have c': "slau_A ?t ! c = slau_A s1 ! c" using A' [OF hp(2)] hp(3) tc by simp
    have low: "\<forall>r. c < r \<and> r < Suc hi \<longrightarrow> slau_A ?t ! r ! c = 0"
    proof (intro allI impI)
      fix r assume r: "c < r \<and> r < Suc hi"
      show "slau_A ?t ! r ! c = 0"
      proof (cases "r = hi")
        case True
        then show ?thesis using A' [OF hp(1)] hp m0 by simp
      next
        case False
        then show ?thesis using A' [of r] r tlow hp tp by simp
      qed
    qed
    have high: "\<forall>r. Suc hi \<le> r \<and> r < slau_p s1 \<longrightarrow> slau_A ?t ! r = slau_A s1 ! r"
      using A' thigh tp by auto
    have "slau_wf ?t \<and> slau_p ?t = slau_p s1 \<and> (\<forall>x. solves ?t x \<longleftrightarrow> solves s1 x)"
      using row_combine_wf [OF twf hp(1)] row_combine_solves [OF twf hp] ts tp by simp
    then show ?thesis
      unfolding u foldl_append t using step z' c' low high by simp
  qed
qed


lemma eliminate_column_ok:
  assumes wf: "slau_wf s" and z: "zero_below s c" and c: "c < slau_p s"
  shows "\<exists>t. eliminate_column s c = Some t \<and> slau_wf t \<and> slau_p t = slau_p s \<and>
             zero_below t (Suc c) \<and> (\<forall>x. solves t x \<longleftrightarrow> solves s x)"
proof -
  define s1 where "s1 = swap_rows s (int c) (seek_row s c)"
  have s1: "slau_wf s1" "slau_p s1 = slau_p s" "zero_below s1 c" "\<forall>x. solves s1 x \<longleftrightarrow> solves s x"
    "slau_A s1 ! c ! c \<noteq> 0 \<or> (\<forall>r. c \<le> r \<and> r < slau_p s \<longrightarrow> slau_A s1 ! r ! c = 0)"
    using swap_seek [OF wf z c] unfolding s1_def by simp_all
  obtain t where t: "foldl (\<lambda>so row. case so of None \<Rightarrow> None | Some s \<Rightarrow> add_to_row s row c) (Some s1)
                        [Suc c..<slau_p s1] = Some t"
    and twf: "slau_wf t" "slau_p t = slau_p s1" and tz: "zero_below t c"
    and ts: "\<forall>x. solves t x \<longleftrightarrow> solves s1 x" and tlow: "\<forall>r. c < r \<and> r < slau_p s1 \<longrightarrow> slau_A t ! r ! c = 0"
    using eliminate_rows [OF s1(1,3), of "slau_p s1"] s1(2,5) c by auto
  have "eliminate_column s c = Some t"
    using t s1(2) by (simp add: eliminate_column_def s1_def [symmetric] swap_rows_simps)
  moreover have "zero_below t (Suc c)"
    unfolding zero_below_def
  proof (intro allI impI)
    fix i j assume i: "i < slau_p t" and j: "j < min i (Suc c)"
    show "slau_A t ! i ! j = 0"
    proof (cases "j < c")
      case True
      then show ?thesis using tz i j by (simp add: zero_below_def)
    next
      case False
      then have "j = c" "c < i" using j by simp_all
      then show ?thesis using tlow i twf by simp
    qed
  qed
  ultimately show ?thesis using twf s1(2,4) ts by simp
qed

lemma trianglize_prefix:
  assumes wf: "slau_wf s" and n: "n \<le> slau_p s - 1"
  shows "\<exists>t. foldl (\<lambda>so cl. case so of None \<Rightarrow> None | Some s \<Rightarrow> eliminate_column s cl) (Some s) [0..<n] = Some t \<and>
             slau_wf t \<and> slau_p t = slau_p s \<and> zero_below t n \<and> (\<forall>x. solves t x \<longleftrightarrow> solves s x)"
  using n
proof (induction n)
  case 0
  then show ?case using wf by (simp add: zero_below_def)
next
  case (Suc n)
  then obtain t where t: "foldl (\<lambda>so cl. case so of None \<Rightarrow> None | Some s \<Rightarrow> eliminate_column s cl) (Some s) [0..<n] = Some t"
    and tp: "slau_wf t" "slau_p t = slau_p s" "zero_below t n" "\<forall>x. solves t x \<longleftrightarrow> solves s x"
    by auto
  have "n < slau_p t" using Suc.prems tp(2) by simp
  from eliminate_column_ok [OF tp(1,3) this] obtain t' where
    "eliminate_column t n = Some t'" "slau_wf t'" "slau_p t' = slau_p t" "zero_below t' (Suc n)"
    "\<forall>x. solves t' x \<longleftrightarrow> solves t x"
    by blast
  then show ?case using t tp by simp
qed

lemma zero_below_upper: "slau_p s - 1 \<le> c \<Longrightarrow> zero_below s c \<Longrightarrow> upper_triangular s"
  unfolding zero_below_def upper_triangular_def
proof (intro allI impI)
  fix i j assume c: "slau_p s - 1 \<le> c" and z: "\<forall>i<slau_p s. \<forall>j<min i c. slau_A s ! i ! j = 0"
    and i: "i < slau_p s" and j: "j < i"
  then have "j < min i c" by simp
  then show "slau_A s ! i ! j = 0" using z i by simp
qed


lemma fold_poly_update:
  assumes "r < length B"
  shows "foldl (\<lambda>B col. B[r := poly_add (B ! r) (g col) (h col)]) B cols =
           B[r := (\<lambda>k. (B ! r) k + (\<Sum>col\<leftarrow>cols. h col * g col k))]"
  using assms
proof (induction cols arbitrary: B)
  case Nil
  then show ?case by simp
next
  case (Cons col cols)
  then show ?case by (simp add: poly_add_def algebra_simps)
qed

lemma triangular_row_sum:
  assumes up: "upper_triangular t" and r: "r < slau_p t"
  shows "(\<Sum>j<slau_p t. slau_A t ! r ! j * x j k) =
           slau_A t ! r ! r * x r k + (\<Sum>j\<leftarrow>[Suc r..<slau_p t]. slau_A t ! r ! j * x j k)"
proof -
  have "(\<Sum>j<slau_p t. slau_A t ! r ! j * x j k) =
          (\<Sum>j\<in>{0..<Suc r}. slau_A t ! r ! j * x j k) + (\<Sum>j\<in>{Suc r..<slau_p t}. slau_A t ! r ! j * x j k)"
    using sum.atLeastLessThan_concat [of 0 "Suc r" "slau_p t" "\<lambda>j. slau_A t ! r ! j * x j k"] r
    by (simp add: atLeast0LessThan)
  then have "(\<Sum>j<slau_p t. slau_A t ! r ! j * x j k) =
               (\<Sum>j<r. slau_A t ! r ! j * x j k) + slau_A t ! r ! r * x r k +
               (\<Sum>j\<in>{Suc r..<slau_p t}. slau_A t ! r ! j * x j k)"
    by (simp add: atLeast0LessThan)
  moreover have "(\<Sum>j<r. slau_A t ! r ! j * x j k) = 0"
    using up r by (simp add: upper_triangular_def)
  ultimately show ?thesis by (simp add: sum_list_distinct_conv_sum_set)
qed


lemma back_substitute_step:
  assumes wf: "slau_wf t" and up: "upper_triangular t" and sol: "solves t x"
    and k: "1 \<le> k" "k < slau_p t" and dk: "slau_A t ! k ! k \<noteq> 0"
    and s': "slau_A s' = slau_A t" "slau_p s' = slau_p t" "length (slau_B s') = slau_p t"
       "slau_B s' ! k = slau_B t ! k"
    and sols: "\<forall>i. k < i \<and> i < slau_p t \<longrightarrow> sols (i - 1) = x i"
  shows "\<exists>s'' sols'. back_substitute_row (s', sols) k = Some (s'', sols') \<and>
           slau_A s'' = slau_A t \<and> slau_p s'' = slau_p t \<and> length (slau_B s'') = slau_p t \<and>
           (\<forall>i. i \<noteq> k \<longrightarrow> slau_B s'' ! i = slau_B s' ! i) \<and>
           (\<forall>i. k \<le> i \<and> i < slau_p t \<longrightarrow> sols' (i - 1) = x i)"
proof -
  let ?B = "foldl (\<lambda>B col. B[k := poly_add (B ! k) (sols (col - 1)) (- (slau_A s' ! k ! col))])
              (slau_B s') [Suc k..<slau_p s']"
  have B: "?B = (slau_B s')[k := (\<lambda>\<kappa>. (slau_B s' ! k) \<kappa> +
              (\<Sum>col\<leftarrow>[Suc k..<slau_p s']. - (slau_A s' ! k ! col) * sols (col - 1) \<kappa>))]"
    using fold_poly_update [of k "slau_B s'" "\<lambda>col. sols (col - 1)" "\<lambda>col. - (slau_A s' ! k ! col)"] s' k
    by simp
  have row: "(slau_B t ! k) \<kappa> = slau_A t ! k ! k * x k \<kappa> + (\<Sum>j\<leftarrow>[Suc k..<slau_p t]. slau_A t ! k ! j * x j \<kappa>)"
    for \<kappa>
    using sol k triangular_row_sum [OF up k(2), of x \<kappa>] by (simp add: solves_iff)
  have sum: "(\<Sum>col\<leftarrow>[Suc k..<slau_p t]. - (slau_A t ! k ! col) * sols (col - 1) \<kappa>) =
               - (\<Sum>j\<leftarrow>[Suc k..<slau_p t]. slau_A t ! k ! j * x j \<kappa>)" for \<kappa>
  proof -
    have "map (\<lambda>col. - (slau_A t ! k ! col) * sols (col - 1) \<kappa>) [Suc k..<slau_p t] =
          map (\<lambda>j. - (slau_A t ! k ! j * x j \<kappa>)) [Suc k..<slau_p t]"
      using sols by (intro map_cong) auto
    then have "(\<Sum>col\<leftarrow>[Suc k..<slau_p t]. - (slau_A t ! k ! col) * sols (col - 1) \<kappa>) =
               (\<Sum>j\<leftarrow>[Suc k..<slau_p t]. - (slau_A t ! k ! j * x j \<kappa>))"
      by (rule arg_cong)
    also have "\<dots> = - (\<Sum>j\<leftarrow>[Suc k..<slau_p t]. slau_A t ! k ! j * x j \<kappa>)"
      by (simp add: sum_list_distinct_conv_sum_set sum_negf)
    finally show ?thesis .
  qed
  have Bk: "?B ! k = (\<lambda>\<kappa>. slau_A t ! k ! k * x k \<kappa>)"
    unfolding B using s' k row sum by (simp add: fun_eq_iff)
  have div: "poly_div (?B ! k) (slau_A t ! k ! k) = x k"
    unfolding Bk poly_div_def using dk by (simp add: fun_eq_iff)
  have ik: "i = k" if "k \<le> i" "i - Suc 0 = k - Suc 0" for i
    using that k(1) by arith
  show ?thesis
    unfolding back_substitute_row_def Let_def
    using s' dk div sols k B by (auto simp: nth_list_update dest: ik)
qed


lemma back_substitute_loop:
  assumes wf: "slau_wf t" and up: "upper_triangular t" and sol: "solves t x"
    and diag: "\<forall>i. 1 \<le> i \<and> i < slau_p t \<longrightarrow> slau_A t ! i ! i \<noteq> 0"
    and k: "1 \<le> k" "k \<le> slau_p t"
  shows "\<exists>s' sols. foldl (\<lambda>so r. case so of None \<Rightarrow> None | Some st \<Rightarrow> back_substitute_row st r)
                       (Some (t, \<lambda>_. poly_new)) (rev [k..<slau_p t]) = Some (s', sols) \<and>
           slau_A s' = slau_A t \<and> slau_p s' = slau_p t \<and> length (slau_B s') = slau_p t \<and>
           (\<forall>i. i < k \<longrightarrow> slau_B s' ! i = slau_B t ! i) \<and>
           (\<forall>i. k \<le> i \<and> i < slau_p t \<longrightarrow> sols (i - 1) = x i)"
  using k
proof (induction "slau_p t - k" arbitrary: k)
  case 0
  then show ?case using wf by (auto simp: slau_wf_def)
next
  case (Suc d)
  then have kp: "k < slau_p t" by simp
  then have u: "rev [k..<slau_p t] = rev [Suc k..<slau_p t] @ [k]" by (simp add: upt_conv_Cons)
  have d: "d = slau_p t - Suc k" using Suc.hyps(2) by arith
  obtain s' sols where f: "foldl (\<lambda>so r. case so of None \<Rightarrow> None | Some st \<Rightarrow> back_substitute_row st r)
                       (Some (t, \<lambda>_. poly_new)) (rev [Suc k..<slau_p t]) = Some (s', sols)"
    and s': "slau_A s' = slau_A t" "slau_p s' = slau_p t" "length (slau_B s') = slau_p t"
      "\<forall>i. i < Suc k \<longrightarrow> slau_B s' ! i = slau_B t ! i"
    and so: "\<forall>i. Suc k \<le> i \<and> i < slau_p t \<longrightarrow> sols (i - 1) = x i"
    using Suc.hyps(1) [OF d] kp by auto
  obtain s'' sols' where step: "back_substitute_row (s', sols) k = Some (s'', sols')"
    and s'': "slau_A s'' = slau_A t" "slau_p s'' = slau_p t" "length (slau_B s'') = slau_p t"
      "\<forall>i. i \<noteq> k \<longrightarrow> slau_B s'' ! i = slau_B s' ! i"
      "\<forall>i. k \<le> i \<and> i < slau_p t \<longrightarrow> sols' (i - 1) = x i"
    using back_substitute_step [OF wf up sol Suc.prems(1) kp _ s'(1-3) _ ] diag Suc.prems(1) kp s'(4) so
    by (metis Suc_le_eq lessI)
  show ?case
    unfolding u foldl_append f using step s'' s'(4) by simp
qed

lemma length_get_taylor_coeffs [simp]: "length (get_taylor_coeffs d m) = m"
  unfolding get_taylor_coeffs_def taylor_fold by simp

lemma slau_rows_length_coeffs: "r \<in> set (slau_rows left right p center leftIncl rightIncl) \<Longrightarrow> length (fst r) = p"
  by (auto simp: slau_rows_def Let_def split: if_splits)

text \<open>From one unknown on, the constructor writes \<open>p\<close> rows when the centre is one of
  the stencil velocities, and \<open>p + 1\<close> otherwise.\<close>

lemma slau_rows_length:
  "1 \<le> p \<Longrightarrow> length (slau_rows left right p center leftIncl rightIncl) =
     (if 1 + (if leftIncl then 1 else 0) \<le> center \<and> center \<le> int p + (if rightIncl then 0 else 1)
      then p else Suc p)"
  by (cases leftIncl; cases rightIncl; simp add: length_slau_rows; arith)

text \<open>A system the constructor returns is well formed, with one row per unknown.\<close>

lemma slau_init_Inr:
  assumes side: "env_side cs fs = (left, right, p, center, leftIncl, rightIncl)"
    and s: "slau_init cs fs = Inr s"
  shows "slau_wf s \<and> slau_p s = p \<and> length (slau_rows left right p center leftIncl rightIncl) = p"
proof -
  let ?rows = "slau_rows left right p center leftIncl rightIncl"
  have le: "length ?rows \<le> p" and eq: "s = \<lparr>slau_p = p, slau_A = map fst ?rows, slau_B = map snd ?rows\<rparr>"
    using s by (auto simp: slau_init_def side Let_def split: if_splits)
  have "length ?rows = p"
  proof (cases "p = 0")
    case False
    then show ?thesis using le slau_rows_length [of p left right center leftIncl rightIncl]
      by (simp split: if_splits)
  qed (use le in simp)
  then show ?thesis
    using slau_rows_length_coeffs [of _ left right p center leftIncl rightIncl]
    by (auto simp: eq slau_wf_def)
qed


subsection \<open>Properties of the solver\<close>

text \<open>C30 (refinement). \<open>SolveForSecondDerivative\<close> returns the second unknown of the
  system. Let \<open>x\<close> be a solution of a well-formed system with \<open>p \<ge> 2\<close> unknowns, and
  suppose the eliminated matrix has non-zero diagonal entries from row 1 on. Then the
  result is \<open>x 1\<close>, the coefficient of the second derivative: Gaussian elimination
  followed by back substitution computes the solution of the system.\<close>

theorem solve_second_derivative_correct:
  assumes wf: "slau_wf s" and p: "2 \<le> slau_p s" and sol: "solves s x" and t: "trianglize s = Some t"
    and diag: "\<forall>i. 1 \<le> i \<and> i < slau_p s \<longrightarrow> slau_A t ! i ! i \<noteq> 0"
  shows "\<exists>s'. solve_second_derivative s = Inr (s', x 1)"
proof -
  obtain t' where "foldl (\<lambda>so cl. case so of None \<Rightarrow> None | Some s \<Rightarrow> eliminate_column s cl) (Some s)
                    [0..<slau_p s - 1] = Some t'"
    and t': "slau_wf t'" "slau_p t' = slau_p s" "zero_below t' (slau_p s - 1)" "\<forall>x. solves t' x \<longleftrightarrow> solves s x"
    using trianglize_prefix [OF wf order.refl] by blast
  then have t'': "trianglize s = Some t'" "upper_triangular t'"
    using zero_below_upper [of t' "slau_p s - 1"] unfolding trianglize_def by simp_all
  have tt: "t' = t" using t t''(1) by simp
  obtain s' sols where l: "foldl (\<lambda>so r. case so of None \<Rightarrow> None | Some st \<Rightarrow> back_substitute_row st r)
                       (Some (t, \<lambda>_. poly_new)) (rev [1..<slau_p t]) = Some (s', sols)"
      and x1: "sols 0 = x 1"
    using back_substitute_loop [of t x 1] t' t'' sol diag p unfolding tt by fastforce
  show ?thesis
    using l x1 t t' t'' p unfolding tt solve_second_derivative_def by auto
qed


theorem solve_second_derivative_correct_witness:
  "\<exists>s'. solve_second_derivative ex_slau = Inr (s', poly_new(1 := 1, 2 := -2, 3 := 1))"
proof -
  have sol: "solves ex_slau (\<lambda>j. if j = 0 then poly_new(1 := -3/2, 2 := 2, 3 := -1/2) else poly_new(1 := 1, 2 := -2, 3 := 1))"
    by (auto simp: solves_iff ex_slau_def lessThan_Suc numeral_2_eq_2 less_Suc_eq poly_new_def)
  have t: "trianglize ex_slau = Some \<lparr>slau_p = 2, slau_A = [[1, 1/2], [0, 1]],
      slau_B = [poly_new(2 := 1, 1 := -1), poly_add (poly_new(3 := 1, 1 := -1)) (poly_new(2 := 1, 1 := -1)) (-2)]\<rparr>"
    by (simp add: trianglize_def eliminate_column_def ex_slau_def seek_row_def seek_row_from_find
        swap_rows_def add_to_row_def numeral_2_eq_2)
  have d: "\<forall>i. 1 \<le> i \<and> i < slau_p ex_slau \<longrightarrow> [[1, 1/2], [0, 1::real]] ! i ! i \<noteq> 0"
    by (auto simp: ex_slau_def numeral_2_eq_2 le_Suc_eq less_Suc_eq)
  show ?thesis
    using solve_second_derivative_correct [OF _ _ sol t] d by (simp add: ex_slau_def slau_wf_def)
qed

text \<open>C31 (safety). \<open>Trianglize\<close> never divides by zero on a well-formed system: every
  \<open>AddToRow\<close> it calls either returns early or has a non-zero pivot, because \<open>SeekRow\<close>
  brings one to the diagonal whenever the column has one. The result is again well formed
  and upper triangular, and it has exactly the solutions of the input system.\<close>

theorem trianglize_correct:
  assumes wf: "slau_wf s"
  shows "\<exists>t. trianglize s = Some t \<and> slau_wf t \<and> slau_p t = slau_p s \<and> upper_triangular t \<and>
             (\<forall>x. solves t x \<longleftrightarrow> solves s x)"
proof -
  obtain t where "foldl (\<lambda>so cl. case so of None \<Rightarrow> None | Some s \<Rightarrow> eliminate_column s cl) (Some s)
                    [0..<slau_p s - 1] = Some t"
    and t: "slau_wf t" "slau_p t = slau_p s" "zero_below t (slau_p s - 1)" "\<forall>x. solves t x \<longleftrightarrow> solves s x"
    using trianglize_prefix [OF wf order.refl] by blast
  moreover have "upper_triangular t" using zero_below_upper [of t "slau_p s - 1"] t by simp
  ultimately show ?thesis unfolding trianglize_def by blast
qed

theorem trianglize_correct_witness:
  "\<exists>t. trianglize ex_slau = Some t \<and> upper_triangular t"
  using trianglize_correct [of ex_slau] by (auto simp: ex_slau_def slau_wf_def)

text \<open>C32 (safety). The constructor writes \<open>p + 1\<close> rows unless the centre lies among
  the stencil velocities \<open>[initVel, maxVel]\<close>, and then the last row goes past the end
  of \<open>A\<close> and \<open>B\<close>. This is a heap overflow (\<open>Row_overflow\<close>). Otherwise it writes
  exactly \<open>p\<close> rows of \<open>p\<close> coefficients.\<close>

theorem slau_init_rows:
  assumes side: "env_side cs fs = (left, right, p, center, leftIncl, rightIncl)" and p: "1 \<le> p"
  shows "(slau_init cs fs = Inl Row_overflow \<longleftrightarrow>
            \<not> (1 + (if leftIncl then 1 else 0) \<le> center \<and> center \<le> int p + (if rightIncl then 0 else 1))) \<and>
         (\<forall>s. slau_init cs fs = Inr s \<longrightarrow> slau_wf s \<and> slau_p s = p)"
proof -
  have "slau_init cs fs = Inl Row_overflow \<longleftrightarrow>
          \<not> (1 + (if leftIncl then 1 else 0) \<le> center \<and> center \<le> int p + (if rightIncl then 0 else 1))"
    using slau_rows_length [OF p, of left right center leftIncl rightIncl]
    by (auto simp: slau_init_def side Let_def split: if_splits)
  then show ?thesis
    using slau_init_Inr [OF side] by blast
qed

theorem slau_init_rows_witness:
  "slau_init (ex_env\<lparr>center_x := 5\<rparr>) 1 = Inl Row_overflow"
  using slau_init_rows [where cs = "ex_env\<lparr>center_x := 5\<rparr>" and fs = 1 and left = 0 and right = 0 and p = 2
      and center = 5 and leftIncl = False and rightIncl = False]
  by (simp add: env_side_def ex_env_def)

text \<open>C34 (functional). \<open>SeekRow\<close> scans the rows \<open>rowIdx, ..., p - 1\<close> and returns the
  first one with a non-zero entry in column \<open>col\<close>, or \<open>-1\<close> exactly when every entry of
  the column from \<open>rowIdx\<close> on is zero.\<close>

theorem seek_row_from_first:
  "(seek_row_from A p col rowIdx = -1 \<longleftrightarrow> (\<forall>i \<in> {rowIdx..<p}. A ! i ! col = 0)) \<and>
   (\<forall>k. seek_row_from A p col rowIdx = int k \<longrightarrow>
          rowIdx \<le> k \<and> k < p \<and> A ! k ! col \<noteq> 0 \<and> (\<forall>i \<in> {rowIdx..<k}. A ! i ! col = 0))"
  by (auto simp: seek_row_from_find find_upt_Some find_None_iff split: option.split)

theorem seek_row_from_first_witness:
  "seek_row_from [[0, 1], [2, 2]] 2 0 0 = 1 \<and> [[0, 1], [2, 2 :: real]] ! 0 ! 0 = 0"
proof -
  have r: "seek_row_from [[0, 1], [2, 2]] 2 0 0 = 1"
    by (simp add: seek_row_from_find upt_rec)
  have "\<forall>i \<in> {0..<1}. [[0, 1], [2, 2 :: real]] ! i ! 0 = 0"
    using seek_row_from_first [of "[[0, 1], [2, 2]]" 2 0 0] r by (metis of_nat_1)
  then show ?thesis using r by simp
qed

text \<open>C33 (equivalence). \<open>GetTaylorCoeffs(d, maxp)\<close>, which keeps a running numerator
  and denominator, equals the reference definition: the list of Taylor coefficients
  \<open>d ^ k / k!\<close> for \<open>k = 1 .. maxp\<close>.\<close>

theorem get_taylor_coeffs_eq: "get_taylor_coeffs d m = map (\<lambda>k. d ^ k / fact k) [1..<Suc m]"
  unfolding get_taylor_coeffs_def taylor_fold by simp


end
