(* ===== verification/Slau_Heap.thy ===== *)
theory Slau_Heap
  imports Slau "HOL-Library.Multiset"
begin

text \<open>
  The heap blocks of a \<open>Slau\<close> object over its lifetime (src/Slau.cpp): what the
  constructor, \<open>SolveForSecondDerivative\<close> and the destructor allocate and free. The heap
  is the multiset of live blocks, tagged with what they hold: the row-pointer array
  \<open>A\<close>, the polynomial-pointer array \<open>B\<close>, the coefficient array of a row (allocated by
  \<open>GetTaylorCoeffs\<close>), a \<open>Polynom\<close> object, and the solution-pointer array \<open>sols\<close>.
  \<open>new\<close> does not return null (it throws), so no allocation fails here. The values the
  operations compute are those of theory \<open>Slau\<close>; this theory adds their effect on the
  heap.
\<close>

datatype slau_block = Row_pointers | Poly_pointers | Coeff_array | Polynom_obj | Sol_pointers

type_synonym slau_heap = "slau_block multiset"

text \<open>Writing a row allocates its right-hand side \<open>new Polynom(p + 1)\<close> and its
  coefficients \<open>new float[maxp]\<close> in \<open>GetTaylorCoeffs\<close>.\<close>

definition row_allocs :: "nat \<Rightarrow> slau_heap" where
  "row_allocs n = replicate_mset n Polynom_obj + replicate_mset n Coeff_array"

text \<open>\<open>Slau::Slau\<close>: the arrays \<open>A = new float*[p]\<close> and \<open>B = new Polynom*[p]\<close>, then
  two blocks per row written.\<close>

definition slau_new :: "env_case \<Rightarrow> int \<Rightarrow> slau_heap \<Rightarrow> (slau_error + slau) \<times> slau_heap" where
  "slau_new cs firstOrSecond h =
     (case env_side cs firstOrSecond of (left, right, p, center, leftIncl, rightIncl) \<Rightarrow>
        (slau_init cs firstOrSecond,
         h + {#Row_pointers, Poly_pointers#} + row_allocs (length (slau_rows left right p center leftIncl rightIncl))))"

text \<open>\<open>SolveForSecondDerivative\<close>: \<open>sols = new Polynom*[p - 1]\<close>, and each of the
  \<open>p - 1\<close> steps of back substitution stores a new polynomial \<open>B[resIdx] / A[resIdx][resIdx]\<close>
  in \<open>sols\<close>. A division by zero does not stop the C loop, so the allocations do not
  depend on the result. With \<open>p = 0\<close> the array size \<open>-1\<close> makes \<open>new\<close> throw before
  anything is allocated.\<close>

definition slau_solve :: "slau \<Rightarrow> slau_heap \<Rightarrow> (slau_error + slau \<times> polynom) \<times> slau_heap" where
  "slau_solve s h =
     (solve_second_derivative s,
      if slau_p s = 0 then h else h + {#Sol_pointers#} + replicate_mset (slau_p s - 1) Polynom_obj)"

text \<open>\<open>Slau::~Slau\<close>: every non-null row \<open>A[i]\<close>, then the arrays \<open>A\<close> and \<open>B\<close>. The
  rows of the model are the non-null entries of \<open>A\<close>.\<close>

definition slau_delete :: "slau \<Rightarrow> slau_heap \<Rightarrow> slau_heap" where
  "slau_delete s h = h - (replicate_mset (length (slau_A s)) Coeff_array + {#Row_pointers, Poly_pointers#})"

subsection \<open>Lemmas\<close>

lemma foldl_option_None:
  "foldl (\<lambda>so a. case so of None \<Rightarrow> None | Some x \<Rightarrow> f x a) None xs = None"
  by (induction xs) auto

text \<open>An invariant of every step of an option fold holds at its end.\<close>

lemma foldl_option_inv:
  assumes step: "\<And>x y a. f x a = Some y \<Longrightarrow> P x \<Longrightarrow> P y"
  shows "foldl (\<lambda>so a. case so of None \<Rightarrow> None | Some x \<Rightarrow> f x a) (Some x0) xs = Some y \<Longrightarrow> P x0 \<Longrightarrow> P y"
proof (induction xs arbitrary: x0)
  case (Cons a xs)
  show ?case
  proof (cases "f x0 a")
    case None
    then show ?thesis using Cons.prems(1) by (simp add: foldl_option_None)
  next
    case (Some x1)
    then show ?thesis using Cons step by simp
  qed
qed simp

lemma back_substitute_row_A:
  "back_substitute_row st r = Some st' \<Longrightarrow> slau_A (fst st') = slau_A (fst st)"
  by (auto simp: back_substitute_row_def Let_def split: prod.splits if_splits)

text \<open>Back substitution only writes \<open>B\<close>: the rows of \<open>A\<close> after a solve are those of
  the eliminated system, one per unknown.\<close>

lemma solve_keeps_rows:
  assumes wf: "slau_wf s" and r: "solve_second_derivative s = Inr (s', x)"
  shows "length (slau_A s') = slau_p s \<and> 2 \<le> slau_p s"
proof -
  obtain t where t: "trianglize s = Some t" "slau_wf t" "slau_p t = slau_p s"
    using trianglize_prefix [OF wf order.refl] unfolding trianglize_def by blast
  obtain sols where p: "2 \<le> slau_p s"
    and f: "foldl (\<lambda>so r. case so of None \<Rightarrow> None | Some st \<Rightarrow> back_substitute_row st r)
              (Some (t, \<lambda>_. poly_new)) (rev [1..<slau_p t]) = Some (s', sols)"
    using r t by (auto simp: solve_second_derivative_def split: if_splits option.splits)
  have "slau_A (fst (s', sols)) = slau_A t"
    by (rule foldl_option_inv [where P = "\<lambda>st. slau_A (fst st) = slau_A t", OF _ f])
       (auto dest: back_substitute_row_A)
  then show ?thesis using t p by (simp add: slau_wf_def)
qed

text \<open>What a successful constructor leaves on the heap.\<close>

lemma slau_new_Inr:
  assumes "slau_new cs fs h = (Inr s, h1)"
  shows "slau_wf s \<and> h1 = h + {#Row_pointers, Poly_pointers#} + row_allocs (slau_p s)"
proof -
  obtain left right p center leftIncl rightIncl
    where side: "env_side cs fs = (left, right, p, center, leftIncl, rightIncl)"
    by (cases "env_side cs fs") auto
  then have "slau_init cs fs = Inr s"
    and h1: "h1 = h + {#Row_pointers, Poly_pointers#} + row_allocs (length (slau_rows left right p center leftIncl rightIncl))"
    using assms by (simp_all add: slau_new_def)
  then show ?thesis using slau_init_Inr [OF side] by simp
qed

text \<open>The constructor on the example stencil of theory \<open>Slau\<close>.\<close>

lemma ex_init: "slau_init ex_env 1 = Inr ex_slau"
  by (simp add: slau_init_def env_side_def ex_env_def slau_rows_def get_taylor_coeffs_def taylor_fold
      ex_slau_def upto.simps upt_rec Let_def)

subsection \<open>The lifetime of a system\<close>

text \<open>C35 (safety). A \<open>Slau\<close> object leaks memory. After the constructor, one
  successful \<open>SolveForSecondDerivative\<close> and the destructor, the heap holds what it held
  before plus the array \<open>sols\<close> and \<open>2 p - 1\<close> polynomials. These are the \<open>p\<close>
  right-hand sides \<open>B[i]\<close>, which the destructor never deletes, and the \<open>p - 1\<close>
  solutions. The caller receives a reference to the first solution only.\<close>

theorem slau_lifetime_leak:
  assumes "slau_new cs fs h = (Inr s, h1)" and "slau_solve s h1 = (Inr (s', x), h2)"
  shows "slau_delete s' h2 = h + {#Sol_pointers#} + replicate_mset (2 * slau_p s - 1) Polynom_obj"
proof -
  have s: "slau_wf s" "h1 = h + {#Row_pointers, Poly_pointers#} + row_allocs (slau_p s)"
    using slau_new_Inr [OF assms(1)] by auto
  have r: "solve_second_derivative s = Inr (s', x)"
    and h2: "h2 = h1 + {#Sol_pointers#} + replicate_mset (slau_p s - 1) Polynom_obj"
    using assms(2) solve_keeps_rows [OF s(1)] by (auto simp: slau_solve_def split: if_splits)
  have l: "length (slau_A s') = slau_p s" "2 \<le> slau_p s"
    using solve_keeps_rows [OF s(1) r] by auto
  show ?thesis
    unfolding slau_delete_def h2 s(2) l(1) row_allocs_def
    using l(2) by (auto simp: multiset_eq_iff)
qed

theorem slau_lifetime_leak_witness:
  "\<exists>s' x h1 h2. slau_new ex_env 1 {#} = (Inr ex_slau, h1) \<and> slau_solve ex_slau h1 = (Inr (s', x), h2) \<and>
     slau_delete s' h2 = {#Sol_pointers, Polynom_obj, Polynom_obj, Polynom_obj#}"
proof -
  obtain s' x where r: "solve_second_derivative ex_slau = Inr (s', x)"
    by (simp add: solve_second_derivative_def trianglize_def eliminate_column_def ex_slau_def seek_row_def
        seek_row_from_find swap_rows_def add_to_row_def back_substitute_row_def numeral_2_eq_2 Let_def)
  have e: "env_side ex_env 1 = (0, 0, 2, 1, False, False)"
    by (simp add: env_side_def ex_env_def)
  obtain h1 where n: "slau_new ex_env 1 {#} = (Inr ex_slau, h1)"
    by (simp add: slau_new_def ex_init e)
  obtain h2 where v: "slau_solve ex_slau h1 = (Inr (s', x), h2)"
    by (simp add: slau_solve_def r)
  have "slau_delete s' h2 = {#Sol_pointers#} + replicate_mset (2 * slau_p ex_slau - 1) Polynom_obj"
    using slau_lifetime_leak [OF n v] by simp
  then show ?thesis using n v by (auto simp: ex_slau_def numeral_2_eq_2)
qed
end
