(* ===== verification/Pyfdmss_Wrapper.thy ===== *)
theory Pyfdmss_Wrapper
  imports Complex_Main
begin

text \<open>
  The Python entry point of pyfdmss 0.0.8: \<open>run\<close> and \<open>SolveImpl\<close> of src/wrapper.h, and
  the registration of \<open>run\<close> in src/main.cpp. \<open>run\<close> packs its ten file names into a
  \<open>CmdLineParameters\<close>, and \<open>SolveImpl\<close> loads the inputs, launches the permeability
  solver when they loaded, prints a report, writes the velocity and pressure fields, and
  saves an XML summary.

  The solver class \<open>OverdozenPermsolver\<close>, \<open>CmdLineParameters\<close> and TinyXML are not in
  the sources. The solver is modelled by what it returns: whether \<open>ReadFailo\<close> succeeded,
  the velocity \<open>launch()\<close> returns, and the values of its getters afterwards
  (\<open>permsolver_result\<close>). \<open>MILLIDARCY_CONVERT_RATE\<close> is a parameter. \<open>CmdLineParameters\<close> is
  the record of the ten names in the order \<open>run\<close> passes them. What \<open>SolveImpl\<close> does to
  the outside world is the list of its \<open>solve_event\<close>s, in order. A value printed with
  \<open>%.6f\<close> is a real number, or \<open>Non_finite\<close> for the infinity of a floating-point
  division by zero.
\<close>

type_synonym file_path = string

record cmd_line_parameters =
  configFileName :: string
  imageFileName :: string
  summaryFileName :: string
  velXFileName :: string
  velYFileName :: string
  velZFileName :: string
  pressuresFileName :: string
  fullVelsFileName :: string
  compVelsFileName :: string
  logFileName :: string

text \<open>What the solver object returns: \<open>ReadFailo(config, image)\<close>, \<open>launch()\<close>,
  \<open>GetSquareFactor()\<close>, \<open>GetPermeability()\<close> and \<open>GetAugeCriterionError()\<close>.\<close>

record permsolver_result =
  read_ok :: bool
  launch_vel :: real
  square_factor :: real
  permeability :: real
  auge_error :: real

datatype fvalue = Fin real | Non_finite

text \<open>A floating-point division: by zero it gives an infinity or NaN.\<close>

definition fdiv :: "real \<Rightarrow> real \<Rightarrow> fvalue" where
  "fdiv x y = (if y = 0 then Non_finite else Fin (x / y))"

text \<open>The XML document: its declaration version, the root element and the children of the
  root in the order they are linked, each with its \<open>value\<close> attribute.\<close>

record xml_doc =
  xml_version :: string
  xml_root :: string
  xml_elements :: "(string \<times> real) list"

datatype solve_event =
    Set_parameters cmd_line_parameters
  | Read_input string string
  | Launch
  | Print_text string
  | Print_value string fvalue
  | Write_fields "string list"
  | Save_summary string xml_doc

text \<open>\<open>SolveImpl(io_filenames)\<close>. The five results start at \<open>0.0\<close>, and
  \<open>limit_triggered\<close> at \<open>1.0\<close>. They are overwritten only when the inputs loaded.\<close>

definition solve_impl :: "real \<Rightarrow> permsolver_result \<Rightarrow> cmd_line_parameters \<Rightarrow> solve_event list" where
  "solve_impl millidarcy r io =
     (let loaded = read_ok r;
          limit_triggered = (if loaded then 0 else 1 :: real);
          vel = (if loaded then launch_vel r else 0);
          squareFactor = (if loaded then square_factor r else 0);
          perm = (if loaded then permeability r else 0);
          error = (if loaded then auge_error r else 0);
          doc = \<lparr>xml_version = ''1.0'', xml_root = ''OverdozenPermsolverOutput'',
                 xml_elements = [(''AverageVelocity'', vel), (''Permeability_micrometer2'', perm),
                                 (''Permeability_mD'', perm * millidarcy), (''RelativeError'', error),
                                 (''LimiterTriggered'', limit_triggered)]\<rparr>
      in [Set_parameters io, Read_input (configFileName io) (imageFileName io)]
         @ (if loaded then [Print_text ''File loaded successfully'', Launch] else [])
         @ [Print_value ''Average velocity, micrometers/sec'' (Fin vel),
            Print_value ''Average velocity within pore space, micrometers/sec'' (Fin (vel * squareFactor)),
            Print_value ''Permeability, sq micrometers'' (Fin perm),
            Print_value ''Permeability, mD'' (Fin (perm * millidarcy)),
            Print_value ''Open pore space fraction at inlet'' (fdiv 1 squareFactor),
            Print_value ''Relative error'' (Fin error),
            Write_fields [velXFileName io, velYFileName io, velZFileName io, pressuresFileName io,
                          fullVelsFileName io],
            Save_summary (summaryFileName io) doc])"

text \<open>\<open>run(config_path, ..., log_path)\<close>: the ten paths, in order, as a
  \<open>CmdLineParameters\<close>, then \<open>SolveImpl\<close>.\<close>

definition run ::
  "real \<Rightarrow> permsolver_result \<Rightarrow> file_path \<Rightarrow> file_path \<Rightarrow> file_path \<Rightarrow> file_path \<Rightarrow> file_path
   \<Rightarrow> file_path \<Rightarrow> file_path \<Rightarrow> file_path \<Rightarrow> file_path \<Rightarrow> file_path \<Rightarrow> solve_event list" where
  "run millidarcy r config_path image_path summary_path velx_path vely_path velz_path pressure_path
       full_vel_path comp_vel_path log_path =
     solve_impl millidarcy r
       \<lparr>configFileName = config_path, imageFileName = image_path, summaryFileName = summary_path,
        velXFileName = velx_path, velYFileName = vely_path, velZFileName = velz_path,
        pressuresFileName = pressure_path, fullVelsFileName = full_vel_path,
        compVelsFileName = comp_vel_path, logFileName = log_path\<rparr>"

text \<open>The default arguments of \<open>run\<close> in C++.\<close>

definition run_defaults :: "string list" where
  "run_defaults = [''config.xml'', ''image3d.raw'', ''output.txt'', ''/dev/null'', ''/dev/null'',
                   ''/dev/null'', ''/dev/null'', ''/dev/null'', ''/dev/null'', ''/dev/null'']"

text \<open>\<open>m.def("run", &run, ..., py::arg(name) = default, ...)\<close>: the keyword names and the
  defaults Python sees. pybind11 does not see the C++ default arguments, so the
  registration repeats them.\<close>

definition py_run_args :: "(string \<times> string) list" where
  "py_run_args = [(''config_path'', ''config.xml''), (''image_path'', ''image3d.raw''),
                  (''summary_path'', ''output.txt''), (''velx_path'', ''/dev/null''),
                  (''vely_path'', ''/dev/null''), (''velz_path'', ''/dev/null''),
                  (''pressure_path'', ''/dev/null''), (''full_vel_path'', ''/dev/null''),
                  (''comp_vel_path'', ''/dev/null''), (''log_path'', ''/dev/null'')]"

text \<open>A call of \<open>run\<close> with the first arguments given and the others left to their
  defaults: the C++ call \<open>run(a1, ..., ak)\<close> with \<open>run_defaults\<close>, and the Python call
  \<open>pyfdmss.run(a1, ..., ak)\<close> with the registered defaults. A longer argument list is a
  compile error in C++ and a \<open>TypeError\<close> in Python (\<open>None\<close>).\<close>

definition call_with_defaults ::
  "string list \<Rightarrow> real \<Rightarrow> permsolver_result \<Rightarrow> string list \<Rightarrow> solve_event list option" where
  "call_with_defaults defaults millidarcy r args =
     (if length args \<le> 10 then
        (let a = args @ drop (length args) defaults
         in Some (run millidarcy r (a ! 0) (a ! 1) (a ! 2) (a ! 3) (a ! 4) (a ! 5) (a ! 6) (a ! 7) (a ! 8) (a ! 9)))
      else None)"

definition cxx_run_call :: "real \<Rightarrow> permsolver_result \<Rightarrow> string list \<Rightarrow> solve_event list option" where
  "cxx_run_call = call_with_defaults run_defaults"

definition py_run_call :: "real \<Rightarrow> permsolver_result \<Rightarrow> string list \<Rightarrow> solve_event list option" where
  "py_run_call = call_with_defaults (map snd py_run_args)"

text \<open>The summary as a reader of the XML file sees it: the five values by element name.\<close>

definition summary_values :: "xml_doc \<Rightarrow> real list" where
  "summary_values d =
     map (\<lambda>n. case map_of (xml_elements d) n of Some v \<Rightarrow> v | None \<Rightarrow> 0)
       [''AverageVelocity'', ''Permeability_micrometer2'', ''Permeability_mD'', ''RelativeError'',
        ''LimiterTriggered'']"

text \<open>The default paths of \<open>run\<close>, and a solver whose inputs did not load.\<close>

definition ex_io :: cmd_line_parameters where
  "ex_io = \<lparr>configFileName = ''config.xml'', imageFileName = ''image3d.raw'', summaryFileName = ''output.txt'',
            velXFileName = ''/dev/null'', velYFileName = ''/dev/null'', velZFileName = ''/dev/null'',
            pressuresFileName = ''/dev/null'', fullVelsFileName = ''/dev/null'',
            compVelsFileName = ''/dev/null'', logFileName = ''/dev/null''\<rparr>"

definition ex_load_failed :: permsolver_result where
  "ex_load_failed = \<lparr>read_ok = False, launch_vel = 0, square_factor = 0, permeability = 0, auge_error = 0\<rparr>"

subsection \<open>Lemmas\<close>

text \<open>The Python registration repeats the C++ defaults of \<open>run\<close>: a Python call with
  positional arguments behaves as the same C++ call.\<close>

lemma py_run_call_cxx: "py_run_call = cxx_run_call"
  by (simp add: py_run_call_def cxx_run_call_def py_run_args_def run_defaults_def)

subsection \<open>The report of SolveImpl\<close>

text \<open>C36 (error). \<open>SolveImpl\<close> launches the solver exactly when the inputs loaded, and
  the summary it saves last holds the solver's velocity, permeability (in square
  micrometres and in millidarcy) and error with \<open>LimiterTriggered = 0\<close>. When the inputs
  fail to load, the summary holds zeros with \<open>LimiterTriggered = 1\<close>. The report then
  prints the open pore fraction \<open>1.0 / squareFactor\<close> as a non-finite value, as it does
  whenever the square factor is zero.\<close>

theorem solve_impl_report:
  "(\<exists>d. last (solve_impl millidarcy r io) = Save_summary (summaryFileName io) d \<and>
        summary_values d = (if read_ok r then [launch_vel r, permeability r, permeability r * millidarcy, auge_error r, 0]
                            else [0, 0, 0, 0, 1])) \<and>
   (Launch \<in> set (solve_impl millidarcy r io) \<longleftrightarrow> read_ok r) \<and>
   (Print_value ''Open pore space fraction at inlet'' Non_finite \<in> set (solve_impl millidarcy r io) \<longleftrightarrow>
      \<not> read_ok r \<or> square_factor r = 0)"
proof (intro conjI)
  show "\<exists>d. last (solve_impl millidarcy r io) = Save_summary (summaryFileName io) d \<and>
        summary_values d = (if read_ok r then [launch_vel r, permeability r, permeability r * millidarcy, auge_error r, 0]
                            else [0, 0, 0, 0, 1])"
    by (simp add: solve_impl_def summary_values_def Let_def)
  show "Launch \<in> set (solve_impl millidarcy r io) \<longleftrightarrow> read_ok r"
    by (simp add: solve_impl_def Let_def)
  show "Print_value ''Open pore space fraction at inlet'' Non_finite \<in> set (solve_impl millidarcy r io) \<longleftrightarrow>
      \<not> read_ok r \<or> square_factor r = 0"
    by (simp add: solve_impl_def fdiv_def Let_def)
qed

theorem solve_impl_report_witness:
  "Launch \<notin> set (solve_impl 1 ex_load_failed ex_io) \<and>
   Print_value ''Open pore space fraction at inlet'' Non_finite \<in> set (solve_impl 1 ex_load_failed ex_io)"
  using solve_impl_report [of 1 ex_load_failed ex_io] by (simp add: ex_load_failed_def)

end
