(* ===== verification/Sharqit_Bindings.thy ===== *)
theory Sharqit_Bindings
  imports Main
begin

text \<open>
  The Python module \<open>sharqit_base\<close> of sharqit 0.2.2 (sharqit/cpp/nb_sharqit.cpp), which
  nanobind builds from the registrations in \<open>NB_MODULE(sharqit_base, m)\<close>. The C++
  library it exposes (sharqit.h: \<open>Phase\<close>, \<open>QGate\<close>, \<open>QCirc\<close>, \<open>Optimizer\<close>) is not
  in the sources. What this file decides is what Python sees: the classes, the attribute
  names with their overloads in registration order, the docstrings and keyword defaults,
  and the members of the enum \<open>QGateKind\<close>, which \<open>export_values()\<close> also puts into the
  module. A class is the list of its registrations in order (\<open>nb_class\<close>). A second
  \<open>def\<close> of a name adds an overload, which nanobind tries after the earlier ones. The
  operators \<open>nb::self + nb::self\<close> and so on are registered under the Python names
  nanobind gives them (\<open>__add__\<close>, \<open>__iadd__\<close>, \<open>__rmul__\<close>, ...). A C++ callable is
  named by its qualified name, and a lambda by the member function it calls.
\<close>

text \<open>\<open>Sharqit::QGateKind\<close>, with its constructors in the order of the registration.
  \<open>X\<close>, \<open>S\<close>, \<open>T\<close>, \<open>H\<close> and \<open>Id\<close> would clash with HOL names, so every constructor has
  the suffix \<open>_gate\<close>.\<close>

datatype qgate_kind =
    X_gate | Z_gate | S_gate | Sdg_gate | T_gate | Tdg_gate | H_gate | RZ_gate | CX_gate | CZ_gate
  | Id_gate | Id2_gate

text \<open>A registration: a constructor with its argument types, a function with its docstring
  and keyword arguments (\<open>nb::arg(name) = default\<close>), an operator, or a property with its
  docstring.\<close>

datatype nb_member =
    Init "string list"
  | Method string string "(string \<times> string) list"
  | Operator string
  | Property string

record nb_class =
  cls_name :: string
  cls_doc :: string
  cls_members :: "(string \<times> nb_member) list"

definition phase_class :: nb_class where
  "phase_class =
   \<lparr>cls_name = ''Phase'', cls_doc = ''Phase of rotation gate'',
    cls_members =
    [(''__init__'', Init [''const int32_t'']),
     (''__init__'', Init [''const int32_t'', ''const int32_t'']),
     (''__init__'', Init [''const std::string&'']),
     (''to_string'', Method ''Sharqit::Phase::to_string'' ''get a string of the Phase.'' [(''pi_str'', ''false'')]),
     (''__str__'', Method ''Sharqit::Phase::to_string'' [] [(''pi_str'', ''false'')]),
     (''__add__'', Operator ''self + self''),
     (''__sub__'', Operator ''self - self''),
     (''__iadd__'', Operator ''self += self''),
     (''__isub__'', Operator ''self -= self''),
     (''__imul__'', Operator ''self *= int32_t''),
     (''__itruediv__'', Operator ''self /= int32_t''),
     (''__rmul__'', Operator ''int * self''),
     (''__mul__'', Operator ''self * int''),
     (''__truediv__'', Operator ''self / int'')]\<rparr>"

text \<open>\<open>nb::enum_<Sharqit::QGateKind>(m, "QGateKind")\<close>: each \<open>.value(name, kind, doc)\<close>.\<close>

definition qgatekind_values :: "(string \<times> qgate_kind \<times> string) list" where
  "qgatekind_values =
    [(''X'', X_gate, ''Pauli-X gate''),
     (''Z'', Z_gate, ''Pauli-X gate''),
     (''S'', S_gate, ''S gate''),
     (''Sdg'', Sdg_gate, ''Hermitian conjugate of S gate''),
     (''T'', T_gate, ''T gate''),
     (''Tdg'', Tdg_gate, ''Hermitian conjugate of T gate''),
     (''H'', H_gate, ''Hadamard gate''),
     (''RZ'', RZ_gate, ''RZ gate''),
     (''CX'', CX_gate, ''CNOT gate''),
     (''CZ'', CZ_gate, ''controlled RZ gate''),
     (''Id'', Id_gate, ''single qubit identity gate''),
     (''Id2'', Id2_gate, ''two qubit identity gate'')]"

definition qgate_class :: nb_class where
  "qgate_class =
   \<lparr>cls_name = ''QGate'', cls_doc = ''Quantum Gate'',
    cls_members =
    [(''__init__'', Init [''const Sharqit::QGateKind'', ''const std::vector<uint32_t>&'']),
     (''__init__'', Init [''const Sharqit::QGateKind'', ''const std::vector<uint32_t>&'', ''const Sharqit::Phase&'']),
     (''__init__'', Init [''const std::string&'']),
     (''to_string'', Method ''Sharqit::QGate::to_string'' ''get a string of the QGate.'' [(''pi_str'', ''false'')]),
     (''__str__'', Method ''Sharqit::QGate::to_string'' [] [(''pi_str'', ''false'')]),
     (''name'', Method ''Sharqit::QGate::name'' ''get a string of the QGate name.'' [(''pi_str'', ''false'')]),
     (''kind'', Property ''kind of the QGate.''),
     (''qid'', Property ''qubit indexes of the QGate''),
     (''phase'', Property ''phase of the rotation gate.'')]\<rparr>"

definition qcirc_class :: nb_class where
  "qcirc_class =
   \<lparr>cls_name = ''QCirc'', cls_doc = ''Quantum Circuit'',
    cls_members =
    [(''__init__'', Init []),
     (''to_string'', Method ''Sharqit::QCirc::to_string'' ''show the quantum circuit diagram as an ascii string.'' [(''width'', ''100'')]),
     (''__str__'', Method ''Sharqit::QCirc::to_string'' [] [(''width'', ''100'')]),
     (''show'', Method ''Sharqit::QCirc::show'' ''show the quantum circuit diagram as an ascii string.'' [(''width'', ''100'')]),
     (''print_stats'', Method ''Sharqit::QCirc::print_stats'' ''print stats of the QCirc.'' []),
     (''is_equal'', Method ''Sharqit::QCirc::is_equal'' ''is the quantum circuit equal to the other.'' []),
     (''save'', Method ''Sharqit::QCirc::save'' ''save the quantum circuit to a file.'' []),
     (''load'', Method ''Sharqit::QCirc::load'' ''load the quantum circuit from a file.'' []),
     (''id'', Method ''Sharqit::QCirc::id'' ''add an identity gate to the quantum circuit.'' []),
     (''x'', Method ''Sharqit::QCirc::x'' ''add a pauli-X gate to the quantum circuit.'' []),
     (''z'', Method ''Sharqit::QCirc::z'' ''add a pauli-Z gate to the quantum circuit'' []),
     (''s'', Method ''Sharqit::QCirc::s'' ''add a S gate to the quantum circuit.'' []),
     (''sdg'', Method ''Sharqit::QCirc::sdg'' ''add a S+ (Hermitian conjugate of the S gate) gate to the quantum circuit.'' []),
     (''t'', Method ''Sharqit::QCirc::t'' ''add a T gate to the quantum circuit.'' []),
     (''tdg'', Method ''Sharqit::QCirc::tdg'' ''add a T+ (Hermitian conjugate of the T gate) gate to the quantum circuit.'' []),
     (''h'', Method ''Sharqit::QCirc::h'' ''add an H (hadamard) gate to the quantum circuit.'' []),
     (''rz'', Method ''Sharqit::QCirc::rz'' ''add a RZ gate to the quantum circuit.'' []),
     (''id2'', Method ''Sharqit::QCirc::id2'' ''add a two-qubit identity gate.'' []),
     (''cx'', Method ''Sharqit::QCirc::cx'' ''add a CX (CNOT) gate to the quantum circuit.'' []),
     (''cz'', Method ''Sharqit::QCirc::cz'' ''add a CZ gate to the quantum circuit.'' []),
     (''rx'', Method ''Sharqit::QCirc::rx'' ''add a CX (CNOT) gate to the quantum circuit.'' []),
     (''y'', Method ''Sharqit::QCirc::y'' ''add a pauli-Y gate to the quamtum circuit.'' []),
     (''sx'', Method ''Sharqit::QCirc::sx'' ''add a sqrt-X (squre root of pauli-X) gate to the quantum circuit.'' []),
     (''sxdg'', Method ''Sharqit::QCirc::sxdg'' ''add a sqrt-X+ (squre root of pauli-X) gate to the quantum circuit.'' []),
     (''ry'', Method ''Sharqit::QCirc::ry'' ''add a RY gate to the quantum circuit.'' []),
     (''p'', Method ''Sharqit::QCirc::p'' ''add a P (phase shift) gate to the quantum circuit.'' []),
     (''cy'', Method ''Sharqit::QCirc::cy'' ''add a CY (controlled-Y) gate to the quantum circuit.'' []),
     (''csx'', Method ''Sharqit::QCirc::csx'' ''add a controlled-sqrt-X gate to the quantum circuit.'' []),
     (''csxdg'', Method ''Sharqit::QCirc::csxdg'' ''add a hermitian conjugate of controlled-sqrt-X gate to the quantum circuit.'' []),
     (''ch'', Method ''Sharqit::QCirc::ch'' ''add a CH (controlled-hadamard) gate to the quantum circuit.'' []),
     (''cs'', Method ''Sharqit::QCirc::cs'' ''add a CS (controlled-S) gate to the quantum circuit.'' []),
     (''csdg'', Method ''Sharqit::QCirc::csdg'' ''add a CS+ (hermitian conjugate of controlled-S) gate to the quantum circuit.'' []),
     (''ct'', Method ''Sharqit::QCirc::ct'' ''add a CT (controlled-T) gate to the quantum circuit.'' []),
     (''ctdg'', Method ''Sharqit::QCirc::ctdg'' ''add a CT+ (hermitian conjugate of controlled-T) gate to the quantum circuit.'' []),
     (''crx'', Method ''Sharqit::QCirc::crx'' ''add a controlled-RX gate to the quantum circuit.'' []),
     (''cry'', Method ''Sharqit::QCirc::cry'' ''add a controlled-RY gate to the quantum circuit.'' []),
     (''crz'', Method ''Sharqit::QCirc::crz'' ''add a controlled-RZ gate to the quantum circuit.'' []),
     (''cp'', Method ''Sharqit::QCirc::cp'' ''add a controlled-P gate to the quantum circuit.'' []),
     (''rxx'', Method ''Sharqit::QCirc::rxx'' ''add a ising coupling gate (XX-interaction) to the quantum circuit.'' []),
     (''ryy'', Method ''Sharqit::QCirc::ryy'' ''add a ising coupling gate (YY-interaction) to the quantum circuit.'' []),
     (''rzz'', Method ''Sharqit::QCirc::rzz'' ''add a ising coupling gate (ZZ-interaction) to the quantum circuit.'' []),
     (''sw'', Method ''Sharqit::QCirc::sw'' ''add a swap gate to the quantum circuit.'' []),
     (''csw'', Method ''Sharqit::QCirc::csw'' ''add a controlled swap (fredkin) gate to the quantum circuit.'' []),
     (''ccx'', Method ''Sharqit::QCirc::ccx'' ''add a controlled cnot (toffoli) gate to the quantum circuit.'' []),
     (''ccz'', Method ''Sharqit::QCirc::ccz'' ''add a controlled CZ gate to the quantum circuit.'' []),
     (''x_count'', Method ''Sharqit::QCirc::x_count'' ''get a number of pauli-X gates in the quantum circuit.'' []),
     (''z_count'', Method ''Sharqit::QCirc::z_count'' ''get a number of pauli-Z gates in the quantum circuit.'' []),
     (''h_count'', Method ''Sharqit::QCirc::h_count'' ''get a number of H gates in the quantum circuit.'' []),
     (''s_count'', Method ''Sharqit::QCirc::s_count'' ''get a number of S and S+ gates in the quantum circuit.'' []),
     (''t_count'', Method ''Sharqit::QCirc::t_count'' ''get a number of T and T+ gates in the quantum circuit.'' []),
     (''rz_count'', Method ''Sharqit::QCirc::rz_count'' ''get a number of RZ gates in the quantum circuit.'' []),
     (''cx_count'', Method ''Sharqit::QCirc::cx_count'' ''get a number of CX (CNOT) gates in the quantum circuit.'' []),
     (''cz_count'', Method ''Sharqit::QCirc::cz_count'' ''get a number of CZ gates in the quantum circuit.'' []),
     (''twoq_count'', Method ''Sharqit::QCirc::twoq_count'' ''get a number of two-qubit gates in the quantum circuit.'' []),
     (''ccx_count'', Method ''Sharqit::QCirc::ccx_count'' ''get a number of CCX gates in the quantum circuit.'' []),
     (''ccz_count'', Method ''Sharqit::QCirc::ccz_count'' ''get a number of CCZ gates in the quantum circuit.'' []),
     (''tof_count'', Method ''Sharqit::QCirc::tof_count'' ''get a number of Toffoli gates (CCX and CCZ gates) in the quantum circuit.'' []),
     (''gate_count'', Method ''Sharqit::QCirc::gate_count'' ''get a number of the quantum gates except to identity gates.'' []),
     (''depth'', Method ''Sharqit::QCirc::depth'' ''get a depth of the quantum circuit.'' []),
     (''qubit_num'', Method ''Sharqit::QCirc::qubit_num'' ''get a number of the qubits.'' []),
     (''add_random'', Method ''Sharqit::QCirc::add_random_str'' ''add a random quantum circuit to the quantum circuit.'' []),
     (''add_qgate'', Method ''Sharqit::QCirc::add_qgate(const std::string&)'' ''add a quantum gate to the quantum circuit.'' []),
     (''add_qgate'', Method ''Sharqit::QCirc::add_qgate(const Sharqit::QGate&)'' ''add a quantum gate to the quantum circuit.'' []),
     (''add_qgate'', Method ''Sharqit::QCirc::add_qgate(const Sharqit::QGateKind, const std::vector<uint32_t>&, const Sharqit::Phase&)''
        ''add a quantum gate to the quantum circuit.'' []),
     (''add_qcirc'', Method ''Sharqit::QCirc::add_qcirc'' ''add a quantum circuit to the quantum circuit.'' []),
     (''get_qgate'', Method ''Sharqit::QCirc::get_qgate'' ''get a quantum gate.'' []),
     (''get_qgates'', Method ''Sharqit::QCirc::get_qgates'' ''get a list of quantum gates.'' []),
     (''decomp_tof'', Method ''Sharqit::QCirc::decomp_tof'' ''decompose Toffoli gates.'' []),
     (''__add__'', Operator ''self + self''),
     (''__iadd__'', Operator ''self += self'')]\<rparr>"

definition optimizer_class :: nb_class where
  "optimizer_class =
   \<lparr>cls_name = ''Optimizer'', cls_doc = ''Quantum Optimizer'',
    cls_members =
    [(''__init__'', Init []),
     (''show'', Method ''Sharqit::Optimizer::show'' ''show the optimizing result.'' []),
     (''proc_time'', Method ''Sharqit::Optimizer::get_proc_time'' ''get the processing time (sec).'' []),
     (''reduce_gates'', Method ''Sharqit::Optimizer::reduce_gates'' ''reduce the gate count.'' [])]\<rparr>"

text \<open>The module: its classes in the order they are registered, and its attributes, with
  the members of the enum that \<open>export_values()\<close> adds right after \<open>QGateKind\<close>.\<close>

definition sharqit_classes :: "nb_class list" where
  "sharqit_classes = [phase_class, qgate_class, qcirc_class, optimizer_class]"

definition module_attrs :: "string list" where
  "module_attrs = [''Phase'', ''QGateKind''] @ map fst qgatekind_values @ [''QGate'', ''QCirc'', ''Optimizer'']"

text \<open>The overloads of a Python attribute of a class, in the order nanobind tries them.\<close>

definition py_overloads :: "nb_class \<Rightarrow> string \<Rightarrow> nb_member list" where
  "py_overloads c n = map snd (filter (\<lambda>(m, _). m = n) (cls_members c))"

text \<open>\<open>QGateKind[name]\<close>, and the \<open>name\<close> and \<open>__doc__\<close> of a member.\<close>

definition py_enum_lookup :: "string \<Rightarrow> qgate_kind option" where
  "py_enum_lookup n = map_of (map (\<lambda>(n, k, d). (n, k)) qgatekind_values) n"

definition kind_name :: "qgate_kind \<Rightarrow> string option" where
  "kind_name k = map_option fst (find (\<lambda>(n, k', d). k' = k) qgatekind_values)"

definition kind_doc :: "qgate_kind \<Rightarrow> string option" where
  "kind_doc k = map_option (snd \<circ> snd) (find (\<lambda>(n, k', d). k' = k) qgatekind_values)"

text \<open>The kinds are finitely many: \<open>enum\<close> lists them in the order of the registration.\<close>

instantiation qgate_kind :: enum
begin

definition "enum_qgate_kind =
  [X_gate, Z_gate, S_gate, Sdg_gate, T_gate, Tdg_gate, H_gate, RZ_gate, CX_gate, CZ_gate, Id_gate, Id2_gate]"

definition "enum_all_qgate_kind P \<longleftrightarrow> list_all P
  [X_gate, Z_gate, S_gate, Sdg_gate, T_gate, Tdg_gate, H_gate, RZ_gate, CX_gate, CZ_gate, Id_gate, Id2_gate]"

definition "enum_ex_qgate_kind P \<longleftrightarrow> list_ex P
  [X_gate, Z_gate, S_gate, Sdg_gate, T_gate, Tdg_gate, H_gate, RZ_gate, CX_gate, CZ_gate, Id_gate, Id2_gate]"

lemma UNIV_qgate_kind: "(UNIV :: qgate_kind set) = {X_gate, Z_gate, S_gate, Sdg_gate, T_gate, Tdg_gate, H_gate, RZ_gate, CX_gate, CZ_gate, Id_gate, Id2_gate}"
proof (rule UNIV_eq_I)
  fix k :: qgate_kind
  show "k \<in> {X_gate, Z_gate, S_gate, Sdg_gate, T_gate, Tdg_gate, H_gate, RZ_gate, CX_gate, CZ_gate, Id_gate, Id2_gate}" by (cases k) simp_all
qed

instance
  by standard (simp_all add: UNIV_qgate_kind enum_all_qgate_kind_def enum_ex_qgate_kind_def enum_qgate_kind_def)

end

subsection \<open>What Python sees\<close>

text \<open>Every kind is a member of \<open>QGateKind\<close> under one name, and looking the name up
  gives the kind back.\<close>

lemma kind_name_roundtrip: "\<exists>n. kind_name k = Some n \<and> py_enum_lookup n = Some k"
  by (cases k) (simp_all add: kind_name_def py_enum_lookup_def qgatekind_values_def)

lemma qgatekind_names_distinct: "distinct (map fst qgatekind_values)"
  by (simp add: qgatekind_values_def)

text \<open>\<open>export_values()\<close> shadows no class of the module: all its attributes are distinct.\<close>

lemma module_attrs_distinct: "distinct module_attrs"
  by (simp add: module_attrs_def qgatekind_values_def)

text \<open>\<open>add_qgate\<close> is the only overloaded method of \<open>QCirc\<close>: a string is tried
  first, then a \<open>QGate\<close>, then a kind with qubits and a phase.\<close>

lemma qcirc_add_qgate:
  "py_overloads qcirc_class ''add_qgate'' =
     [Method ''Sharqit::QCirc::add_qgate(const std::string&)'' ''add a quantum gate to the quantum circuit.'' [],
      Method ''Sharqit::QCirc::add_qgate(const Sharqit::QGate&)'' ''add a quantum gate to the quantum circuit.'' [],
      Method ''Sharqit::QCirc::add_qgate(const Sharqit::QGateKind, const std::vector<uint32_t>&, const Sharqit::Phase&)''
        ''add a quantum gate to the quantum circuit.'' []]"
  by code_simp
text \<open>Every other name of \<open>QCirc\<close> is registered once.\<close>

lemma qcirc_single: "distinct (filter (\<lambda>n. n \<noteq> ''add_qgate'') (map fst (cls_members qcirc_class)))"
  by code_simp

text \<open>\<open>__str__\<close> calls the function of \<open>to_string\<close> with the same keyword default, in
  every class that has both.\<close>

lemma str_is_to_string:
  "list_all (\<lambda>c. case py_overloads c ''to_string'' of
                   [Method f d a] \<Rightarrow> py_overloads c ''__str__'' = [Method f [] a]
                 | _ \<Rightarrow> True) sharqit_classes"
  by code_simp

text \<open>The docstrings of two members of \<open>QGateKind\<close> and of \<open>QCirc.rx\<close> name another
  gate.\<close>

lemma wrong_docstrings:
  "kind_doc Z_gate = kind_doc X_gate"
  "kind_doc CZ_gate = Some ''controlled RZ gate''"
  "py_overloads qcirc_class ''rx'' = [Method ''Sharqit::QCirc::rx'' ''add a CX (CNOT) gate to the quantum circuit.'' []]"
  by code_simp+
end
