(* ===== verification/Pg_Catalog.thy ===== *)
theory Pg_Catalog
  imports Main
begin

text \<open>
  Two catalog headers that PostgreSQL's genbki.pl generates and pgserver 0.0.6 ships
  (pginstall/include/postgresql/server/catalog/pg_auth_members_d.h and
  pg_parameter_acl_d.h). Each header is a list of \<open>#define\<close>s: the OIDs of the
  catalog's relation, row type, TOAST table and indexes, the attribute numbers
  \<open>Anum_*\<close> of its columns, and the column count \<open>Natts_*\<close>. A header is the record
  \<open>catalog_header\<close> of these values, in the order of the file. The property genbki
  guarantees, and that the backend relies on when it indexes a tuple by \<open>Anum - 1\<close>, is
  \<open>catalog_wf\<close>: the attribute numbers are \<open>1 .. Natts\<close> in order, and the OIDs are
  distinct and below \<open>FirstGenbkiObjectId = 10000\<close>, the range of hand-assigned OIDs.
\<close>

record catalog_header =
  cat_oids :: "(string \<times> nat) list"
  cat_attnums :: "(string \<times> nat) list"
  cat_natts :: nat

definition pg_auth_members_d :: catalog_header where
  "pg_auth_members_d =
   \<lparr>cat_oids = [(''AuthMemRelationId'', 1261), (''AuthMemRelation_Rowtype_Id'', 2843),
               (''AuthMemRoleMemIndexId'', 2694), (''AuthMemMemRoleIndexId'', 2695)],
    cat_attnums = [(''Anum_pg_auth_members_roleid'', 1), (''Anum_pg_auth_members_member'', 2),
                   (''Anum_pg_auth_members_grantor'', 3), (''Anum_pg_auth_members_admin_option'', 4)],
    cat_natts = 4\<rparr>"

definition pg_parameter_acl_d :: catalog_header where
  "pg_parameter_acl_d =
   \<lparr>cat_oids = [(''ParameterAclRelationId'', 6243), (''PgParameterAclToastTable'', 6244),
               (''PgParameterAclToastIndex'', 6245), (''ParameterAclParnameIndexId'', 6246),
               (''ParameterAclOidIndexId'', 6247)],
    cat_attnums = [(''Anum_pg_parameter_acl_oid'', 1), (''Anum_pg_parameter_acl_parname'', 2),
                   (''Anum_pg_parameter_acl_paracl'', 3)],
    cat_natts = 3\<rparr>"

definition first_genbki_object_id :: nat where "first_genbki_object_id = 10000"

definition catalog_wf :: "catalog_header \<Rightarrow> bool" where
  "catalog_wf c \<longleftrightarrow>
     map snd (cat_attnums c) = [1..<Suc (cat_natts c)] \<and> distinct (map snd (cat_oids c)) \<and>
     list_all (\<lambda>(_, oid). oid < first_genbki_object_id) (cat_oids c)"

subsection \<open>The generated headers are consistent\<close>

lemma pg_auth_members_wf: "catalog_wf pg_auth_members_d"
  by (simp add: catalog_wf_def pg_auth_members_d_def first_genbki_object_id_def upt_rec)

lemma pg_parameter_acl_wf: "catalog_wf pg_parameter_acl_d"
  by (simp add: catalog_wf_def pg_parameter_acl_d_def first_genbki_object_id_def upt_rec)

text \<open>The two catalogs share no OID.\<close>

lemma catalog_oids_disjoint:
  "set (map snd (cat_oids pg_auth_members_d)) \<inter> set (map snd (cat_oids pg_parameter_acl_d)) = {}"
  by (simp add: pg_auth_members_d_def pg_parameter_acl_d_def)

end
