(* ===== verification/Spec2Isabelle.thy ===== *)
theory Spec2Isabelle
  imports Join Lazy MagnetoShield AeroShield Slau_Heap Pyfdmss_Wrapper Sharqit_Bindings Pg_Catalog
begin

text \<open>
  \<^bold>\<open>A verified model of the C and C++ code of the repository.\<close>

  The development models three programs of the repository: the state-vector simulator
  core of doki (the largest part, described first), the Arduino firmwares of
  python-automationshield, and the linear-system solver of pyfdmss. They do not call each
  other; the root theory imports the three groups of theories.

  The first program is the C core of doki 1.5.2
  (src/packages/doki-Mowstyl/doki_mowstyl-1.5.2.tar.gz/doki_mowstyl-1.5.2/src/doki):
  the chunked store of arraylist.h/arraylist.c and the quantum operations of qops.c.
  Data flows one way. The chunked store holds long arrays as fixed-size chunks. The state
  vector (qstate.c) keeps its \<open>2 ^ n\<close> amplitudes in such a store, with a deferred
  normalisation \<open>norm_const\<close>. The operations of qops.c read state vectors and build new
  ones: measurement and collapse, the composition \<open>join\<close>, the eager gate engine
  \<open>apply_gate\<close> (which also keeps its list of recomputed indices in a chunked store), and
  the lazy adapters that expose a density matrix or a deferred gate application through
  callbacks of a FunctionalMatrix.

  \<^medskip>\<^bold>\<open>Theories.\<close>
  \<^item> \<open>Doki_Prelude\<close>: the platform constants \<open>NATURAL_ARRAY_SIZE\<close> and
    \<open>COMPLEX_ARRAY_SIZE\<close> (record \<open>platform\<close>), the exit codes (\<open>doki_error\<close>,
    \<open>error_code\<close>), the allocator (\<open>mem\<close>, \<open>malloc\<close>, \<open>free\<close>, \<open>free_all\<close>: block
    numbers handed out in order, failures decided by an oracle \<open>mem_ok\<close>, the set of live
    blocks kept so that leaks and premature frees are visible), the control test
    \<open>ctrl_selected\<close>, and the shared lemmas on bits, sums and the allocator.
  \<^item> \<open>ArrayList\<close>: \<open>struct array_list_e\<close> as the record \<open>array_list\<close> and
    \<open>alist_init\<close> (with its chunk loop \<open>alloc_chunks\<close>), \<open>alist_clear\<close>,
    \<open>alist_set\<close>, \<open>alist_get\<close> of arraylist.c. The invariant \<open>alist_wf\<close> and the
    abstraction \<open>alist_list\<close> (the concatenated chunks) give the refinement C3 and the
    read-after-write law C4; C15 covers allocation failure, and C19 the capacity mismatch: any
    allocation capacity smaller than the access capacity loses an index below the size.
  \<^item> \<open>StateVector\<close>: qstate.c is not under src/, so \<open>state_vector\<close>, \<open>state_init\<close>,
    \<open>state_get\<close> (the stored value divided by \<open>norm_const\<close>), \<open>state_set\<close> and
    \<open>state_clear\<close> are modelled from the spec and from their uses in qops.c, over the
    chunked store, with the laws of writes at distinct indices.
  \<^item> \<open>Measure\<close>: \<open>get_global_phase\<close>, \<open>probability\<close>, \<open>collapse\<close> (with its loop body
    \<open>collapse_step\<close>) and \<open>measure\<close>; C5, C6, C7 (collapse and measurement), C10
    (probability), C20 (error path), C23 and C24 (global phase).
  \<^item> \<open>Join\<close>: \<open>join\<close>; C8 and C9 show the result is the tensor product.
  \<^item> \<open>ApplyGate\<close>: \<open>apply_gate\<close>, \<open>copy_and_index\<close> (with the control test
    \<open>copy_only\<close>), \<open>calculate_empty\<close> (with the target loop body \<open>target_step\<close>), and
    \<open>struct qgate\<close> from the spec. The reference semantics \<open>apply_gate_ref\<close> (the dense
    gate on the target bits of the indices the controls select) is the abstract
    specification; C1 is the refinement, C11 the exact pre-sizing of the index list, C12
    order independence, C16 success with ample memory, C18 and C21 the overflow and error
    paths.
  \<^item> \<open>Lazy\<close>: \<open>struct Application\<close> and \<open>new_application\<close>, \<open>free_application\<close>,
    \<open>clone_application\<close>, \<open>size_application\<close>, \<open>apply_gate_fmat\<close> with its callback
    \<open>_ApplyGateFunction\<close> (\<open>apply_gate_function\<close>), \<open>_densityFun\<close> (\<open>density_fun\<close>)
    and \<open>density_matrix\<close>, over an explicit store \<open>pyworld\<close> of the Python capsules and
    the Application structures. C2 proves the lazy and the eager strategies agree; C13 and
    C17 are the reference-count life cycle (an inductive step relation \<open>app_life\<close>);
    C14 the density matrix (positive semidefinite); C22 the error path of \<open>apply_gate_fmat\<close>.

  \<^medskip>\<^bold>\<open>How the model corresponds to the code.\<close>
  Every C function is one definition of the same name (\<open>_densityFun\<close> and
  \<open>_ApplyGateFunction\<close> become \<open>density_fun\<close> and \<open>apply_gate_function\<close>); a struct is a
  record; an out-parameter or a mutated structure is returned in the result; the heap is
  the explicit \<open>mem\<close> (and \<open>pyworld\<close> for the Python objects and the Application
  structures, which handles share by address). Every early return is a branch: errors are
  the \<open>Inl\<close> values of \<open>doki_error + _\<close> (numbered by \<open>error_code\<close>) or \<open>None\<close>;
  \<open>errno\<close> is a field of the world. A path with undefined behaviour in C is a value of
  its own: \<open>Err_undefined\<close> for the \<open>size_t\<close> wrap of \<open>alist_init\<close> on size 0, \<open>None\<close>
  for access to a freed Application. Loops are folds over \<open>[0..<n]\<close> in the order of
  the C loop, with a \<open>break\<close> written as an existential (\<open>copy_only\<close>) or as the
  recursion \<open>phase_scan\<close>.

  \<^medskip>\<^bold>\<open>Bounds and fuel.\<close> No loop of the core can run forever: every loop is bounded by a
  size or a count. So every definition is total, with no fuel: folds over finite ranges,
  and structural recursion for \<open>alloc_chunks\<close>, \<open>phase_scan\<close>, \<open>gate_row\<close> and
  \<open>put_targets\<close>. Where a result is claimed to exist, it is proved outright: C16 (the
  engine returns a state when memory suffices) and C17 (every release sequence is
  defined and ends in a full release).

  \<^medskip>\<^bold>\<open>Deliberate simplifications.\<close>
  \<^item> Indices are \<open>nat\<close>, not the 64-bit \<open>NATURAL_TYPE\<close>, and sizes and shifts are
    assumed below \<open>2 ^ 64\<close> (a register of at most 63 qubits). \<open>1 << q\<close> is
    \<open>push_bit q 1\<close>, masks are \<open>AND\<close>, and \<open>&= ~m\<close> is \<open>unset_bit\<close>.
  \<^item> Amplitudes are exact \<open>complex\<close> numbers and \<open>REAL_TYPE\<close> is \<open>real\<close>. Floating-point
    rounding is not modelled, and neither is the payload of \<open>COMPLEX_NAN\<close> (it is
    \<open>None\<close>).
  \<^item> OpenMP loops run sequentially in index order. Their reductions are exact sums, and
    C12 shows that the order in which free indices reach \<open>not_copy\<close> does not matter.
  \<^item> \<open>malloc\<close> does not initialise memory: fresh chunks hold \<open>undefined\<close>.
  \<^item> The Python layer (reference counts, capsule lookup) and the FunctionalMatrix library
    (funmatrix.c: \<open>new_FunctionalMatrix\<close>, \<open>getitem\<close>) are outside src/. They are modelled
    from the spec's construction interface, with \<open>getitem\<close> a parameter of the lazy
    lemmas.
  \<^item> \<open>size_application\<close> and \<open>size_state_capsule\<close> are modelled but not proved
    correct: they only add sizes, and \<open>state_mem_size\<close> is outside the sources.


  \<^medskip>\<^bold>\<open>The AutomationShield firmwares\<close> (python-automationshield 0.4.0,
  arduino_firmware/leonardo/src_magnetoshield/main.cpp and src_aeroshield/main.cpp).
  Each firmware answers the host over the serial line, one frame per call of
  \<open>loop()\<close>: a command byte (TEST, RUN or STOP) with its parameter in, three bytes out
  that pack two 12-bit values.
  \<^item> \<open>Shield_Protocol\<close>: the 16-bit AVR words (\<open>avr_int\<close>, \<open>uint16\<close>, \<open>byte\<close>), the
    effects of a loop iteration (\<open>io_event\<close>: serial write, I2C transaction,
    \<open>analogWrite\<close>), its inputs (\<open>loop_input\<close>), \<open>Serial.readBytes\<close>
    (\<open>read_bytes\<close>, from the Arduino documentation: the library is not in src/), and the
    host's reading of a frame \<open>frame_decode\<close>. It proves that the packing expression is
    decoded back to its operands when both fit in 12 bits.
  \<^item> \<open>MagnetoShield\<close>: the globals as the record \<open>magneto_state\<close>, and \<open>receive\<close>,
    \<open>sensor_read\<close>, \<open>actuator_write\<close> (the MCP4725 DAC transaction), \<open>set_out_buffer\<close>,
    \<open>send\<close>, the command switch \<open>magneto_command\<close> and \<open>magneto_loop\<close>. \<open>magneto_run\<close>
    is the Arduino \<open>main()\<close>, \<open>loop()\<close> over a list of inputs. The product
    \<open>actuator * 4\<close> is a signed 16-bit multiplication whose overflow is undefined in C,
    so \<open>avr_mul\<close> returns \<open>None\<close> there and \<open>magneto_loop\<close> is partial. C25 is the
    RUN round trip over any run, C26 and C27 the TEST overflow and echo, C28 a short read.
    The lemma \<open>magneto_run_wf\<close> keeps the buffer sizes along every run.
  \<^item> \<open>AeroShield\<close>: \<open>aero_state\<close>, \<open>aero_receive\<close>, \<open>aero_send\<close>, \<open>aero_command\<close> and
    \<open>aero_loop\<close>. C29 shows that the TEST reply packs the wrong shift.
  \<^item> \<open>setup()\<close> is the list of its effects (\<open>magneto_setup\<close>, \<open>aero_setup\<close>: the serial
    port, the I2C bus, the analog reference or the AS5600 driver). The Arduino \<open>main()\<close>
    (\<open>magneto_main\<close>, \<open>aero_main\<close> with \<open>aero_run\<close>) starts from the zero-initialised
    globals \<open>magneto_init\<close> and \<open>aero_init\<close>, runs \<open>setup()\<close> once and then \<open>loop()\<close>
    once per input. The lemmas \<open>magneto_main_setup_first\<close> and \<open>aero_main_setup_first\<close>
    show that every later effect is one of \<open>loop()\<close> (\<open>loop_event\<close>), so the I2C bus is
    begun before any transaction, and that the buffers keep their sizes.

  \<^medskip>\<^bold>\<open>The pyfdmss linear system\<close> (pyfdmss 0.0.9, src/Slau.cpp), theory \<open>Slau\<close>.
  The constructor \<open>Slau::Slau\<close> (\<open>slau_init\<close>, with \<open>env_side\<close> picking the x or y
  side and \<open>slau_rows\<close> the rows it writes) sets up the equations between a stencil and
  the Taylor coefficients (\<open>get_taylor_coeffs\<close>). \<open>Trianglize\<close> (\<open>trianglize\<close>, one
  \<open>eliminate_column\<close> per column, built from \<open>seek_row\<close>, \<open>swap_rows\<close> and
  \<open>add_to_row\<close>) and \<open>SolveForSecondDerivative\<close> (\<open>solve_second_derivative\<close>, one
  \<open>back_substitute_row\<close> per row) solve them. The record \<open>slau\<close> holds \<open>p\<close>, \<open>A\<close> as
  a list of rows, and \<open>B\<close> as a list of polynomials (coefficient functions: Polynom.h and
  EnvCase are not in src/, so \<open>poly_new\<close>, \<open>poly_add\<close>, \<open>poly_div\<close> and \<open>env_case\<close>
  are modelled from their uses). \<open>float\<close> is \<open>real\<close>, and a division by zero is the error
  \<open>Nonfinite\<close>, not HOL's \<open>x / 0 = 0\<close>. The specification is \<open>solves\<close> (the
  equations hold) with \<open>row_combine\<close>, the textbook row operation that \<open>add_to_row\<close>
  refines. C30 shows that the solver returns the second unknown of any solution, C31 that
  elimination never divides by zero and keeps the solutions, C32 when the constructor
  overflows its arrays, and C33 that \<open>GetTaylorCoeffs\<close> computes \<open>d ^ k / k!\<close>.
  \<open>SeekRow\<close>'s loop is the only recursion that is not a fold: \<open>seek_row_from\<close> is
  a \<open>function\<close> whose termination is proved by the measure \<open>p - rowIdx\<close>, and C34
  states its exact result: the first row from \<open>rowIdx\<close> with a non-zero entry in the
  column, or \<open>-1\<close> exactly when there is none.
  \<^item> \<open>Slau_Heap\<close>: the heap of a \<open>Slau\<close> object, as the multiset of its live blocks
    (\<open>slau_block\<close>): the allocations of the constructor (\<open>slau_new\<close>), of
    \<open>SolveForSecondDerivative\<close> (\<open>slau_solve\<close>) and the frees of the destructor
    (\<open>slau_delete\<close>). C35 shows that a lifetime of construction, one solve and
    destruction leaks \<open>2 p - 1\<close> polynomials and the array \<open>sols\<close>.

  \<^medskip>\<^bold>\<open>The pyfdmss Python entry point\<close> (pyfdmss 0.0.8, src/wrapper.h and
  src/main.cpp), theory \<open>Pyfdmss_Wrapper\<close>. \<open>run\<close> passes its ten file names to
  \<open>SolveImpl\<close> (\<open>solve_impl\<close>), which is modelled as the list of its effects in order
  (\<open>solve_event\<close>): passing the parameters, reading the inputs, launching the solver,
  the printed report, writing the fields and saving the XML summary (\<open>xml_doc\<close>). The
  solver \<open>OverdozenPermsolver\<close>, \<open>CmdLineParameters\<close> and TinyXML are not in the
  sources: the solver is the record of the values it returns (\<open>permsolver_result\<close>).
  The registration of \<open>run\<close> with its keyword defaults is \<open>py_run_args\<close>, and
  \<open>py_run_call_cxx\<close> shows that a Python call with omitted arguments is the C++ call
  with its default arguments. C36 is the report on both branches of the load check.

  \<^medskip>\<^bold>\<open>The sharqit Python module\<close> (sharqit 0.2.2, sharqit/cpp/nb_sharqit.cpp), theory
  \<open>Sharqit_Bindings\<close>. The file only registers the C++ library (sharqit.h, not in the
  sources) with nanobind, so what it decides is what Python sees. Each class is the list of
  its registrations in order (\<open>nb_class\<close>, \<open>nb_member\<close>: \<open>phase_class\<close>,
  \<open>qgate_class\<close>, \<open>qcirc_class\<close>, \<open>optimizer_class\<close>), the enum \<open>QGateKind\<close> is
  \<open>qgatekind_values\<close> over the datatype \<open>qgate_kind\<close> (an instance of \<open>enum\<close>), and
  \<open>module_attrs\<close> lists the module's names with those \<open>export_values()\<close> adds. The
  lemmas show the enum round trip by name, that no exported name shadows a class, that
  \<open>add_qgate\<close> is the only overloaded method (with its overload order), that
  \<open>__str__\<close> is \<open>to_string\<close>, and which docstrings name the wrong gate. They are plain
  lemmas, not claims: they are facts about registration tables.

  \<^medskip>\<^bold>\<open>The pgserver catalog headers\<close> (pg_auth_members_d.h and pg_parameter_acl_d.h,
  generated by PostgreSQL's genbki), theory \<open>Pg_Catalog\<close>. Each header is the record of
  its \<open>#define\<close>s (\<open>catalog_header\<close>), and \<open>catalog_wf\<close> is the invariant the backend
  relies on: attribute numbers \<open>1 .. Natts\<close> in order, and distinct OIDs below
  \<open>FirstGenbkiObjectId\<close>. Both headers satisfy it, and they share no OID (plain lemmas).

  \<^medskip>\<^bold>\<open>Not modelled.\<close> The pycanha-core wrapper only calls binding functions
  defined outside the sources. The registration of pyfdmss 0.0.5 is not modelled because
  its wrapper.h is not in the sources. The headers of gvsbuild, tgcyber and dlio_profiler
  hold only function prototypes whose bodies are not in the sources, and adelie's
  configs.hpp only default values, none of them with behaviour of their own. The print functions of Slau (\<open>print_A\<close>, \<open>print_B\<close>) are modelled as the
  values they print, but the \<open>%.4f\<close> formatting is not, and no lemma is stated about them.

  \<^medskip>\<^bold>\<open>What modelling found\<close> (details in the findings of the manifest):
  \<^item> The list of free indices is initialised with one capacity macro and accessed with
    another (C19).
  \<^item> \<open>alist_init\<close> of size 0 wraps \<open>num_chunks - 1\<close> (the value \<open>Err_undefined\<close>).
  \<^item> \<open>collapse\<close> and \<open>apply_gate\<close> free the caller's \<open>new_state\<close> when \<open>state_init\<close> fails
    (C20, C21).
  \<^item> A repeated control qubit overflows the pre-sized index list (C18).
  \<^item> Exit codes 5 and 6 are dead: \<open>copy_and_index\<close> and \<open>calculate_empty\<close> always
    return 0.
  \<^item> The phase scan stops at a real amplitude (C23).
  \<^item> \<open>new_application\<close> leaks its structure on an invalid capsule, and
    \<open>apply_gate_fmat\<close> hides the capsule error code (C22).
  \<^item> The MagnetoShield TEST command overflows a signed 16-bit product (C26), and a short
    serial read replays the previous command's bytes (C28).
  \<^item> The AeroShield TEST reply decodes wrongly for parameters of 64 and more (C29).
  \<^item> The Slau constructor writes a row past its arrays when the centre is not among the
    stencil velocities (C32), and every Slau object leaks its polynomials (C35).
  \<^item> After a failed load, \<open>SolveImpl\<close> prints an infinite open pore fraction (C36).
\<close>

end
